(* ===== verification/PA_Prelude.thy ===== *)
theory PA_Prelude
  imports Complex_Main "HOL-Library.AList" "HOL-Library.Char_ord" "HOL-Library.List_Lexorder"
begin

text \<open>
  Shared vocabulary of the development: the Python exceptions of the program as values
  (\<open>domain/errors.py\<close> and the exception classes next to each service), the result type of a
  fallible function, and the string and dictionary operations the sources use. The interfaces
  that several stores implement are in \<open>PA_Stores\<close>.

  Conventions.
  \<^item> A Python \<open>str\<close> is a \<open>string\<close>; its characters are the code points below 256.
  \<^item> An aware \<open>datetime\<close> is its instant, an \<open>int\<close> of microseconds since the epoch in UTC;
    a \<open>timedelta\<close> is an \<open>int\<close> of microseconds.
  \<^item> A Python \<open>dict\<close> whose order matters is an association list; \<open>AList.update\<close> keeps the
    position of an existing key and appends a new one, as a dictionary does.
  \<^item> An operation on a store returns its outcome together with the store afterwards, because
    some operations write before they raise.
\<close>

section \<open>Exceptions and results\<close>

datatype exn_class =
    DomainError | ValidationError | NotFoundError | AlreadyExistsError
  | ConcurrentModificationError | InvalidStateTransitionError
  | CanonicalizationError | SchemaValidationError
  | ApprovalError | ApprovalExpiredError | ApprovalStateError
  | ApprovalBindingMismatchError | InvalidApprovalNonceError
  | ToolPolicyError | ProhibitedToolError | WorkflowBindingConflict
  | DisclosureError | DisclosureDeniedError | DisclosureStateError
  | DisclosurePreviewMismatchError | DisclosureIdempotencyConflictError
  | DisclosureRecipientUnknownError | DisclosureConsentNotFoundError
  | DisclosureDenied | LeaseConflict | LeaseLost
  | ExtensionError | ManifestValidationError | DuplicateCapabilityError | InvalidLifecycleTransition
  | ConfirmationRequiredError | ExtensionOperationError string | RpcCallError int | RpcTimeoutError
  | ZoneInfoNotFoundError | ValueError | KeyError | IndexError | TypeError | AttributeError | RuntimeError
  | OSError | TimeoutError | OverflowError | CancelledError

text \<open>
  The class statement's first base, where it is another class of this list. Two exceptions of the
  extension boundary carry a code, which is part of the value.
\<close>

fun exn_base :: "exn_class \<Rightarrow> exn_class option" where
  "exn_base ValidationError = Some DomainError"
| "exn_base NotFoundError = Some DomainError"
| "exn_base AlreadyExistsError = Some DomainError"
| "exn_base ConcurrentModificationError = Some DomainError"
| "exn_base InvalidStateTransitionError = Some DomainError"
| "exn_base CanonicalizationError = Some ValidationError"
| "exn_base SchemaValidationError = Some ValidationError"
| "exn_base ApprovalError = Some DomainError"
| "exn_base ApprovalExpiredError = Some ApprovalError"
| "exn_base ApprovalStateError = Some ApprovalError"
| "exn_base ApprovalBindingMismatchError = Some ApprovalError"
| "exn_base InvalidApprovalNonceError = Some ApprovalError"
| "exn_base ToolPolicyError = Some DomainError"
| "exn_base ProhibitedToolError = Some ToolPolicyError"
| "exn_base WorkflowBindingConflict = Some ConcurrentModificationError"
| "exn_base DisclosureError = Some DomainError"
| "exn_base DisclosureDeniedError = Some DisclosureError"
| "exn_base DisclosureStateError = Some DisclosureError"
| "exn_base DisclosurePreviewMismatchError = Some DisclosureError"
| "exn_base DisclosureIdempotencyConflictError = Some DisclosureError"
| "exn_base DisclosureRecipientUnknownError = Some DisclosureError"
| "exn_base DisclosureConsentNotFoundError = Some NotFoundError"
| "exn_base DisclosureDenied = Some RuntimeError"
| "exn_base LeaseConflict = Some RuntimeError"
| "exn_base LeaseLost = Some RuntimeError"
| "exn_base ManifestValidationError = Some ExtensionError"
| "exn_base DuplicateCapabilityError = Some ExtensionError"
| "exn_base InvalidLifecycleTransition = Some ExtensionError"
| "exn_base ConfirmationRequiredError = Some ExtensionError"
| "exn_base (ExtensionOperationError _) = Some ExtensionError"
| "exn_base (RpcCallError _) = Some ExtensionError"
| "exn_base RpcTimeoutError = Some ExtensionError"
| "exn_base ZoneInfoNotFoundError = Some KeyError"
| "exn_base TimeoutError = Some OSError"
| "exn_base _ = None"

text \<open>
  \<open>isinstance\<close> on an exception: no class of the list is more than three steps from its root, and
  two have a second base.
\<close>

definition isa :: "exn_class \<Rightarrow> exn_class \<Rightarrow> bool" where
  "isa c d =
     (c = d \<or> exn_base c = Some d \<or> c = ManifestValidationError \<and> d = ValueError \<or>
      c = RpcTimeoutError \<and> d \<in> {TimeoutError, OSError} \<or>
      (case exn_base c of None \<Rightarrow> False | Some b \<Rightarrow>
         exn_base b = Some d \<or>
         (case exn_base b of None \<Rightarrow> False | Some a \<Rightarrow> exn_base a = Some d)))"

text \<open>\<open>except Exception\<close>: everything but the cancellation of the task.\<close>

definition is_exception :: "exn_class \<Rightarrow> bool" where
  "is_exception c = (c \<noteq> CancelledError)"

text \<open>The class attribute \<open>code\<close> of the domain exceptions.\<close>

fun exn_code :: "exn_class \<Rightarrow> string" where
  "exn_code DomainError = ''domain_error''"
| "exn_code ValidationError = ''validation_error''"
| "exn_code NotFoundError = ''not_found''"
| "exn_code AlreadyExistsError = ''already_exists''"
| "exn_code ConcurrentModificationError = ''concurrent_modification''"
| "exn_code InvalidStateTransitionError = ''invalid_state_transition''"
| "exn_code CanonicalizationError = ''canonicalization_error''"
| "exn_code SchemaValidationError = ''schema_validation_error''"
| "exn_code ApprovalError = ''approval_error''"
| "exn_code ApprovalExpiredError = ''approval_expired''"
| "exn_code ApprovalStateError = ''approval_state_error''"
| "exn_code ApprovalBindingMismatchError = ''approval_binding_mismatch''"
| "exn_code InvalidApprovalNonceError = ''invalid_approval_nonce''"
| "exn_code ToolPolicyError = ''tool_policy_denied''"
| "exn_code ProhibitedToolError = ''prohibited_tool''"
| "exn_code WorkflowBindingConflict = ''concurrent_modification''"
| "exn_code DisclosureError = ''disclosure_error''"
| "exn_code DisclosureDeniedError = ''disclosure_denied''"
| "exn_code DisclosureStateError = ''disclosure_state_error''"
| "exn_code DisclosurePreviewMismatchError = ''disclosure_preview_mismatch''"
| "exn_code DisclosureIdempotencyConflictError = ''idempotency_conflict''"
| "exn_code DisclosureRecipientUnknownError = ''disclosure_recipient_unknown''"
| "exn_code DisclosureConsentNotFoundError = ''not_found''"
| "exn_code _ = ''''"

text \<open>\<open>type(exc).__name__\<close>.\<close>

fun exn_name :: "exn_class \<Rightarrow> string" where
  "exn_name DomainError = ''DomainError''"
| "exn_name ValidationError = ''ValidationError''"
| "exn_name NotFoundError = ''NotFoundError''"
| "exn_name AlreadyExistsError = ''AlreadyExistsError''"
| "exn_name ConcurrentModificationError = ''ConcurrentModificationError''"
| "exn_name InvalidStateTransitionError = ''InvalidStateTransitionError''"
| "exn_name CanonicalizationError = ''CanonicalizationError''"
| "exn_name SchemaValidationError = ''SchemaValidationError''"
| "exn_name ApprovalError = ''ApprovalError''"
| "exn_name ApprovalExpiredError = ''ApprovalExpiredError''"
| "exn_name ApprovalStateError = ''ApprovalStateError''"
| "exn_name ApprovalBindingMismatchError = ''ApprovalBindingMismatchError''"
| "exn_name InvalidApprovalNonceError = ''InvalidApprovalNonceError''"
| "exn_name ToolPolicyError = ''ToolPolicyError''"
| "exn_name ProhibitedToolError = ''ProhibitedToolError''"
| "exn_name WorkflowBindingConflict = ''WorkflowBindingConflict''"
| "exn_name DisclosureError = ''DisclosureError''"
| "exn_name DisclosureDeniedError = ''DisclosureDeniedError''"
| "exn_name DisclosureStateError = ''DisclosureStateError''"
| "exn_name DisclosurePreviewMismatchError = ''DisclosurePreviewMismatchError''"
| "exn_name DisclosureIdempotencyConflictError = ''DisclosureIdempotencyConflictError''"
| "exn_name DisclosureRecipientUnknownError = ''DisclosureRecipientUnknownError''"
| "exn_name DisclosureConsentNotFoundError = ''DisclosureConsentNotFoundError''"
| "exn_name DisclosureDenied = ''DisclosureDenied''"
| "exn_name LeaseConflict = ''LeaseConflict''"
| "exn_name LeaseLost = ''LeaseLost''"
| "exn_name ExtensionError = ''ExtensionError''"
| "exn_name ManifestValidationError = ''ManifestValidationError''"
| "exn_name DuplicateCapabilityError = ''DuplicateCapabilityError''"
| "exn_name InvalidLifecycleTransition = ''InvalidLifecycleTransition''"
| "exn_name ConfirmationRequiredError = ''ConfirmationRequiredError''"
| "exn_name (ExtensionOperationError _) = ''ExtensionOperationError''"
| "exn_name (RpcCallError _) = ''RpcCallError''"
| "exn_name RpcTimeoutError = ''RpcTimeoutError''"
| "exn_name ZoneInfoNotFoundError = ''ZoneInfoNotFoundError''"
| "exn_name ValueError = ''ValueError''"
| "exn_name KeyError = ''KeyError''"
| "exn_name IndexError = ''IndexError''"
| "exn_name TypeError = ''TypeError''"
| "exn_name AttributeError = ''AttributeError''"
| "exn_name RuntimeError = ''RuntimeError''"
| "exn_name OSError = ''OSError''"
| "exn_name TimeoutError = ''TimeoutError''"
| "exn_name OverflowError = ''OverflowError''"
| "exn_name CancelledError = ''CancelledError''"

type_synonym exn = "exn_class \<times> string"
type_synonym 'a result = "exn + 'a"

definition raise :: "exn_class \<Rightarrow> string \<Rightarrow> 'a result" where
  "raise c m = Inl (c, m)"

definition rbind :: "'a result \<Rightarrow> ('a \<Rightarrow> 'b result) \<Rightarrow> 'b result" where
  "rbind m f = (case m of Inl e \<Rightarrow> Inl e | Inr x \<Rightarrow> f x)"

text \<open>\<open>if not ok: raise c(m)\<close>, followed by the rest of the function.\<close>

definition ensure :: "bool \<Rightarrow> exn_class \<Rightarrow> string \<Rightarrow> 'a result \<Rightarrow> 'a result" where
  "ensure ok c m rest = (if ok then rest else raise c m)"

fun rmap :: "('a \<Rightarrow> 'b result) \<Rightarrow> 'a list \<Rightarrow> 'b list result" where
  "rmap f [] = Inr []"
| "rmap f (x # xs) = rbind (f x) (\<lambda>y. rbind (rmap f xs) (\<lambda>ys. Inr (y # ys)))"

text \<open>A loop that only checks: it stops at the first exception.\<close>

fun rall :: "('a \<Rightarrow> unit result) \<Rightarrow> 'a list \<Rightarrow> unit result" where
  "rall f [] = Inr ()"
| "rall f (x # xs) = rbind (f x) (\<lambda>_. rall f xs)"

text \<open>Two calls on a store in a row: the second runs on the store the first left, unless the first raised.\<close>

definition sbind :: "'a result \<times> 's \<Rightarrow> ('a \<Rightarrow> 's \<Rightarrow> 'b result \<times> 's) \<Rightarrow> 'b result \<times> 's" where
  "sbind m f = (case m of (Inl e, s) \<Rightarrow> (Inl e, s) | (Inr x, s) \<Rightarrow> f x s)"

definition is_ok :: "'a result \<Rightarrow> bool" where
  "is_ok r = (case r of Inl _ \<Rightarrow> False | Inr _ \<Rightarrow> True)"

lemma rbind_simps [simp]:
  "rbind (Inl e) f = Inl e" "rbind (Inr x) f = f x"
  by (simp_all add: rbind_def)

lemma sbind_simps [simp]:
  "sbind (Inl e, s) f = (Inl e, s)" "sbind (Inr x, s) f = f x s"
  by (simp_all add: sbind_def)

lemma sbind_eq_Inr: "sbind m f = (Inr y, s') \<longleftrightarrow> (\<exists>x s. m = (Inr x, s) \<and> f x s = (Inr y, s'))"
  by (auto simp: sbind_def split: prod.splits sum.splits)

lemma snd_sbind: "(\<And>x s. P s \<Longrightarrow> P (snd (f x s))) \<Longrightarrow> P (snd m) \<Longrightarrow> P (snd (sbind m f))"
  by (auto simp: sbind_def split: prod.splits sum.splits)

lemma rbind_cong [fundef_cong]:
  "m = m' \<Longrightarrow> (\<And>x. m' = Inr x \<Longrightarrow> f x = g x) \<Longrightarrow> rbind m f = rbind m' g"
  by (cases m') auto

lemma rbind_eq_Inr: "rbind m f = Inr y \<longleftrightarrow> (\<exists>x. m = Inr x \<and> f x = Inr y)"
  by (cases m) auto

lemma rbind_eq_Inl: "rbind m f = Inl e \<longleftrightarrow> m = Inl e \<or> (\<exists>x. m = Inr x \<and> f x = Inl e)"
  by (cases m) auto

lemma raise_neq_Inr [simp]: "raise c m \<noteq> Inr x" "Inr x \<noteq> raise c m"
  by (simp_all add: raise_def)

lemma raise_eq_Inl [simp]: "raise c m = Inl e \<longleftrightarrow> e = (c, m)"
  by (auto simp: raise_def)

lemma rbind_raise [simp]: "rbind (raise c m) f = raise c m"
  by (simp add: raise_def)

lemma ensure_simps [simp]:
  "ensure True c m r = r" "ensure False c m r = raise c m"
  by (simp_all add: ensure_def)

lemma ensure_eq_Inr [simp]: "ensure ok c m r = Inr x \<longleftrightarrow> ok \<and> r = Inr x"
  by (simp add: ensure_def)

lemma ensure_eq_Inl: "ensure ok c m r = Inl e \<longleftrightarrow> \<not> ok \<and> e = (c, m) \<or> ok \<and> r = Inl e"
  by (auto simp: ensure_def)

lemma is_ok_simps [simp]: "is_ok (Inr x)" "\<not> is_ok (Inl e)" "\<not> is_ok (raise c m)"
  by (simp_all add: is_ok_def raise_def)

lemma is_ok_iff: "is_ok r \<longleftrightarrow> (\<exists>x. r = Inr x)"
  by (cases r) (auto simp: is_ok_def)

lemma rmap_cong [fundef_cong]:
  assumes "xs = ys" "\<And>x. x \<in> set ys \<Longrightarrow> f x = g x"
  shows "rmap f xs = rmap g ys"
  using assms(2) unfolding assms(1) by (induction ys) (auto intro: rbind_cong)

lemma rmap_eq_Inr: "rmap f xs = Inr ys \<longleftrightarrow> list_all2 (\<lambda>x y. f x = Inr y) xs ys"
  by (induction xs arbitrary: ys) (auto simp: rbind_eq_Inr list_all2_Cons1)

lemma list_all2_in: "list_all2 P xs ys \<Longrightarrow> y \<in> set ys \<Longrightarrow> \<exists>x\<in>set xs. P x y"
  by (induction rule: list_all2_induct) auto

lemma rmap_in: "rmap f xs = Inr ys \<Longrightarrow> y \<in> set ys \<Longrightarrow> \<exists>x\<in>set xs. f x = Inr y"
  by (auto simp: rmap_eq_Inr dest: list_all2_in)

lemma rall_cong [fundef_cong]:
  assumes "xs = ys" "\<And>x. x \<in> set ys \<Longrightarrow> f x = g x"
  shows "rall f xs = rall g ys"
  using assms(2) unfolding assms(1) by (induction ys) (auto intro: rbind_cong)

lemma rall_eq_Inr [simp]: "rall f xs = Inr u \<longleftrightarrow> (\<forall>x\<in>set xs. f x = Inr ())"
  by (induction xs) (auto simp: rbind_eq_Inr)

section \<open>Strings\<close>

text \<open>\<open>str.isspace\<close> for one character below 256.\<close>

definition is_space :: "char \<Rightarrow> bool" where
  "is_space c = (let n = (of_char c :: nat) in
     9 \<le> n \<and> n \<le> 13 \<or> 28 \<le> n \<and> n \<le> 32 \<or> n = 133 \<or> n = 160)"

definition strip :: "string \<Rightarrow> string" where
  "strip s = rev (dropWhile is_space (rev (dropWhile is_space s)))"

text \<open>\<open>not value or not value.strip()\<close>: the tests for a required text field.\<close>

definition blank :: "string \<Rightarrow> bool" where
  "blank s = (strip s = [])"

definition lower_char :: "char \<Rightarrow> char" where
  "lower_char c = (let n = (of_char c :: nat) in
     if 65 \<le> n \<and> n \<le> 90 \<or> 192 \<le> n \<and> n \<le> 222 \<and> n \<noteq> 215 then char_of (n + 32) else c)"

definition lower :: "string \<Rightarrow> string" where
  "lower s = map lower_char s"

definition digit :: "nat \<Rightarrow> char" where
  "digit n = char_of (48 + n)"

fun nat_str :: "nat \<Rightarrow> string" where
  "nat_str n = (if n < 10 then [digit n] else nat_str (n div 10) @ [digit (n mod 10)])"

declare nat_str.simps [simp del]

definition int_str :: "int \<Rightarrow> string" where
  "int_str i = (if i < 0 then CHR ''-'' # nat_str (nat (- i)) else nat_str (nat i))"

fun join :: "string \<Rightarrow> string list \<Rightarrow> string" where
  "join sep [] = []"
| "join sep [x] = x"
| "join sep (x # y # xs) = x @ sep @ join sep (y # xs)"

definition utf8_len :: "string \<Rightarrow> nat" where
  "utf8_len s = sum_list (map (\<lambda>c. if (of_char c :: nat) < 128 then 1 else 2) s)"

definition hex_chars :: string where
  "hex_chars = ''0123456789abcdef''"

text \<open>A lowercase hexadecimal SHA-256 digest.\<close>

definition is_digest :: "string \<Rightarrow> bool" where
  "is_digest s = (length s = 64 \<and> list_all (\<lambda>c. c \<in> set hex_chars) s)"

lemma dropWhile_idem: "dropWhile P (dropWhile P xs) = dropWhile P xs"
  by (induction xs) auto

lemma blank_Nil [simp]: "blank []"
  by (simp add: blank_def strip_def)

lemma blank_iff: "blank s \<longleftrightarrow> (\<forall>c\<in>set s. is_space c)"
  by (auto simp: blank_def strip_def dropWhile_eq_Nil_conv dest: set_dropWhileD)
     (metis append_Nil2 set_dropWhileD set_rev takeWhile_dropWhile_id set_takeWhileD Un_iff set_append)

lemma length_strip_le: "length (strip s) \<le> length s"
  using length_dropWhile_le [of is_space s]
    length_dropWhile_le [of is_space "rev (dropWhile is_space s)"]
  by (simp add: strip_def)

section \<open>Decimal notation\<close>

definition is_digit :: "char \<Rightarrow> bool" where
  "is_digit c = (48 \<le> (of_char c :: nat) \<and> (of_char c :: nat) \<le> 57)"

definition digits_val :: "string \<Rightarrow> nat" where
  "digits_val s = foldl (\<lambda>a c. 10 * a + ((of_char c :: nat) - 48)) 0 s"

lemma of_char_digit: "n < 10 \<Longrightarrow> (of_char (digit n) :: nat) = 48 + n"
  by (simp add: digit_def of_char_of)

lemma is_digit_digit: "n < 10 \<Longrightarrow> is_digit (digit n)"
  by (simp add: is_digit_def of_char_digit)

lemma digits_val_snoc: "digits_val (s @ [c]) = 10 * digits_val s + ((of_char c :: nat) - 48)"
  by (simp add: digits_val_def)

lemma digits_val_nat_str: "digits_val (nat_str n) = n"
proof (induction n rule: nat_str.induct)
  case (1 n)
  then show ?case
    by (subst nat_str.simps)
       (auto simp: digits_val_snoc of_char_digit digits_val_def [of "[digit n]"])
qed

lemma nat_str_inject [simp]: "nat_str m = nat_str n \<longleftrightarrow> m = n"
  by (metis digits_val_nat_str)

lemma nat_str_digits: "\<forall>c\<in>set (nat_str n). is_digit c"
proof (induction n rule: nat_str.induct)
  case (1 n)
  then show ?case
    by (subst nat_str.simps) (auto simp: is_digit_digit)
qed

lemma nat_str_nonempty [simp]: "nat_str n \<noteq> []"
  by (subst nat_str.simps) simp

lemma is_digit_minus [simp]: "\<not> is_digit (CHR ''-'')"
  by (simp add: is_digit_def)

lemma int_str_inject [simp]: "int_str i = int_str j \<longleftrightarrow> i = j"
proof -
  have neq: "nat_str m \<noteq> CHR ''-'' # s" for m s
    using nat_str_digits [of m] by auto
  show ?thesis
    using neq by (auto simp: int_str_def nat_eq_iff) (metis neq)+
qed

lemma int_str_nonempty [simp]: "int_str i \<noteq> []"
  by (simp add: int_str_def)

lemma int_str_chars: "c \<in> set (int_str i) \<Longrightarrow> is_digit c \<or> c = CHR ''-''"
  using nat_str_digits by (auto simp: int_str_def split: if_splits)

text \<open>The same digits by division of integers, which evaluates fast.\<close>

function int_digits :: "int \<Rightarrow> string" where
  "int_digits i = (if i < 10 then [digit (nat i)] else int_digits (i div 10) @ [digit (nat (i mod 10))])"
  by pat_completeness auto
termination by (relation "measure nat") auto

declare int_digits.simps [simp del]

lemma int_digits_nat_str: "int_digits (int n) = nat_str n"
proof (induction n rule: nat_str.induct)
  case (1 n)
  show ?case
  proof (cases "n < 10")
    case True
    then show ?thesis by (subst int_digits.simps, subst nat_str.simps) simp
  next
    case False
    have "int_digits (int n) = int_digits (int (n div 10)) @ [digit (nat (int (n mod 10)))]"
      using False by (subst int_digits.simps) (simp add: zdiv_int zmod_int)
    with 1 [OF False] False show ?thesis by (subst nat_str.simps) simp
  qed
qed

lemma int_str_code [code]: "int_str i = (if i < 0 then CHR ''-'' # int_digits (- i) else int_digits i)"
  using int_digits_nat_str [of "nat i"] int_digits_nat_str [of "nat (- i)"] by (cases "i < 0") (simp_all add: int_str_def)

lemma nat_str_code [code]: "nat_str n = int_digits (int n)"
  by (simp add: int_digits_nat_str)

section \<open>Splitting and parsing\<close>

fun split_char :: "char \<Rightarrow> string \<Rightarrow> string list" where
  "split_char c [] = [[]]"
| "split_char c (x # xs) =
     (if x = c then [] # split_char c xs else (case split_char c xs of [] \<Rightarrow> [[x]] | w # ws \<Rightarrow> (x # w) # ws))"

text \<open>\<open>str.split()\<close>.\<close>

definition words :: "string \<Rightarrow> string list" where
  "words s = filter (\<lambda>w. w \<noteq> []) (split_char (CHR '' '') (map (\<lambda>c. if is_space c then CHR '' '' else c) s))"

text \<open>\<open>str.partition\<close>: the text before the separator, and the text after it if it occurs.\<close>

definition partition_char :: "char \<Rightarrow> string \<Rightarrow> string \<times> string option" where
  "partition_char c s = (takeWhile (\<lambda>x. x \<noteq> c) s, case dropWhile (\<lambda>x. x \<noteq> c) s of [] \<Rightarrow> None | _ # t \<Rightarrow> Some t)"

definition is_decimal :: "string \<Rightarrow> bool" where
  "is_decimal s = (s \<noteq> [] \<and> list_all is_digit s)"

definition decimal :: "string \<Rightarrow> int" where
  "decimal s = foldl (\<lambda>a c. 10 * a + (of_char c - 48)) 0 s"

section \<open>Dictionaries\<close>

abbreviation dget :: "('k \<times> 'v) list \<Rightarrow> 'k \<Rightarrow> 'v option" where
  "dget d k \<equiv> map_of d k"

abbreviation dset :: "'k \<Rightarrow> 'v \<Rightarrow> ('k \<times> 'v) list \<Rightarrow> ('k \<times> 'v) list" where
  "dset \<equiv> AList.update"

abbreviation dpop :: "'k \<Rightarrow> ('k \<times> 'v) list \<Rightarrow> ('k \<times> 'v) list" where
  "dpop \<equiv> AList.delete"

definition dkeys :: "('k \<times> 'v) list \<Rightarrow> 'k set" where
  "dkeys d = fst ` set d"

definition wf_dict :: "('k \<times> 'v) list \<Rightarrow> bool" where
  "wf_dict d = distinct (map fst d)"

lemma dkeys_dom: "dkeys d = dom (map_of d)"
  by (simp add: dkeys_def dom_map_of_conv_image_fst)

lemma wf_dict_update [simp]: "wf_dict d \<Longrightarrow> wf_dict (dset k v d)"
  by (simp add: wf_dict_def distinct_update)

lemma wf_dict_Nil [simp]: "wf_dict []"
  by (simp add: wf_dict_def)

lemma map_of_dset [simp]: "map_of (dset k v d) = (map_of d)(k \<mapsto> v)"
  by (simp add: update_conv')

lemma set_dset: "set (dset k v d) \<subseteq> insert (k, v) (set d)"
  by (induction d) auto

end
