(* ===== verification/PA_Values.thy ===== *)
theory PA_Values
  imports PA_Prelude
begin

text \<open>
  Python values as they cross the program's boundaries, and their deterministic JSON text:
  \<open>core/approvals/canonicalize.py\<close> (the text whose hash an approval is bound to),
  \<open>core/records.py\<close> \<open>fingerprint\<close>, \<open>core/tools/result_sanitizer.py\<close> and
  \<open>core/audit/redaction.py\<close>.

  Mappings have string keys, as JSON objects do. A \<open>VProxy\<close> is the read-only mapping
  (\<open>types.MappingProxyType\<close>) that the tool registry stores, a \<open>VTuple\<close> a tuple; both differ
  from \<open>dict\<close> and \<open>list\<close> under \<open>isinstance\<close>. A \<open>VOther\<close> is a value of any other type,
  known by its type name. A finite float is its rational value; negative zero is its own value
  because it prints differently.

  What the sources take from outside themselves is the record \<open>stdlib\<close>: the SHA-256
  hexadecimal digest, the text of a finite float, the regular-expression search, the
  \<open>g\<close> format of a number, the JSON parser and \<open>str\<close> of a value that is no JSON value.
\<close>

section \<open>Values\<close>

datatype pyfloat = FFin rat | FNegZero | FPosInf | FNegInf | FNaN

datatype pyval =
    VNone
  | VBool bool
  | VInt int
  | VFloat pyfloat
  | VStr string
  | VList "pyval list"
  | VTuple "pyval list"
  | VDict "(string \<times> pyval) list"
  | VProxy "(string \<times> pyval) list"
  | VOther string

record stdlib =
  sha256_hex :: "string \<Rightarrow> string"
  float_repr :: "pyfloat \<Rightarrow> string"
  re_search :: "string \<Rightarrow> string \<Rightarrow> bool"
  format_g :: "rat \<Rightarrow> string"
  json_loads :: "string \<Rightarrow> pyval result"
  py_str :: "pyval \<Rightarrow> string"

definition is_finite :: "pyfloat \<Rightarrow> bool" where
  "is_finite f = (case f of FFin _ \<Rightarrow> True | FNegZero \<Rightarrow> True | _ \<Rightarrow> False)"

fun is_mapping :: "pyval \<Rightarrow> bool" where
  "is_mapping (VDict _) = True"
| "is_mapping (VProxy _) = True"
| "is_mapping _ = False"

text \<open>\<open>isinstance(v, Sequence) and not isinstance(v, (str, bytes, bytearray))\<close>.\<close>

fun is_sequence :: "pyval \<Rightarrow> bool" where
  "is_sequence (VList _) = True"
| "is_sequence (VTuple _) = True"
| "is_sequence _ = False"

fun type_name :: "pyval \<Rightarrow> string" where
  "type_name VNone = ''NoneType''"
| "type_name (VBool _) = ''bool''"
| "type_name (VInt _) = ''int''"
| "type_name (VFloat _) = ''float''"
| "type_name (VStr _) = ''str''"
| "type_name (VList _) = ''list''"
| "type_name (VTuple _) = ''tuple''"
| "type_name (VDict _) = ''dict''"
| "type_name (VProxy _) = ''mappingproxy''"
| "type_name (VOther t) = t"

subsection \<open>Equality\<close>

text \<open>The numbers behind \<open>bool\<close>, \<open>int\<close> and \<open>float\<close>, which compare by value.\<close>

datatype xnum = XFin rat | XPosInf | XNegInf | XNaN

fun num_val :: "pyval \<Rightarrow> xnum option" where
  "num_val (VBool b) = Some (XFin (if b then 1 else 0))"
| "num_val (VInt i) = Some (XFin (of_int i))"
| "num_val (VFloat (FFin q)) = Some (XFin q)"
| "num_val (VFloat FNegZero) = Some (XFin 0)"
| "num_val (VFloat FPosInf) = Some XPosInf"
| "num_val (VFloat FNegInf) = Some XNegInf"
| "num_val (VFloat FNaN) = Some XNaN"
| "num_val _ = None"

fun xnum_less :: "xnum \<Rightarrow> xnum \<Rightarrow> bool" where
  "xnum_less (XFin a) (XFin b) = (a < b)"
| "xnum_less XNegInf (XFin _) = True"
| "xnum_less XNegInf XPosInf = True"
| "xnum_less (XFin _) XPosInf = True"
| "xnum_less _ _ = False"

definition xnum_eq :: "xnum \<Rightarrow> xnum \<Rightarrow> bool" where
  "xnum_eq a b = (a = b \<and> a \<noteq> XNaN)"

text \<open>Python's \<open>==\<close>. A list never equals a tuple; mappings compare by content.\<close>

fun py_eq :: "pyval \<Rightarrow> pyval \<Rightarrow> bool" where
  "py_eq VNone w = (w = VNone)"
| "py_eq (VStr s) w = (w = VStr s)"
| "py_eq (VOther t) w = (w = VOther t)"
| "py_eq (VList xs) w = (case w of VList ys \<Rightarrow> list_all2 py_eq xs ys | _ \<Rightarrow> False)"
| "py_eq (VTuple xs) w = (case w of VTuple ys \<Rightarrow> list_all2 py_eq xs ys | _ \<Rightarrow> False)"
| "py_eq (VDict d) w =
     (case (case w of VDict e \<Rightarrow> Some e | VProxy e \<Rightarrow> Some e | _ \<Rightarrow> None) of
        None \<Rightarrow> False
      | Some e \<Rightarrow> length d = length e \<and>
          list_all (\<lambda>(k, v). case map_of e k of None \<Rightarrow> False | Some u \<Rightarrow> py_eq v u) d)"
| "py_eq (VProxy d) w =
     (case (case w of VDict e \<Rightarrow> Some e | VProxy e \<Rightarrow> Some e | _ \<Rightarrow> None) of
        None \<Rightarrow> False
      | Some e \<Rightarrow> length d = length e \<and>
          list_all (\<lambda>(k, v). case map_of e k of None \<Rightarrow> False | Some u \<Rightarrow> py_eq v u) d)"
| "py_eq v w =
     (case (num_val v, num_val w) of (Some a, Some b) \<Rightarrow> xnum_eq a b | _ \<Rightarrow> False)"

text \<open>The first value inside that Python cannot hash, if any: membership in a set hashes first.\<close>

fun unhashable :: "pyval \<Rightarrow> string option" where
  "unhashable (VList _) = Some ''list''"
| "unhashable (VDict _) = Some ''dict''"
| "unhashable (VProxy _) = Some ''dict''"
| "unhashable (VTuple xs) = (case filter (\<lambda>t. t \<noteq> None) (map unhashable xs) of [] \<Rightarrow> None | t # _ \<Rightarrow> t)"
| "unhashable _ = None"

section \<open>JSON text\<close>

definition hex_digit :: "nat \<Rightarrow> char" where
  "hex_digit n = hex_chars ! n"

text \<open>\<open>json.dumps(s, ensure_ascii=False)\<close> for one character of a string.\<close>

definition json_escape_char :: "char \<Rightarrow> string" where
  "json_escape_char c = (let n = (of_char c :: nat) in
     if n = 34 then [CHR 0x5C, CHR 0x22]
     else if n = 92 then [CHR 0x5C, CHR 0x5C]
     else if n = 10 then [CHR 0x5C, CHR ''n'']
     else if n = 13 then [CHR 0x5C, CHR ''r'']
     else if n = 9 then [CHR 0x5C, CHR ''t'']
     else if n = 12 then [CHR 0x5C, CHR ''f'']
     else if n = 8 then [CHR 0x5C, CHR ''b'']
     else if n < 32 then [CHR 0x5C, CHR ''u'', CHR ''0'', CHR ''0'', hex_digit (n div 16), hex_digit (n mod 16)]
     else [c])"

text \<open>\<open>repr\<close> of a string, as the format \<open>!r\<close> prints it.\<close>

definition repr_char :: "char \<Rightarrow> char \<Rightarrow> string" where
  "repr_char quote c = (let n = (of_char c :: nat) in
     if c = quote \<or> n = 92 then [CHR 0x5C, c]
     else if n = 10 then [CHR 0x5C, CHR ''n'']
     else if n = 13 then [CHR 0x5C, CHR ''r'']
     else if n = 9 then [CHR 0x5C, CHR ''t'']
     else if n < 32 \<or> 127 \<le> n \<and> n \<le> 160 \<or> n = 173
     then [CHR 0x5C, CHR ''x'', hex_digit (n div 16), hex_digit (n mod 16)]
     else [c])"

definition py_repr :: "string \<Rightarrow> string" where
  "py_repr s =
     (let quote = (if CHR 0x27 \<in> set s \<and> CHR 0x22 \<notin> set s then CHR 0x22 else CHR 0x27)
      in quote # concat (map (repr_char quote) s) @ [quote])"

definition json_string :: "string \<Rightarrow> string" where
  "json_string s = CHR 0x22 # concat (map json_escape_char s) @ [CHR 0x22]"

text \<open>
  \<open>json.dumps(value, ensure_ascii=False, allow_nan=False, sort_keys=sk, separators=(",", ":"))\<close>.
\<close>

function json_dumps :: "stdlib \<Rightarrow> bool \<Rightarrow> pyval \<Rightarrow> string result" where
  "json_dumps L sk VNone = Inr ''null''"
| "json_dumps L sk (VBool b) = Inr (if b then ''true'' else ''false'')"
| "json_dumps L sk (VInt i) = Inr (int_str i)"
| "json_dumps L sk (VFloat f) =
     ensure (is_finite f) ValueError ''Out of range float values are not JSON compliant''
       (Inr (float_repr L f))"
| "json_dumps L sk (VStr s) = Inr (json_string s)"
| "json_dumps L sk (VList xs) =
     rbind (rmap (json_dumps L sk) xs) (\<lambda>ts. Inr (''['' @ join '','' ts @ '']''))"
| "json_dumps L sk (VTuple xs) =
     rbind (rmap (json_dumps L sk) xs) (\<lambda>ts. Inr (''['' @ join '','' ts @ '']''))"
| "json_dumps L sk (VDict d) =
     rbind (rmap (\<lambda>(k, v). rbind (json_dumps L sk v) (\<lambda>t. Inr (json_string k @ '':'' @ t)))
              (if sk then sort_key fst d else d))
       (\<lambda>ts. Inr (''{'' @ join '','' ts @ ''}''))"
| "json_dumps L sk (VProxy d) = raise TypeError ''Object of type mappingproxy is not JSON serializable''"
| "json_dumps L sk (VOther t) = raise TypeError (''Object of type '' @ t @ '' is not JSON serializable'')"
  by pat_completeness auto
termination
proof (relation "measure (\<lambda>(L, sk, v). size v)", goal_cases)
  case (4 L sk d x k v)
  then have "(k, v) \<in> set d" by (simp split: if_splits)
  from size_list_estimation' [OF this, of "size v" "size_prod (\<lambda>_. 0) size"]
  have "size v \<le> size_list (size_prod (\<lambda>_. 0) size) d" by simp
  then show ?case by simp
qed (auto dest: size_list_estimation' [where f = size, OF _ order_refl] simp: less_Suc_eq_le)

text \<open>\<open>normalize_json\<close>: mappings become dictionaries with sorted keys, sequences lists.\<close>

function normalize_json :: "string \<Rightarrow> pyval \<Rightarrow> pyval result" where
  "normalize_json path VNone = Inr VNone"
| "normalize_json path (VBool b) = Inr (VBool b)"
| "normalize_json path (VInt i) = Inr (VInt i)"
| "normalize_json path (VStr s) = Inr (VStr s)"
| "normalize_json path (VFloat f) =
     ensure (is_finite f) CanonicalizationError (path @ '': NaN and Infinity are not allowed'')
       (Inr (VFloat f))"
| "normalize_json path (VDict d) =
     rbind (rmap (\<lambda>(k, v). rbind (normalize_json (path @ ''.'' @ k) v) (\<lambda>u. Inr (k, u)))
              (sort_key fst d))
       (\<lambda>e. Inr (VDict e))"
| "normalize_json path (VProxy d) =
     rbind (rmap (\<lambda>(k, v). rbind (normalize_json (path @ ''.'' @ k) v) (\<lambda>u. Inr (k, u)))
              (sort_key fst d))
       (\<lambda>e. Inr (VDict e))"
| "normalize_json path (VList xs) =
     rbind (rmap (\<lambda>(i, x). normalize_json (path @ ''['' @ nat_str i @ '']'') x) (enumerate 0 xs))
       (\<lambda>ys. Inr (VList ys))"
| "normalize_json path (VTuple xs) =
     rbind (rmap (\<lambda>(i, x). normalize_json (path @ ''['' @ nat_str i @ '']'') x) (enumerate 0 xs))
       (\<lambda>ys. Inr (VList ys))"
| "normalize_json path (VOther t) =
     raise CanonicalizationError (path @ '': unsupported value type '' @ t @ ''; use JSON values'')"
  by pat_completeness auto
termination
proof (relation "measure (\<lambda>(p, v). size v)", goal_cases)
  case (2 path d x k v)
  then have "(k, v) \<in> set d" by simp
  from size_list_estimation' [OF this, of "size v" "size_prod (\<lambda>_. 0) size"]
  show ?case by simp
next
  case (3 path d x k v)
  then have "(k, v) \<in> set d" by simp
  from size_list_estimation' [OF this, of "size v" "size_prod (\<lambda>_. 0) size"]
  show ?case by simp
next
  case (4 path xs x i y)
  then have "y \<in> set xs" by (auto simp: in_set_enumerate_eq)
  from size_list_estimation' [OF this, of "size y" size] show ?case by simp
next
  case (5 path xs x i y)
  then have "y \<in> set xs" by (auto simp: in_set_enumerate_eq)
  from size_list_estimation' [OF this, of "size y" size] show ?case by simp
qed auto

definition canonical_json :: "stdlib \<Rightarrow> pyval \<Rightarrow> string result" where
  "canonical_json L v = rbind (normalize_json ''$'' v) (\<lambda>u. json_dumps L True u)"

definition canonical_sha256 :: "stdlib \<Rightarrow> pyval \<Rightarrow> string result" where
  "canonical_sha256 L v = rbind (canonical_json L v) (\<lambda>t. Inr (sha256_hex L t))"


text \<open>\<open>core/records.py\<close>: the digest that binds a command receipt to its request.\<close>

definition fingerprint :: "stdlib \<Rightarrow> pyval \<Rightarrow> string result" where
  "fingerprint L v =
     (case json_dumps L True v of
        Inl e \<Rightarrow> raise ValidationError ''command must be canonical JSON''
      | Inr raw \<Rightarrow>
          ensure (int (utf8_len raw) \<le> 1000000) ValidationError ''command is too large''
            (Inr (sha256_hex L raw)))"

definition sanitize_result :: "stdlib \<Rightarrow> int \<Rightarrow> pyval \<Rightarrow> pyval result" where
  "sanitize_result L max_bytes v =
     rbind (normalize_json ''$'' v) (\<lambda>u.
       rbind (json_dumps L False u) (\<lambda>t.
         ensure (int (utf8_len t) \<le> max_bytes) ValidationError
           (''tool result is '' @ nat_str (utf8_len t) @ '' bytes; maximum is '' @ int_str max_bytes)
           (Inr u)))"

definition default_max_result_bytes :: int where
  "default_max_result_bytes = 256 * 1024"

definition secret_keys :: "string set" where
  "secret_keys = {''authorization'', ''cookie'', ''password'', ''private_key'', ''secret'',
     ''set-cookie'', ''token''}"

function redact :: "pyval \<Rightarrow> pyval" where
  "redact (VDict d) =
     VDict (map (\<lambda>(k, v). (k, if lower k \<in> secret_keys then VStr ''[REDACTED]'' else redact v)) d)"
| "redact (VProxy d) =
     VDict (map (\<lambda>(k, v). (k, if lower k \<in> secret_keys then VStr ''[REDACTED]'' else redact v)) d)"
| "redact (VList xs) = VList (map redact xs)"
| "redact (VTuple xs) = VList (map redact xs)"
| "redact VNone = VNone"
| "redact (VBool b) = VBool b"
| "redact (VInt i) = VInt i"
| "redact (VFloat f) = VFloat f"
| "redact (VStr s) = VStr s"
| "redact (VOther t) = VOther t"
  by pat_completeness auto
termination
proof (relation "measure size", goal_cases)
  case (2 d x k v)
  then have "(k, v) \<in> set d" by simp
  from size_list_estimation' [OF this, of "size v" "size_prod (\<lambda>_. 0) size"]
  show ?case by simp
next
  case (3 d x k v)
  then have "(k, v) \<in> set d" by simp
  from size_list_estimation' [OF this, of "size v" "size_prod (\<lambda>_. 0) size"]
  show ?case by simp
qed (auto dest: size_list_estimation' [where f = size, OF _ order_refl])

end
