(* ===== verification/PA_Canonical.thy ===== *)
theory PA_Canonical
  imports PA_Values
begin

text \<open>
  The canonical JSON text of a value determines the value up to the order of keys and the
  list/tuple distinction. This is what makes the fingerprint of an approval binding exact: two
  envelopes with the same canonical text are the same envelope.
\<close>

section \<open>The canonical text determines the value\<close>

text \<open>
  What \<open>normalize_json\<close> returns: no tuple, no read-only mapping, no value of another type, no
  infinite float, and every dictionary with strictly increasing keys.
\<close>

fun normal :: "pyval \<Rightarrow> bool" where
  "normal (VFloat f) = is_finite f"
| "normal (VList xs) = list_all normal xs"
| "normal (VDict d) = (sorted (map fst d) \<and> distinct (map fst d) \<and> list_all (\<lambda>(k, v). normal v) d)"
| "normal (VTuple xs) = False"
| "normal (VProxy d) = False"
| "normal (VOther t) = False"
| "normal _ = True"

text \<open>The mappings of a value have no duplicate key, as Python guarantees.\<close>

fun wf_val :: "pyval \<Rightarrow> bool" where
  "wf_val (VList xs) = list_all wf_val xs"
| "wf_val (VTuple xs) = list_all wf_val xs"
| "wf_val (VDict d) = (wf_dict d \<and> list_all (\<lambda>(k, v). wf_val v) d)"
| "wf_val (VProxy d) = (wf_dict d \<and> list_all (\<lambda>(k, v). wf_val v) d)"
| "wf_val _ = True"

text \<open>The text as a total function; it is \<open>json_dumps\<close> on normal values.\<close>

fun json_text :: "stdlib \<Rightarrow> pyval \<Rightarrow> string" where
  "json_text L VNone = ''null''"
| "json_text L (VBool b) = (if b then ''true'' else ''false'')"
| "json_text L (VInt i) = int_str i"
| "json_text L (VFloat f) = float_repr L f"
| "json_text L (VStr s) = json_string s"
| "json_text L (VList xs) = ''['' @ join '','' (map (json_text L) xs) @ '']''"
| "json_text L (VDict d) =
     ''{'' @ join '','' (map (\<lambda>(k, v). json_string k @ '':'' @ json_text L v) d) @ ''}''"
| "json_text L _ = []"

text \<open>
  Documented behaviour of \<open>repr\<close> on finite floats, which \<open>json\<close> prints: distinct floats print
  differently, the text uses only the characters of a number, and it is told from an integer by
  a point or an exponent.
\<close>

definition num_char :: "char \<Rightarrow> bool" where
  "num_char c = (is_digit c \<or> c \<in> set ''+-.e'')"

definition float_repr_ok :: "stdlib \<Rightarrow> bool" where
  "float_repr_ok L =
     ((\<forall>f g. is_finite f \<longrightarrow> is_finite g \<longrightarrow> float_repr L f = float_repr L g \<longrightarrow> f = g) \<and>
      (\<forall>f. is_finite f \<longrightarrow> list_all num_char (float_repr L f) \<and>
           (\<exists>c\<in>set (float_repr L f). c = CHR ''.'' \<or> c = CHR ''e'')))"


lemma rmap_ok: "\<forall>x\<in>set xs. f x = Inr (g x) \<Longrightarrow> rmap f xs = Inr (map g xs)"
  by (induction xs) auto

lemma json_dumps_normal: "normal v \<Longrightarrow> json_dumps L sk v = Inr (json_text L v)"
proof (induction v)
  case (VList xs)
  then have "rmap (json_dumps L sk) xs = Inr (map (json_text L) xs)"
    by (intro rmap_ok) (auto simp: list_all_iff)
  then show ?case by simp
next
  case (VDict d)
  then have "rmap (\<lambda>(k, v). rbind (json_dumps L sk v) (\<lambda>t. Inr (json_string k @ '':'' @ t))) d =
      Inr (map (\<lambda>(k, v). json_string k @ '':'' @ json_text L v) d)"
    by (intro rmap_ok) (fastforce simp: list_all_iff)
  with VDict.prems show ?case by (cases sk) (simp_all add: sort_key_id_if_sorted)
qed auto

lemma rmap_fst:
  assumes "rmap (\<lambda>(k, v). rbind (f k v) (\<lambda>u. Inr (k, u))) d = Inr e"
  shows "map fst e = map fst d" "list_all2 (\<lambda>(k, v) (k', u). k' = k \<and> f k v = Inr u) d e"
proof -
  from assms show *: "list_all2 (\<lambda>(k, v) (k', u). k' = k \<and> f k v = Inr u) d e"
    by (simp add: rmap_eq_Inr) (erule list_all2_mono, auto simp: rbind_eq_Inr)
  then show "map fst e = map fst d"
    by (induction rule: list_all2_induct) auto
qed

lemma normalize_sorted_dict:
  assumes IH: "\<And>k v u. (k, v) \<in> set d \<Longrightarrow> normalize_json (path @ ''.'' @ k) v = Inr u \<Longrightarrow> normal u"
    and wf: "wf_dict d"
    and eq: "rmap (\<lambda>(k, v). rbind (normalize_json (path @ ''.'' @ k) v) (\<lambda>u. Inr (k, u)))
        (sort_key fst d) = Inr e"
  shows "normal (VDict e)"
proof -
  note keys = rmap_fst(1) [OF eq] and vals = rmap_fst(2) [OF eq]
  have "\<forall>(k, u)\<in>set e. normal u"
  proof clarify
    fix k u assume "(k, u) \<in> set e"
    from list_all2_in [OF vals this] obtain v where "(k, v) \<in> set d"
        "normalize_json (path @ ''.'' @ k) v = Inr u"
      by auto
    then show "normal u" by (rule IH)
  qed
  moreover have "distinct (map fst (sort_key fst d))"
    using wf by (simp add: wf_dict_def distinct_map)
  ultimately show ?thesis
    by (simp add: keys list_all_iff)
qed

lemma normalize_seq_normal:
  assumes IH: "\<And>i x u. (i, x) \<in> set (enumerate 0 xs) \<Longrightarrow>
      normalize_json (path @ ''['' @ nat_str i @ '']'') x = Inr u \<Longrightarrow> normal u"
    and eq: "rmap (\<lambda>(i, x). normalize_json (path @ ''['' @ nat_str i @ '']'') x) (enumerate 0 xs) = Inr ys"
  shows "list_all normal ys"
  using rmap_in [OF eq] IH by (fastforce simp: list_all_iff)

lemma enumerate_wf: "\<forall>x\<in>set xs. P x \<Longrightarrow> (i, x) \<in> set (enumerate n xs) \<Longrightarrow> P x"
  by (metis in_set_enumerate_eq fst_conv snd_conv nth_mem less_diff_conv2 add.commute)

lemma normalize_json_normal: "wf_val v \<Longrightarrow> normalize_json path v = Inr u \<Longrightarrow> normal u"
proof (induction path v arbitrary: u rule: normalize_json.induct)
  case (6 path d)
  then obtain e where e: "u = VDict e"
    "rmap (\<lambda>(k, v). rbind (normalize_json (path @ ''.'' @ k) v) (\<lambda>u. Inr (k, u))) (sort_key fst d) = Inr e"
    by (auto simp: rbind_eq_Inr)
  have "normal (VDict e)"
    by (rule normalize_sorted_dict [OF _ _ e(2)])
       (use 6 in \<open>auto simp: list_all_iff\<close>)
  with e show ?case by simp
next
  case (7 path d)
  then obtain e where e: "u = VDict e"
    "rmap (\<lambda>(k, v). rbind (normalize_json (path @ ''.'' @ k) v) (\<lambda>u. Inr (k, u))) (sort_key fst d) = Inr e"
    by (auto simp: rbind_eq_Inr)
  have "normal (VDict e)"
    by (rule normalize_sorted_dict [OF _ _ e(2)])
       (use 7 in \<open>auto simp: list_all_iff\<close>)
  with e show ?case by simp
next
  case (8 path xs)
  then obtain ys where ys: "u = VList ys"
    "rmap (\<lambda>(i, x). normalize_json (path @ ''['' @ nat_str i @ '']'') x) (enumerate 0 xs) = Inr ys"
    by (auto simp: rbind_eq_Inr)
  have "list_all normal ys"
    by (rule normalize_seq_normal [OF _ ys(2)])
       (use 8 in \<open>auto simp: list_all_iff dest: enumerate_wf\<close>)
  with ys show ?case by simp
next
  case (9 path xs)
  then obtain ys where ys: "u = VList ys"
    "rmap (\<lambda>(i, x). normalize_json (path @ ''['' @ nat_str i @ '']'') x) (enumerate 0 xs) = Inr ys"
    by (auto simp: rbind_eq_Inr)
  have "list_all normal ys"
    by (rule normalize_seq_normal [OF _ ys(2)])
       (use 9 in \<open>auto simp: list_all_iff dest: enumerate_wf\<close>)
  with ys show ?case by simp
qed auto

text \<open>Normalising twice is normalising once.\<close>

lemma normalize_normal: "normal v \<Longrightarrow> normalize_json path v = Inr v"
proof (induction v arbitrary: path)
  case (VList xs)
  then have "rmap (\<lambda>(i, x). normalize_json (path @ ''['' @ nat_str i @ '']'') x) (enumerate 0 xs) =
      Inr (map snd (enumerate 0 xs))"
    by (intro rmap_ok) (auto simp: list_all_iff dest: enumerate_wf [of xs "\<lambda>x. x \<in> set xs", rotated])
  then show ?case by simp
next
  case (VDict d)
  then have "rmap (\<lambda>(k, v). rbind (normalize_json (path @ ''.'' @ k) v) (\<lambda>u. Inr (k, u))) d = Inr (map id d)"
    by (intro rmap_ok) (fastforce simp: list_all_iff)
  with VDict.prems show ?case by (simp add: sort_key_id_if_sorted)
qed auto

text \<open>Normalising a dictionary normalises each value under its own key.\<close>

lemma normalize_dict_lookup:
  assumes "normalize_json path (VDict d) = Inr u" "wf_dict d" "(k, v) \<in> set d"
  obtains e w where "u = VDict e" "map_of e k = Some w" "normalize_json (path @ ''.'' @ k) v = Inr w"
proof -
  from assms obtain e where e: "u = VDict e"
    "rmap (\<lambda>(k, v). rbind (normalize_json (path @ ''.'' @ k) v) (\<lambda>u. Inr (k, u))) (sort_key fst d) = Inr e"
    by (auto simp: rbind_eq_Inr)
  note keys = rmap_fst(1) [OF e(2)] and vals = rmap_fst(2) [OF e(2)]
  have dist: "distinct (map fst e)"
    using assms(2) by (simp add: keys wf_dict_def distinct_map)
  from assms(3) have "(k, v) \<in> set (sort_key fst d)" by simp
  then obtain i where i: "i < length d" "sort_key fst d ! i = (k, v)"
    by (metis in_set_conv_nth length_sort)
  with list_all2_nthD [OF vals, of i] obtain w where
    w: "e ! i = (k, w)" "normalize_json (path @ ''.'' @ k) v = Inr w"
    by (cases "e ! i") auto
  have "i < length e" using i keys by (metis length_map length_sort)
  with w have "(k, w) \<in> set e" by (metis nth_mem)
  with dist have "map_of e k = Some w" by simp
  with e(1) w(2) that show thesis by blast
qed

subsection \<open>Strings are self-delimiting\<close>

text \<open>Reading one possibly escaped character back.\<close>

definition hex_val :: "char \<Rightarrow> nat" where
  "hex_val h = (let n = (of_char h :: nat) in if n < 58 then n - 48 else n - 87)"

definition short_escape :: "char \<Rightarrow> nat" where
  "short_escape q =
     (if q = CHR ''n'' then 10 else if q = CHR ''r'' then 13 else if q = CHR ''t'' then 9
      else if q = CHR ''f'' then 12 else if q = CHR ''b'' then 8 else of_char q)"

definition unescape :: "string \<Rightarrow> nat \<times> string" where
  "unescape s =
     (if hd s = CHR 0x5C then
        if hd (tl s) = CHR ''u'' then (16 * hex_val (s ! 4) + hex_val (s ! 5), drop 6 s)
        else (short_escape (hd (tl s)), drop 2 s)
      else (of_char (hd s), tl s))"

lemma hex_val_hex_digit: "n < 16 \<Longrightarrow> hex_val (hex_digit n) = n"
proof -
  assume "n < 16"
  then have "n \<in> set [0..<16]" by simp
  then show ?thesis by (auto simp: upt_rec hex_val_def hex_digit_def hex_chars_def)
qed

lemma unescape_escape: "unescape (json_escape_char c @ x) = (of_char c, x)"
proof (cases "(of_char c :: nat) \<in> {34, 92, 10, 13, 9, 12, 8}")
  case True
  then show ?thesis
    by (elim insertE emptyE) (simp_all add: json_escape_char_def unescape_def short_escape_def)
next
  case False
  then have "c \<noteq> CHR 0x5C" by auto
  with False show ?thesis
    by (cases "(of_char c :: nat) < 32")
       (simp_all add: json_escape_char_def unescape_def Let_def hex_val_hex_digit)
qed

lemma escape_char_prefix:
  assumes eq: "json_escape_char c @ x = json_escape_char d @ y"
  shows "c = d \<and> x = y"
proof -
  have "((of_char c :: nat), x) = (of_char d, y)"
    by (metis unescape_escape eq)
  then show ?thesis by (simp only: of_char_eq_iff prod.inject)
qed

lemma escape_char_not_quote: "json_escape_char c @ x \<noteq> CHR 0x22 # y"
proof
  assume "json_escape_char c @ x = CHR 0x22 # y"
  then have "hd (json_escape_char c @ x) = CHR 0x22" by (simp only: list.sel)
  then show False
    by (cases "c = CHR 0x22") (simp_all add: json_escape_char_def Let_def split: if_splits)
qed

lemma escape_body_prefix:
  "concat (map json_escape_char s) @ CHR 0x22 # x = concat (map json_escape_char t) @ CHR 0x22 # y \<Longrightarrow>
     s = t \<and> x = y"
proof (induction s arbitrary: t)
  case Nil
  show ?case
  proof (cases t)
    case (Cons d t')
    with Nil have "json_escape_char d @ (concat (map json_escape_char t') @ CHR 0x22 # y) = CHR 0x22 # x"
      by simp
    with escape_char_not_quote show ?thesis by blast
  qed (use Nil in simp)
next
  case (Cons c s)
  show ?case
  proof (cases t)
    case Nil
    with Cons.prems show ?thesis by (simp add: escape_char_not_quote)
  next
    case (Cons d t')
    with Cons.prems have "json_escape_char c @ (concat (map json_escape_char s) @ CHR 0x22 # x) =
        json_escape_char d @ (concat (map json_escape_char t') @ CHR 0x22 # y)"
      by simp
    from escape_char_prefix [OF this] Cons.IH [of t'] Cons show ?thesis by simp
  qed
qed

lemma json_string_prefix: "json_string s @ x = json_string t @ y \<Longrightarrow> s = t \<and> x = y"
  by (rule escape_body_prefix) (simp add: json_string_def)

subsection \<open>Values followed by a delimiter\<close>

text \<open>What follows a value inside a JSON text: nothing, a comma or a closing bracket.\<close>

definition delimited :: "string \<Rightarrow> bool" where
  "delimited s = (s = [] \<or> hd s \<in> {CHR '','', CHR '']'', CHR ''}''})"

lemma delimited_simps [simp]:
  "delimited []" "delimited (CHR '','' # s)" "delimited (CHR '']'' # s)" "delimited (CHR ''}'' # s)"
  by (simp_all add: delimited_def)

lemma number_prefix:
  assumes "list_all num_char a" "list_all num_char b" "delimited s" "delimited t" "a @ s = b @ t"
  shows "a = b \<and> s = t"
proof -
  have none: "takeWhile num_char r = []" if "delimited r" for r
    using that by (cases r) (auto simp: delimited_def num_char_def is_digit_def)
  have "takeWhile num_char (a @ s) = a" "takeWhile num_char (b @ t) = b"
    using assms(1-4) none by (simp_all add: takeWhile_append2 list_all_iff)
  with assms(5) show ?thesis by simp
qed

lemma int_str_num: "list_all num_char (int_str i)"
  using int_str_chars by (auto simp: list_all_iff num_char_def)

lemma num_char_first:
  assumes "list_all num_char a" "a \<noteq> []"
  shows "hd a \<notin> set ''ntf[{'' \<union> {CHR 0x22, CHR '']'', CHR ''}'', CHR '',''}"
  using assms by (cases a) (auto simp: num_char_def is_digit_def)

lemma float_repr_facts:
  assumes "float_repr_ok L" "is_finite f"
  shows "list_all num_char (float_repr L f)" "float_repr L f \<noteq> []" "float_repr L f \<noteq> int_str i"
    "is_finite g \<Longrightarrow> float_repr L f = float_repr L g \<Longrightarrow> f = g"
proof -
  from assms obtain c where c: "c \<in> set (float_repr L f)" "c = CHR ''.'' \<or> c = CHR ''e''"
    and all: "list_all num_char (float_repr L f)"
    by (auto simp: float_repr_ok_def)
  show "list_all num_char (float_repr L f)" by (rule all)
  show "float_repr L f \<noteq> []" using c by auto
  show "float_repr L f \<noteq> int_str i"
    using c int_str_chars [of c i] by (auto simp: is_digit_def)
  show "is_finite g \<Longrightarrow> float_repr L f = float_repr L g \<Longrightarrow> f = g"
    using assms by (auto simp: float_repr_ok_def)
qed


lemma json_text_first:
  assumes ok: "float_repr_ok L" and "normal v"
  shows "json_text L v \<noteq> []" "hd (json_text L v) \<notin> {CHR '']'', CHR ''}'', CHR '',''}"
proof -
  have int: "hd (int_str i) \<notin> {CHR '']'', CHR ''}'', CHR '',''}" for i
    using num_char_first [OF int_str_num int_str_nonempty] by auto
  show "json_text L v \<noteq> []"
    using assms(2) float_repr_facts(2) [OF ok] by (cases v) (auto simp: json_string_def)
  show "hd (json_text L v) \<notin> {CHR '']'', CHR ''}'', CHR '',''}"
    using assms(2) int num_char_first [OF float_repr_facts(1,2) [OF ok]]
    by (cases v) (auto simp: json_string_def)
qed

text \<open>
  The kind of a normal value can be read off the first character of its text.
\<close>

fun value_kind :: "pyval \<Rightarrow> nat" where
  "value_kind VNone = 0"
| "value_kind (VBool b) = (if b then 1 else 2)"
| "value_kind (VInt _) = 3"
| "value_kind (VFloat _) = 3"
| "value_kind (VStr _) = 4"
| "value_kind (VList _) = 5"
| "value_kind (VDict _) = 6"
| "value_kind _ = 7"

definition kind_of_char :: "char \<Rightarrow> nat" where
  "kind_of_char c =
     (if c = CHR ''n'' then 0 else if c = CHR ''t'' then 1 else if c = CHR ''f'' then 2
      else if c = CHR 0x22 then 4 else if c = CHR ''['' then 5 else if c = CHR ''{'' then 6 else 3)"

lemma kind_of_text:
  assumes ok: "float_repr_ok L" and "normal v"
  shows "kind_of_char (hd (json_text L v)) = value_kind v"
proof -
  have num: "kind_of_char (hd a) = 3" if "list_all num_char a" "a \<noteq> []" for a
    using num_char_first [OF that] by (auto simp: kind_of_char_def)
  show ?thesis
    using assms(2) num [OF int_str_num int_str_nonempty] num [OF float_repr_facts(1,2) [OF ok]]
    by (cases v) (auto simp: kind_of_char_def json_string_def)
qed

lemma same_kind:
  assumes "float_repr_ok L" "normal v" "normal w" "json_text L v @ s = json_text L w @ t"
  shows "value_kind v = value_kind w"
proof -
  from assms(4) have "hd (json_text L v @ s) = hd (json_text L w @ t)" by (simp only:)
  then have "hd (json_text L v) = hd (json_text L w)"
    using json_text_first(1) [OF assms(1,2)] json_text_first(1) [OF assms(1,3)] by simp
  then show ?thesis
    using kind_of_text [OF assms(1,2)] kind_of_text [OF assms(1,3)] by simp
qed

lemma number_text:
  assumes ok: "float_repr_ok L" and "normal v" "value_kind v = 3"
  shows "list_all num_char (json_text L v)"
  using assms(2,3) float_repr_facts(1) [OF ok] int_str_num by (cases v) (auto split: if_splits)

lemma number_inject:
  assumes ok: "float_repr_ok L" and v: "normal v" "value_kind v = 3" and w: "normal w" "value_kind w = 3"
    and eq: "json_text L v = json_text L w"
  shows "v = w"
proof (cases v)
  case (VInt i)
  with w eq float_repr_facts(3) [OF ok, of _ i, THEN not_sym] show ?thesis
    by (cases w) (auto split: if_splits)
next
  case (VFloat f)
  with v have f: "is_finite f" by simp
  show ?thesis
  proof (cases w)
    case (VFloat g)
    with \<open>v = VFloat f\<close> w eq float_repr_facts(4) [OF ok f, of g] show ?thesis by simp
  next
    case (VInt i)
    with \<open>v = VFloat f\<close> eq float_repr_facts(3) [OF ok f, of i] show ?thesis by simp
  qed (use w in \<open>auto split: if_splits\<close>)
qed (use v in \<open>auto split: if_splits\<close>)

lemma number_value_prefix:
  assumes "float_repr_ok L" "normal v" "value_kind v = 3" "normal w" "delimited s" "delimited t"
    and eq: "json_text L v @ s = json_text L w @ t"
  shows "v = w \<and> s = t"
proof -
  from assms have w: "value_kind w = 3" using same_kind by metis
  from number_prefix [OF number_text [OF assms(1-3)] number_text [OF assms(1,4) w] assms(5,6) eq]
  have "json_text L v = json_text L w" "s = t" by auto
  with number_inject [OF assms(1-4) w] show ?thesis by simp
qed

lemma join_cons: "join sep (x # xs) = x @ (if xs = [] then [] else sep @ join sep xs)"
  by (cases xs) simp_all

text \<open>
  A comma-separated sequence of items ended by a closing bracket, where each item is determined
  by its text followed by a delimiter.
\<close>

lemma items_prefix:
  assumes item: "\<And>x y s t. x \<in> set xs \<Longrightarrow> y \<in> set ys \<Longrightarrow> delimited s \<Longrightarrow> delimited t \<Longrightarrow>
      f x @ s = f y @ t \<Longrightarrow> x = y \<and> s = t"
    and first: "\<And>x. x \<in> set xs \<union> set ys \<Longrightarrow> f x \<noteq> [] \<and> hd (f x) \<noteq> e"
    and e: "e \<in> {CHR '']'', CHR ''}''}"
    and eq: "join '','' (map f xs) @ e # s = join '','' (map f ys) @ e # t"
  shows "xs = ys \<and> s = t"
  using item first eq
proof (induction xs arbitrary: ys)
  case Nil
  show ?case
  proof (cases ys)
    case (Cons y ys')
    with Nil.prems Nil.prems(2) [of y] show ?thesis by (cases "f y") (auto simp: join_cons)
  qed (use Nil in simp)
next
  case (Cons x xs)
  show ?case
  proof (cases ys)
    case Nil
    with Cons.prems Cons.prems(2) [of x] show ?thesis by (cases "f x") (auto simp: join_cons)
  next
    case ys: (Cons y ys')
    let ?rest = "\<lambda>zs r. (if zs = [] then [] else '','' @ join '','' (map f zs)) @ e # r"
    have d: "delimited (?rest zs r)" for zs r
      using e by (auto simp: delimited_def)
    from Cons.prems(3) ys have "f x @ ?rest xs s = f y @ ?rest ys' t"
      by (simp add: join_cons)
    from Cons.prems(1) [OF _ _ d d this] ys have xy: "x = y" and r: "?rest xs s = ?rest ys' t"
      by auto
    show ?thesis
    proof (cases "xs = []"; cases "ys' = []")
      assume "xs \<noteq> []" "ys' \<noteq> []"
      with r have "join '','' (map f xs) @ e # s = join '','' (map f ys') @ e # t" by simp
      with Cons.IH [of ys'] Cons.prems(1,2) ys have "xs = ys' \<and> s = t" by auto
      with xy ys show ?thesis by simp
    qed (use r e xy ys in auto)
  qed
qed


lemma dict_item_prefix:
  assumes "\<And>s t. delimited s \<Longrightarrow> delimited t \<Longrightarrow> json_text L v @ s = json_text L w @ t \<Longrightarrow> v = w \<and> s = t"
    and "delimited s" "delimited t"
    and "(json_string k @ '':'' @ json_text L v) @ s = (json_string j @ '':'' @ json_text L w) @ t"
  shows "(k, v) = (j, w) \<and> s = t"
proof -
  from assms(4) have "json_string k @ ('':'' @ json_text L v @ s) = json_string j @ ('':'' @ json_text L w @ t)"
    by simp
  from json_string_prefix [OF this] have "k = j" "json_text L v @ s = json_text L w @ t" by auto
  with assms(1-3) show ?thesis by simp
qed

lemma json_text_prefix:
  assumes ok: "float_repr_ok L"
  shows "normal v \<Longrightarrow> normal w \<Longrightarrow> delimited s \<Longrightarrow> delimited t \<Longrightarrow>
     json_text L v @ s = json_text L w @ t \<Longrightarrow> v = w \<and> s = t"
proof (induction v arbitrary: w s t)
  case (VInt i)
  then show ?case by (intro number_value_prefix [OF ok]) auto
next
  case (VFloat f)
  then show ?case by (intro number_value_prefix [OF ok]) auto
next
  case (VStr x)
  from same_kind [OF ok VStr.prems(1,2,5)] obtain y where w: "w = VStr y"
    by (cases w) (auto split: if_splits)
  with VStr.prems(5) have "json_string x @ s = json_string y @ t" by (simp only: json_text.simps)
  from json_string_prefix [OF this] w show ?case by (simp only: simp_thms)
next
  case (VList xs)
  from same_kind [OF ok VList.prems(1,2,5)] obtain ys where w: "w = VList ys"
    by (cases w) (auto split: if_splits)
  have "xs = ys \<and> s = t"
  proof (rule items_prefix [where f = "json_text L" and e = "CHR '']''"])
    fix x y s t
    assume "x \<in> set xs" "y \<in> set ys" "delimited s" "delimited t" "json_text L x @ s = json_text L y @ t"
    with VList w show "x = y \<and> s = t" by (auto simp: list_all_iff)
  next
    fix x assume "x \<in> set xs \<union> set ys"
    with VList.prems w json_text_first [OF ok, of x] show "json_text L x \<noteq> [] \<and> hd (json_text L x) \<noteq> CHR '']''"
      by (auto simp: list_all_iff)
  qed (use VList.prems w in auto)
  with w show ?case by simp
next
  case (VDict d)
  let ?f = "\<lambda>(k, v). json_string k @ '':'' @ json_text L v"
  from same_kind [OF ok VDict.prems(1,2,5)] obtain e where w: "w = VDict e"
    by (cases w) (auto split: if_splits)
  have "d = e \<and> s = t"
  proof (rule items_prefix [where f = ?f and e = "CHR ''}''"])
    fix x y s t
    assume *: "x \<in> set d" "y \<in> set e" "delimited s" "delimited t" "?f x @ s = ?f y @ t"
    obtain k v j u where xy: "x = (k, v)" "y = (j, u)" by fastforce
    from VDict.prems(1,2) w * xy have n: "normal v" "normal u" by (auto simp: list_all_iff)
    from * xy have IH: "(k, v) \<in> set d" "v \<in> Basic_BNFs.snds (k, v)" by auto
    have "\<And>s t. delimited s \<Longrightarrow> delimited t \<Longrightarrow> json_text L v @ s = json_text L u @ t \<Longrightarrow> v = u \<and> s = t"
      by (rule VDict.IH [OF IH n])
    moreover from *(5) xy have "(json_string k @ '':'' @ json_text L v) @ s = (json_string j @ '':'' @ json_text L u) @ t"
      by (simp only: prod.case)
    ultimately have "(k, v) = (j, u) \<and> s = t" by (rule dict_item_prefix [OF _ *(3,4)])
    with xy show "x = y \<and> s = t" by (simp only:)
  qed (use VDict.prems w in \<open>auto simp: json_string_def\<close>)
  with w show ?case by simp
next
  case VNone
  from same_kind [OF ok VNone.prems(1,2,5)] VNone.prems(5) show ?case
    by (cases w) (auto split: if_splits)
next
  case (VBool b)
  from same_kind [OF ok VBool.prems(1,2,5)] VBool.prems(5) show ?case
    by (cases w) (auto split: if_splits)
qed auto

lemma json_text_inject:
  assumes "float_repr_ok L" "normal v" "normal w" "json_text L v = json_text L w"
  shows "v = w"
  using json_text_prefix [OF assms(1-3), of "[]" "[]"] assms(4) by simp

lemma canonical_json_determines:
  assumes "float_repr_ok L" "wf_val v" "wf_val w" "canonical_json L v = Inr t" "canonical_json L w = Inr t"
  shows "normalize_json ''$'' v = normalize_json ''$'' w"
proof -
  from assms obtain a b where ab: "normalize_json ''$'' v = Inr a" "normalize_json ''$'' w = Inr b"
    "json_dumps L True a = Inr t" "json_dumps L True b = Inr t"
    by (auto simp: canonical_json_def rbind_eq_Inr)
  with assms have n: "normal a" "normal b" by (auto dest: normalize_json_normal)
  with ab have "json_text L a = json_text L b" by (simp add: json_dumps_normal)
  with n assms(1) ab show ?thesis by (auto dest: json_text_inject)
qed

text \<open>The canonical text and the fingerprint of a value and of its normal form agree.\<close>

lemma canonical_normalized:
  assumes "wf_val v" "normalize_json ''$'' v = Inr u"
  shows "canonical_json L u = canonical_json L v" "canonical_sha256 L u = canonical_sha256 L v"
  using normalize_normal [OF normalize_json_normal [OF assms], of "''$''"] assms(2)
  by (simp_all add: canonical_json_def canonical_sha256_def)

text \<open>Two dictionaries with increasing keys and the same content are the same list.\<close>

lemma sorted_dict_unique:
  fixes d e :: "(string \<times> pyval) list"
  assumes "sorted (map fst d)" "distinct (map fst d)" "sorted (map fst e)" "distinct (map fst e)" "map_of d = map_of e"
  shows "d = e"
proof -
  have "fst ` set d = fst ` set e"
    using assms(5) by (simp flip: dom_map_of_conv_image_fst)
  then have keys: "map fst d = map fst e"
    using assms(1-4) by (intro sorted_distinct_set_unique) simp_all
  have rebuild: "c = map (\<lambda>k. (k, the (map_of c k))) (map fst c)" if "distinct (map fst c)" for c :: "(string \<times> pyval) list"
    using that by (auto simp: o_def intro!: map_idI [symmetric])
  from rebuild [OF assms(2)] rebuild [OF assms(4)] keys assms(5) show ?thesis by simp
qed

text \<open>
  Documented behaviour of \<open>json.loads\<close>: it reads back what \<open>json.dumps\<close> wrote for a value made of
  dictionaries with string keys, lists, strings, numbers, booleans and None.
\<close>

definition json_loads_ok :: "stdlib \<Rightarrow> bool" where
  "json_loads_ok L \<longleftrightarrow> (\<forall>v. normal v \<longrightarrow> json_loads L (json_text L v) = Inr v)"

lemma json_loads_canonical:
  assumes "json_loads_ok L" "wf_val v" "canonical_json L v = Inr t"
  shows "json_loads L t = normalize_json ''$'' v"
proof -
  from assms(3) obtain u where u: "normalize_json ''$'' v = Inr u" "json_dumps L True u = Inr t"
    by (auto simp: canonical_json_def rbind_eq_Inr)
  from normalize_json_normal [OF assms(2) u(1)] have "normal u" .
  moreover from this u(2) have "t = json_text L u" by (simp add: json_dumps_normal)
  ultimately show ?thesis using assms(1) u(1) by (simp add: json_loads_ok_def)
qed

section \<open>Values that always have a canonical text\<close>

fun plain :: "pyval \<Rightarrow> bool" where
  "plain (VList xs) = list_all plain xs"
| "plain (VDict d) = list_all (\<lambda>(k, v). plain v) d"
| "plain VNone = True"
| "plain (VBool _) = True"
| "plain (VInt _) = True"
| "plain (VStr _) = True"
| "plain _ = False"

lemma rmap_total: "(\<And>x. x \<in> set xs \<Longrightarrow> \<exists>y. f x = Inr y) \<Longrightarrow> \<exists>ys. rmap f xs = Inr ys"
proof (induction xs)
  case (Cons x xs)
  then obtain y ys where "f x = Inr y" "rmap f xs = Inr ys" by (metis list.set_intros(1,2))
  then show ?case by simp
qed simp

lemma plain_normalizes: "plain v \<Longrightarrow> \<exists>u. normalize_json path v = Inr u"
proof (induction v arbitrary: path)
  case (VList xs)
  have "\<exists>ys. rmap (\<lambda>(i, x). normalize_json (path @ ''['' @ nat_str i @ '']'') x) (enumerate 0 xs) = Inr ys"
  proof (rule rmap_total)
    fix p assume p: "p \<in> set (enumerate 0 xs)"
    obtain i x where ix: "p = (i, x)" by fastforce
    with p have "x \<in> set xs" by (auto simp: in_set_enumerate_eq)
    with VList ix show "\<exists>y. (case p of (i, x) \<Rightarrow> normalize_json (path @ ''['' @ nat_str i @ '']'') x) = Inr y"
      by (simp add: list_all_iff)
  qed
  then show ?case by auto
next
  case (VDict d)
  have "\<exists>ys. rmap (\<lambda>(k, v). rbind (normalize_json (path @ ''.'' @ k) v) (\<lambda>u. Inr (k, u))) (sort_key fst d) = Inr ys"
  proof (rule rmap_total)
    fix p assume p: "p \<in> set (sort_key fst d)"
    obtain k v where kv: "p = (k, v)" by fastforce
    with p VDict.prems have "plain v" by (auto simp: list_all_iff)
    with p kv VDict.IH [of p v "path @ ''.'' @ k"]
    show "\<exists>y. (case p of (k, v) \<Rightarrow> rbind (normalize_json (path @ ''.'' @ k) v) (\<lambda>u. Inr (k, u))) = Inr y"
      by (auto simp: rbind_eq_Inr)
  qed
  then show ?case by auto
qed simp_all

lemma plain_digest: "plain v \<Longrightarrow> wf_val v \<Longrightarrow> \<exists>t. canonical_json L v = Inr t \<and> canonical_sha256 L v = Inr (sha256_hex L t)"
  using plain_normalizes [of v "''$''"] normalize_json_normal [of v "''$''"]
  by (auto simp: canonical_sha256_def canonical_json_def json_dumps_normal)

section \<open>A host library for the examples\<close>

text \<open>
  Concrete host functions with the documented behaviour that the theorems assume: a digest
  without collisions and a float text that is numerator, point, denominator.
\<close>

definition sample_float :: "pyfloat \<Rightarrow> string" where
  "sample_float f =
     (case f of
        FFin q \<Rightarrow> int_str (fst (quotient_of q)) @ ''.'' @ int_str (snd (quotient_of q))
      | _ \<Rightarrow> int_str 0 @ ''.'' @ int_str 0)"

definition sample_lib :: stdlib where
  "sample_lib = \<lparr>sha256_hex = (\<lambda>t. t), float_repr = sample_float, re_search = (\<lambda>_ _. False),
     format_g = (\<lambda>q. sample_float (FFin q)), json_loads = (\<lambda>_. raise ValueError ''not JSON''), py_str = type_name\<rparr>"

lemma sample_pair_inject:
  "int_str a @ ''.'' @ int_str b = int_str c @ ''.'' @ int_str d \<Longrightarrow> a = c \<and> b = d"
proof -
  assume eq: "int_str a @ ''.'' @ int_str b = int_str c @ ''.'' @ int_str d"
  have nodot: "CHR ''.'' \<notin> set (int_str i)" for i
    using int_str_chars [of "CHR ''.''" i] by (auto simp: is_digit_def)
  have tw: "takeWhile (\<lambda>x. x \<noteq> CHR ''.'') (int_str i @ ''.'' @ u) = int_str i" for i u
    using nodot [of i] by (auto simp: takeWhile_append)
  have "int_str a = int_str c" using arg_cong [OF eq, of "takeWhile (\<lambda>x. x \<noteq> CHR ''.'')"] by (simp only: tw)
  with eq show ?thesis by simp
qed

lemma sample_float_ok: "float_repr_ok sample_lib"
proof -
  have den: "snd (quotient_of q) \<noteq> 0" for q
    using quotient_of_denom_pos' [of q] by simp
  have inj: "f = g" if "is_finite f" "is_finite g" "sample_float f = sample_float g" for f g
  proof (cases f)
    case (FFin p)
    note fp = this
    show ?thesis
    proof (cases g)
      case (FFin q)
      with fp that have "int_str (fst (quotient_of p)) @ ''.'' @ int_str (snd (quotient_of p)) =
          int_str (fst (quotient_of q)) @ ''.'' @ int_str (snd (quotient_of q))"
        by (simp add: sample_float_def)
      from sample_pair_inject [OF this] have "quotient_of p = quotient_of q" by (simp add: prod_eq_iff)
      then have "p = q" by (rule quotient_of_inject)
      with fp FFin show ?thesis by simp
    next
      case FNegZero
      with fp that have "int_str (fst (quotient_of p)) @ ''.'' @ int_str (snd (quotient_of p)) = int_str 0 @ ''.'' @ int_str 0"
        by (simp add: sample_float_def)
      from sample_pair_inject [OF this] den [of p] show ?thesis by simp
    qed (use that in \<open>auto simp: is_finite_def\<close>)
  next
    case FNegZero
    note fp = this
    show ?thesis
    proof (cases g)
      case (FFin q)
      with fp that have "int_str 0 @ ''.'' @ int_str 0 = int_str (fst (quotient_of q)) @ ''.'' @ int_str (snd (quotient_of q))"
        by (simp add: sample_float_def)
      from sample_pair_inject [OF this] den [of q] show ?thesis by simp
    qed (use that fp in \<open>auto simp: is_finite_def\<close>)
  qed (use that in \<open>auto simp: is_finite_def\<close>)
  have chars: "list_all num_char (sample_float f)" for f
    using int_str_num by (cases f) (auto simp: sample_float_def num_char_def)
  have dot: "CHR ''.'' \<in> set (sample_float f)" for f
    by (cases f) (auto simp: sample_float_def)
  have "float_repr sample_lib = sample_float" by (simp add: sample_lib_def)
  then show ?thesis
    using inj chars dot unfolding float_repr_ok_def by metis
qed

text \<open>The same host with a parser that inverts the text.\<close>

definition loads_lib :: stdlib where
  "loads_lib = sample_lib\<lparr>json_loads := (\<lambda>t. if \<exists>v. normal v \<and> json_text sample_lib v = t
     then Inr (SOME v. normal v \<and> json_text sample_lib v = t) else raise ValueError ''not JSON'')\<rparr>"

lemma loads_lib_text: "json_text loads_lib v = json_text sample_lib v"
proof (induction v)
  case (VList xs)
  then have "map (json_text loads_lib) xs = map (json_text sample_lib) xs" by simp
  then show ?case by (simp only: json_text.simps)
next
  case (VDict d)
  then have "map (\<lambda>(k, v). json_string k @ '':'' @ json_text loads_lib v) d =
      map (\<lambda>(k, v). json_string k @ '':'' @ json_text sample_lib v) d"
    by (fastforce intro!: map_cong)
  then show ?case by (simp only: json_text.simps)
qed (simp_all add: loads_lib_def)

lemma loads_lib_ok: "json_loads_ok loads_lib" "float_repr_ok loads_lib"
proof -
  show "float_repr_ok loads_lib" using sample_float_ok by (simp add: float_repr_ok_def loads_lib_def)
  show "json_loads_ok loads_lib"
    unfolding json_loads_ok_def
  proof (intro allI impI)
    fix v assume v: "normal v"
    then have ex: "\<exists>u. normal u \<and> json_text sample_lib u = json_text sample_lib v" by blast
    have "(SOME u. normal u \<and> json_text sample_lib u = json_text sample_lib v) = v"
      using someI_ex [OF ex] json_text_inject [OF sample_float_ok _ v] by blast
    with ex show "json_loads loads_lib (json_text loads_lib v) = Inr v"
      by (simp add: loads_lib_text) (simp add: loads_lib_def)
  qed
qed

end
