(* ===== verification/PA_Schemas.thy ===== *)
theory PA_Schemas
  imports PA_Canonical
begin

text \<open>
  \<open>core/tools/schemas.py\<close>: the JSON Schema validator that guards tool arguments and results. A
  schema is a Python value like the value it validates; the recursion is on the schema. Each helper
  that calls the validator back takes it as its first argument. Exceptions of the language that a
  malformed schema provokes (a comparison with a string, an iteration over a number) are values too.
\<close>

section \<open>Python operations on values\<close>

definition as_map :: "pyval \<Rightarrow> (string \<times> pyval) list option" where
  "as_map v = (case v of VDict d \<Rightarrow> Some d | VProxy d \<Rightarrow> Some d | _ \<Rightarrow> None)"

definition as_seq :: "pyval \<Rightarrow> pyval list option" where
  "as_seq v = (case v of VList xs \<Rightarrow> Some xs | VTuple xs \<Rightarrow> Some xs | _ \<Rightarrow> None)"

text \<open>\<open>iter(v)\<close>: lists and tuples their items, mappings their keys, strings their characters.\<close>

definition py_iter :: "pyval \<Rightarrow> pyval list result" where
  "py_iter v =
     (case v of
        VList xs \<Rightarrow> Inr xs
      | VTuple xs \<Rightarrow> Inr xs
      | VDict d \<Rightarrow> Inr (map (VStr \<circ> fst) d)
      | VProxy d \<Rightarrow> Inr (map (VStr \<circ> fst) d)
      | VStr s \<Rightarrow> Inr (map (\<lambda>c. VStr [c]) s)
      | _ \<Rightarrow> raise TypeError (py_repr (type_name v) @ '' object is not iterable''))"

text \<open>The type name in \<open>TypeError: unhashable type\<close>, if the value cannot be hashed.\<close>

fun unhashable :: "pyval \<Rightarrow> string option" where
  "unhashable (VList _) = Some ''list''"
| "unhashable (VDict _) = Some ''dict''"
| "unhashable (VProxy _) = Some ''dict''"
| "unhashable (VTuple xs) = fold (\<lambda>x acc. case acc of None \<Rightarrow> unhashable x | Some t \<Rightarrow> Some t) xs None"
| "unhashable _ = None"

definition hashed :: "pyval \<Rightarrow> 'a result \<Rightarrow> 'a result" where
  "hashed v r = (case unhashable v of None \<Rightarrow> r | Some t \<Rightarrow> raise TypeError (''unhashable type: '' @ py_repr t))"

text \<open>\<open>key in mapping\<close>; the keys of a mapping are strings.\<close>

definition in_map :: "pyval \<Rightarrow> (string \<times> pyval) list \<Rightarrow> bool result" where
  "in_map v d = hashed v (Inr (case v of VStr s \<Rightarrow> dget d s \<noteq> None | _ \<Rightarrow> False))"

definition is_substring :: "string \<Rightarrow> string \<Rightarrow> bool" where
  "is_substring s t = list_ex (\<lambda>n. take (length s) (drop n t) = s) [0..<Suc (length t)]"

definition py_in :: "pyval \<Rightarrow> pyval \<Rightarrow> bool result" where
  "py_in v c =
     (case c of
        VList xs \<Rightarrow> Inr (list_ex (py_eq v) xs)
      | VTuple xs \<Rightarrow> Inr (list_ex (py_eq v) xs)
      | VDict d \<Rightarrow> in_map v d
      | VProxy d \<Rightarrow> in_map v d
      | VStr t \<Rightarrow> (case v of VStr s \<Rightarrow> Inr (is_substring s t)
                   | _ \<Rightarrow> raise TypeError (py_repr ''in <string>'' @ '' requires string as left operand, not '' @ type_name v))
      | _ \<Rightarrow> raise TypeError (''argument of type '' @ py_repr (type_name c) @ '' is not iterable''))"

text \<open>Ordering comparisons, of which one side here is always a number.\<close>

datatype py_order = LT | LE | GT | GE

fun order_text :: "py_order \<Rightarrow> string" where
  "order_text LT = ''<''"
| "order_text LE = ''<=''"
| "order_text GT = ''>''"
| "order_text GE = ''>=''"

fun xnum_order :: "py_order \<Rightarrow> xnum \<Rightarrow> xnum \<Rightarrow> bool" where
  "xnum_order LT a b = xnum_less a b"
| "xnum_order LE a b = (xnum_less a b \<or> xnum_eq a b)"
| "xnum_order GT a b = xnum_less b a"
| "xnum_order GE a b = (xnum_less b a \<or> xnum_eq a b)"

definition py_cmp :: "py_order \<Rightarrow> pyval \<Rightarrow> pyval \<Rightarrow> bool result" where
  "py_cmp op a b =
     (case (num_val a, num_val b) of
        (Some x, Some y) \<Rightarrow> Inr (xnum_order op x y)
      | _ \<Rightarrow> raise TypeError (py_repr (order_text op) @ '' not supported between instances of '' @
               py_repr (type_name a) @ '' and '' @ py_repr (type_name b)))"

definition len_val :: "'a list \<Rightarrow> pyval" where
  "len_val xs = VInt (int (length xs))"

definition py_truthy :: "pyval \<Rightarrow> bool" where
  "py_truthy v =
     (case v of
        VNone \<Rightarrow> False
      | VBool b \<Rightarrow> b
      | VInt i \<Rightarrow> i \<noteq> 0
      | VFloat f \<Rightarrow> f \<noteq> FFin 0 \<and> f \<noteq> FNegZero
      | VStr s \<Rightarrow> s \<noteq> []
      | VList xs \<Rightarrow> xs \<noteq> []
      | VTuple xs \<Rightarrow> xs \<noteq> []
      | VDict d \<Rightarrow> d \<noteq> []
      | VProxy d \<Rightarrow> d \<noteq> []
      | VOther _ \<Rightarrow> True)"

text \<open>\<open>repr(v)\<close>; the text of a value of another type is made from its type's name.\<close>

fun repr_val :: "stdlib \<Rightarrow> pyval \<Rightarrow> string" where
  "repr_val L VNone = ''None''"
| "repr_val L (VBool b) = (if b then ''True'' else ''False'')"
| "repr_val L (VInt i) = int_str i"
| "repr_val L (VFloat f) =
     (case f of FPosInf \<Rightarrow> ''inf'' | FNegInf \<Rightarrow> ''-inf'' | FNaN \<Rightarrow> ''nan'' | _ \<Rightarrow> float_repr L f)"
| "repr_val L (VStr s) = py_repr s"
| "repr_val L (VList xs) = ''['' @ join '', '' (map (repr_val L) xs) @ '']''"
| "repr_val L (VTuple xs) =
     ''('' @ join '', '' (map (repr_val L) xs) @ (if length xs = 1 then '',)'' else '')'')"
| "repr_val L (VDict d) = ''{'' @ join '', '' (map (\<lambda>(k, v). py_repr k @ '': '' @ repr_val L v) d) @ ''}''"
| "repr_val L (VProxy d) =
     ''mappingproxy({'' @ join '', '' (map (\<lambda>(k, v). py_repr k @ '': '' @ repr_val L v) d) @ ''})''"
| "repr_val L (VOther t) = ''<'' @ t @ '' object>''"

text \<open>The class of the exceptions that the validator raises on purpose.\<close>

definition schema_reject :: "string \<Rightarrow> unit result" where
  "schema_reject m = raise SchemaValidationError m"

text \<open>\<open>if "k" in schema: ...\<close>: the check runs only when the keyword is present.\<close>

definition with_keyword :: "(string \<times> pyval) list \<Rightarrow> string \<Rightarrow> (pyval \<Rightarrow> unit result) \<Rightarrow> unit result" where
  "with_keyword s k f = (case dget s k of None \<Rightarrow> Inr () | Some x \<Rightarrow> f x)"

text \<open>\<open>if cond: raise SchemaValidationError(m)\<close>, where evaluating the condition may itself raise.\<close>

definition reject_if :: "bool result \<Rightarrow> string \<Rightarrow> unit result" where
  "reject_if c m = rbind c (\<lambda>b. if b then schema_reject m else Inr ())"

section \<open>Helpers of the validator\<close>

definition supported_keywords :: "string list" where
  "supported_keywords =
     [''$schema'', ''$id'', ''title'', ''description'', ''type'', ''properties'', ''required'',
      ''additionalProperties'', ''items'', ''enum'', ''const'', ''minLength'', ''maxLength'', ''pattern'',
      ''minimum'', ''maximum'', ''exclusiveMinimum'', ''exclusiveMaximum'', ''minItems'', ''maxItems'',
      ''uniqueItems'', ''minProperties'', ''maxProperties'', ''anyOf'', ''oneOf'', ''allOf'']"

definition is_type :: "stdlib \<Rightarrow> pyval \<Rightarrow> pyval \<Rightarrow> bool result" where
  "is_type L v expected =
     (case expected of
        VStr t \<Rightarrow>
          if t = ''null'' then Inr (v = VNone)
          else if t = ''boolean'' then Inr (case v of VBool _ \<Rightarrow> True | _ \<Rightarrow> False)
          else if t = ''integer'' then Inr (case v of VInt _ \<Rightarrow> True | _ \<Rightarrow> False)
          else if t = ''number'' then Inr (case v of VInt _ \<Rightarrow> True | VFloat _ \<Rightarrow> True | _ \<Rightarrow> False)
          else if t = ''string'' then Inr (case v of VStr _ \<Rightarrow> True | _ \<Rightarrow> False)
          else if t = ''array'' then Inr (is_sequence v)
          else if t = ''object'' then Inr (is_mapping v)
          else raise SchemaValidationError (''unsupported JSON Schema type: '' @ t)
      | _ \<Rightarrow>
          hashed expected (raise SchemaValidationError (''unsupported JSON Schema type: '' @ repr_val L expected)))"

text \<open>\<open>any(...)\<close> over a generator: it stops at the first true item or exception.\<close>

fun any_result :: "('a \<Rightarrow> bool result) \<Rightarrow> 'a list \<Rightarrow> bool result" where
  "any_result f [] = Inr False"
| "any_result f (x # xs) = rbind (f x) (\<lambda>b. if b then Inr True else any_result f xs)"

definition check_type :: "stdlib \<Rightarrow> pyval \<Rightarrow> (string \<times> pyval) list \<Rightarrow> string \<Rightarrow> unit result" where
  "check_type L v s path =
     (case dget s ''type'' of
        None \<Rightarrow> Inr ()
      | Some VNone \<Rightarrow> Inr ()
      | Some expected \<Rightarrow>
          rbind (case expected of VStr _ \<Rightarrow> Inr [expected] | _ \<Rightarrow> py_iter expected) (\<lambda>types.
            rbind (any_result (is_type L v) types) (\<lambda>ok.
              if ok then Inr ()
              else schema_reject (path @ '': expected '' @
                join '' or '' (map (\<lambda>t. case t of VStr n \<Rightarrow> n | _ \<Rightarrow> []) types) @ '', got '' @ type_name v))))"

definition schema_list :: "pyval \<Rightarrow> string \<Rightarrow> string \<Rightarrow> pyval list result" where
  "schema_list v path keyword =
     (case v of
        VList xs \<Rightarrow>
          if xs \<noteq> [] \<and> list_all is_mapping xs then Inr xs
          else raise SchemaValidationError (path @ '': '' @ keyword @ '' must be a non-empty schema list'')
      | _ \<Rightarrow> raise SchemaValidationError (path @ '': '' @ keyword @ '' must be a non-empty schema list''))"

fun count_matches :: "('a \<Rightarrow> unit result) \<Rightarrow> 'a list \<Rightarrow> nat result" where
  "count_matches f [] = Inr 0"
| "count_matches f (x # xs) =
     (case f x of
        Inl e \<Rightarrow> if isa (fst e) SchemaValidationError then count_matches f xs else Inl e
      | Inr _ \<Rightarrow> rbind (count_matches f xs) (\<lambda>n. Inr (Suc n)))"

definition matching_count ::
  "(pyval \<Rightarrow> pyval \<Rightarrow> string \<Rightarrow> unit result) \<Rightarrow> pyval \<Rightarrow> pyval \<Rightarrow> string \<Rightarrow> nat result" where
  "matching_count validate v schemas path =
     rbind (schema_list schemas path ''branch'') (\<lambda>subs. count_matches (\<lambda>sub. validate v sub path) subs)"

definition missing_names :: "pyval list \<Rightarrow> (string \<times> pyval) list \<Rightarrow> pyval list result" where
  "missing_names required d =
     rbind (rmap (\<lambda>name. rbind (in_map name d) (\<lambda>b. Inr (name, b))) required)
       (\<lambda>ps. Inr (map fst (filter (\<lambda>(_, b). \<not> b) ps)))"

definition join_names :: "pyval list \<Rightarrow> string result" where
  "join_names names =
     rbind (rmap (\<lambda>(i, n). case n of VStr s \<Rightarrow> Inr s
              | _ \<Rightarrow> raise TypeError (''sequence item '' @ nat_str i @ '': expected str instance, '' @ type_name n @ '' found''))
             (enumerate 0 names))
       (\<lambda>ss. Inr (join '', '' ss))"

definition object_keywords :: "string list" where
  "object_keywords = [''properties'', ''required'', ''additionalProperties'', ''minProperties'', ''maxProperties'']"

text \<open>The body of the loop over the items of an object.\<close>

definition validate_property ::
  "(pyval \<Rightarrow> pyval \<Rightarrow> string \<Rightarrow> unit result) \<Rightarrow> (string \<times> pyval) list \<Rightarrow> (string \<times> pyval) list \<Rightarrow> string
   \<Rightarrow> string \<Rightarrow> pyval \<Rightarrow> unit result" where
  "validate_property validate properties s path key item =
     (case dget properties key of
        Some sub \<Rightarrow> validate item sub (path @ ''.'' @ key)
      | None \<Rightarrow>
          (case dget s ''additionalProperties'' of
             None \<Rightarrow> schema_reject (path @ ''.'' @ key @ '': unknown field'')
           | Some additional \<Rightarrow>
               if additional = VBool True then Inr ()
               else if is_mapping additional then validate item additional (path @ ''.'' @ key)
               else schema_reject (path @ ''.'' @ key @ '': unknown field'')))"

definition validate_object ::
  "(pyval \<Rightarrow> pyval \<Rightarrow> string \<Rightarrow> unit result) \<Rightarrow> (string \<times> pyval) list \<Rightarrow> (string \<times> pyval) list \<Rightarrow> string \<Rightarrow> unit result" where
  "validate_object validate d s path =
     (if \<not> list_ex (\<lambda>k. dget s k \<noteq> None) object_keywords then Inr ()
      else case as_map (case dget s ''properties'' of None \<Rightarrow> VDict [] | Some p \<Rightarrow> p) of
        None \<Rightarrow> schema_reject (path @ '': properties must be an object'')
      | Some properties \<Rightarrow>
          rbind (py_iter (case dget s ''required'' of None \<Rightarrow> VList [] | Some r \<Rightarrow> r)) (\<lambda>required.
          rbind (missing_names required d) (\<lambda>missing.
          rbind (if missing \<noteq> []
                 then rbind (join_names missing) (\<lambda>t. schema_reject (path @ '': missing required field(s): '' @ t))
                 else Inr ()) (\<lambda>_.
          rbind (with_keyword s ''minProperties''
                   (\<lambda>n. reject_if (py_cmp LT (len_val d) n) (path @ '': too few properties''))) (\<lambda>_.
          rbind (with_keyword s ''maxProperties''
                   (\<lambda>n. reject_if (py_cmp GT (len_val d) n) (path @ '': too many properties''))) (\<lambda>_.
          rall (\<lambda>(key, item). validate_property validate properties s path key item) d))))))"

definition validate_array ::
  "stdlib \<Rightarrow> (pyval \<Rightarrow> pyval \<Rightarrow> string \<Rightarrow> unit result) \<Rightarrow> pyval list \<Rightarrow> (string \<times> pyval) list \<Rightarrow> string \<Rightarrow> unit result" where
  "validate_array L validate xs s path =
     rbind (with_keyword s ''minItems''
              (\<lambda>n. reject_if (py_cmp LT (len_val xs) n) (path @ '': too few items''))) (\<lambda>_.
     rbind (with_keyword s ''maxItems''
              (\<lambda>n. reject_if (py_cmp GT (len_val xs) n) (path @ '': too many items''))) (\<lambda>_.
     rbind (if (case dget s ''uniqueItems'' of None \<Rightarrow> False | Some u \<Rightarrow> py_truthy u) \<and>
               length (remdups (map (repr_val L) xs)) \<noteq> length xs
            then schema_reject (path @ '': items must be unique'') else Inr ()) (\<lambda>_.
     (case dget s ''items'' of
        None \<Rightarrow> Inr ()
      | Some VNone \<Rightarrow> Inr ()
      | Some item_schema \<Rightarrow>
          rall (\<lambda>(i, x). validate x item_schema (path @ ''['' @ nat_str i @ '']'')) (enumerate 0 xs)))))"

definition validate_string :: "stdlib \<Rightarrow> string \<Rightarrow> (string \<times> pyval) list \<Rightarrow> string \<Rightarrow> unit result" where
  "validate_string L t s path =
     rbind (with_keyword s ''minLength''
              (\<lambda>n. reject_if (py_cmp LT (len_val t) n) (path @ '': string is too short''))) (\<lambda>_.
     rbind (with_keyword s ''maxLength''
              (\<lambda>n. reject_if (py_cmp GT (len_val t) n) (path @ '': string is too long''))) (\<lambda>_.
     with_keyword s ''pattern''
       (\<lambda>p. case p of
              VStr pat \<Rightarrow> if \<not> re_search L pat t then schema_reject (path @ '': string does not match pattern'') else Inr ()
            | _ \<Rightarrow> raise TypeError ''first argument must be string or compiled pattern'')))"

definition validate_number :: "pyval \<Rightarrow> (string \<times> pyval) list \<Rightarrow> string \<Rightarrow> unit result" where
  "validate_number v s path =
     rbind (with_keyword s ''minimum'' (\<lambda>n. reject_if (py_cmp LT v n) (path @ '': number is below minimum''))) (\<lambda>_.
     rbind (with_keyword s ''maximum'' (\<lambda>n. reject_if (py_cmp GT v n) (path @ '': number exceeds maximum''))) (\<lambda>_.
     rbind (with_keyword s ''exclusiveMinimum''
              (\<lambda>n. reject_if (py_cmp LE v n) (path @ '': number is below exclusiveMinimum''))) (\<lambda>_.
     with_keyword s ''exclusiveMaximum''
       (\<lambda>n. reject_if (py_cmp GE v n) (path @ '': number exceeds exclusiveMaximum'')))))"

section \<open>validate\_json\_schema\<close>

lemma count_matches_cong [fundef_cong]:
  "xs = ys \<Longrightarrow> (\<And>x. x \<in> set ys \<Longrightarrow> f x = g x) \<Longrightarrow> count_matches f xs = count_matches g ys"
  by (induction ys arbitrary: xs) (auto split: sum.splits)

lemma with_keyword_cong [fundef_cong]:
  "s = s' \<Longrightarrow> k = k' \<Longrightarrow> (\<And>x. dget s' k' = Some x \<Longrightarrow> f x = g x) \<Longrightarrow> with_keyword s k f = with_keyword s' k' g"
  by (simp add: with_keyword_def split: option.splits)

lemma size_dget: "dget d k = Some v \<Longrightarrow> size v < size (VDict d)"
  by (drule map_of_SomeD, drule size_list_estimation' [of _ _ "size v" "size_prod (\<lambda>_. 0) size"]) auto

lemma size_as_map: "as_map v = Some d \<Longrightarrow> size v = size (VDict d)"
  by (cases v) (auto simp: as_map_def)

lemma size_schema_list: "schema_list v path k = Inr xs \<Longrightarrow> x \<in> set xs \<Longrightarrow> size x < size v"
  by (cases v) (auto simp: schema_list_def raise_def less_Suc_eq_le split: if_splits
      dest: size_list_estimation' [where f = size, OF _ order_refl])

lemma matching_count_cong [fundef_cong]:
  assumes "v = v'" "x = x'" "p = p'" "\<And>sub. size sub < size x' \<Longrightarrow> f v' sub p' = g v' sub p'"
  shows "matching_count f v x p = matching_count g v' x' p'"
  unfolding matching_count_def assms(1-3)
  by (intro rbind_cong count_matches_cong refl assms(4)) (rule size_schema_list)

lemma validate_object_cong [fundef_cong]:
  assumes "d = d'" "s = s'" "p = p'" "\<And>v sub q. size sub < size (VDict s') \<Longrightarrow> f v sub q = g v sub q"
  shows "validate_object f d s p = validate_object g d' s' p'"
proof -
  have sub: "size sub < size (VDict s')"
    if "as_map (case dget s' ''properties'' of None \<Rightarrow> VDict [] | Some p \<Rightarrow> p) = Some properties"
      "dget properties key = Some sub" for properties key sub
  proof (cases "dget s' ''properties''")
    case (Some ps)
    with that have "size sub < size ps" using size_as_map size_dget by fastforce
    with size_dget [OF Some] show ?thesis by simp
  qed (use that in \<open>auto simp: as_map_def\<close>)
  have item: "validate_property f properties s' p' key item = validate_property g properties s' p' key item"
    if "as_map (case dget s' ''properties'' of None \<Rightarrow> VDict [] | Some p \<Rightarrow> p) = Some properties" for properties key item
    unfolding validate_property_def
    by (intro option.case_cong if_cong refl assms(4) sub [OF that] size_dget)
  show ?thesis
    unfolding validate_object_def assms(1-3)
    by (intro if_cong option.case_cong rbind_cong rall_cong refl) (clarsimp simp only: item)
qed

lemma validate_array_cong [fundef_cong]:
  assumes "L = L'" "xs = xs'" "s = s'" "p = p'" "\<And>v sub q. size sub < size (VDict s') \<Longrightarrow> f v sub q = g v sub q"
  shows "validate_array L f xs s p = validate_array L' g xs' s' p'"
  unfolding validate_array_def assms(1-4)
  by (intro rbind_cong refl) (auto intro!: rall_cong assms(5) size_dget split: option.splits pyval.splits)

function validate_json_schema :: "stdlib \<Rightarrow> pyval \<Rightarrow> pyval \<Rightarrow> string \<Rightarrow> unit result" where
  "validate_json_schema L v schema path =
     (case as_map schema of
        None \<Rightarrow> schema_reject (path @ '': schema must be an object'')
      | Some s \<Rightarrow>
          if filter (\<lambda>k. k \<notin> set supported_keywords) (map fst s) \<noteq> []
          then schema_reject (path @ '': unsupported schema keyword(s): '' @
                 join '', '' (sort (filter (\<lambda>k. k \<notin> set supported_keywords) (map fst s))))
          else
            rbind (with_keyword s ''allOf'' (\<lambda>x.
                     rbind (schema_list x path ''allOf'') (\<lambda>subs.
                       rall (\<lambda>sub. validate_json_schema L v sub path) subs))) (\<lambda>_.
            rbind (with_keyword s ''anyOf'' (\<lambda>x.
                     rbind (matching_count (\<lambda>u sub p. validate_json_schema L u sub p) v x path) (\<lambda>n.
                       if n < 1 then schema_reject (path @ '': value does not match anyOf'') else Inr ()))) (\<lambda>_.
            rbind (with_keyword s ''oneOf'' (\<lambda>x.
                     rbind (matching_count (\<lambda>u sub p. validate_json_schema L u sub p) v x path) (\<lambda>n.
                       if n \<noteq> 1 then schema_reject (path @ '': value must match exactly one oneOf branch'') else Inr ()))) (\<lambda>_.
            rbind (with_keyword s ''const'' (\<lambda>x.
                     if \<not> py_eq v x then schema_reject (path @ '': value does not match const'') else Inr ())) (\<lambda>_.
            rbind (with_keyword s ''enum'' (\<lambda>x.
                     rbind (py_in v x) (\<lambda>b. if \<not> b then schema_reject (path @ '': value is not in enum'') else Inr ()))) (\<lambda>_.
            rbind (check_type L v s path) (\<lambda>_.
            (case v of
               VDict d \<Rightarrow> validate_object (\<lambda>u sub p. validate_json_schema L u sub p) d s path
             | VProxy d \<Rightarrow> validate_object (\<lambda>u sub p. validate_json_schema L u sub p) d s path
             | VList xs \<Rightarrow> validate_array L (\<lambda>u sub p. validate_json_schema L u sub p) xs s path
             | VTuple xs \<Rightarrow> validate_array L (\<lambda>u sub p. validate_json_schema L u sub p) xs s path
             | VStr t \<Rightarrow> validate_string L t s path
             | VInt _ \<Rightarrow> validate_number v s path
             | VFloat _ \<Rightarrow> validate_number v s path
             | _ \<Rightarrow> Inr ()))))))))"
  by pat_completeness auto
termination
  by (relation "measure (\<lambda>(L, v, schema, path). size schema)")
     (auto simp: size_as_map dest!: size_dget size_schema_list dest: size_as_map)

section \<open>Specification\<close>

text \<open>
  The meaning of the supported keywords, stated keyword by keyword, and the schemas whose keyword
  values have the types that JSON Schema gives them. Objects are closed: with any object keyword
  present, a key that is neither declared nor admitted by \<open>additionalProperties\<close> is refused.
\<close>

definition kw :: "(string \<times> pyval) list \<Rightarrow> string \<Rightarrow> (pyval \<Rightarrow> bool) \<Rightarrow> bool" where
  "kw s k P = (case dget s k of None \<Rightarrow> True | Some x \<Rightarrow> P x)"

definition items_of :: "pyval \<Rightarrow> pyval list" where
  "items_of x = (case as_seq x of None \<Rightarrow> [] | Some xs \<Rightarrow> xs)"

definition map_of_val :: "pyval \<Rightarrow> (string \<times> pyval) list" where
  "map_of_val x = (case as_map x of None \<Rightarrow> [] | Some d \<Rightarrow> d)"

definition type_words :: "string list" where
  "type_words = [''null'', ''boolean'', ''integer'', ''number'', ''string'', ''array'', ''object'']"

definition has_type :: "pyval \<Rightarrow> pyval \<Rightarrow> bool" where
  "has_type v t \<longleftrightarrow>
     t = VStr ''null'' \<and> v = VNone \<or> t = VStr ''boolean'' \<and> (\<exists>b. v = VBool b) \<or>
     t = VStr ''integer'' \<and> (\<exists>i. v = VInt i) \<or> t = VStr ''number'' \<and> ((\<exists>i. v = VInt i) \<or> (\<exists>f. v = VFloat f)) \<or>
     t = VStr ''string'' \<and> (\<exists>s. v = VStr s) \<or> t = VStr ''array'' \<and> is_sequence v \<or> t = VStr ''object'' \<and> is_mapping v"

definition types_of :: "pyval \<Rightarrow> pyval list" where
  "types_of t = (case t of VStr _ \<Rightarrow> [t] | _ \<Rightarrow> items_of t)"

definition num_rel :: "py_order \<Rightarrow> pyval \<Rightarrow> pyval \<Rightarrow> bool" where
  "num_rel op a b = (case (num_val a, num_val b) of (Some x, Some y) \<Rightarrow> xnum_order op x y | _ \<Rightarrow> False)"

lemma kw_cong [fundef_cong]:
  "s = s' \<Longrightarrow> k = k' \<Longrightarrow> (\<And>x. dget s' k' = Some x \<Longrightarrow> P x = Q x) \<Longrightarrow> kw s k P = kw s' k' Q"
  by (simp add: kw_def split: option.splits)

lemma size_items_of: "x \<in> set (items_of v) \<Longrightarrow> size x < size v"
  by (cases v) (auto simp: items_of_def as_seq_def less_Suc_eq_le dest: size_list_estimation' [where f = size, OF _ order_refl])

lemma size_map_of_val: "(k, x) \<in> set (map_of_val v) \<Longrightarrow> size x < size v"
  by (cases v) (auto simp: map_of_val_def as_map_def dest!: size_list_estimation' [of _ _ "size x" "size_prod (\<lambda>_. 0) size"])

lemma size_dget_map: "dget (map_of_val v) k = Some x \<Longrightarrow> size x < size v"
  by (drule map_of_SomeD) (rule size_map_of_val)

definition is_str :: "pyval \<Rightarrow> bool" where
  "is_str v = (case v of VStr _ \<Rightarrow> True | _ \<Rightarrow> False)"

definition nonempty_list :: "pyval \<Rightarrow> bool" where
  "nonempty_list v = (case v of VList xs \<Rightarrow> xs \<noteq> [] | _ \<Rightarrow> False)"

lemma is_str_iff: "is_str v \<longleftrightarrow> (\<exists>t. v = VStr t)"
  by (cases v) (simp_all add: is_str_def)

lemma nonempty_list_iff: "nonempty_list v \<longleftrightarrow> (\<exists>xs. v = VList xs \<and> xs \<noteq> [])"
  by (cases v) (simp_all add: nonempty_list_def)

function wf_schema :: "pyval \<Rightarrow> bool" where
  "wf_schema schema =
     (is_mapping schema \<and> (let s = map_of_val schema in
        wf_dict s \<and> set (map fst s) \<subseteq> set supported_keywords \<and>
        list_all (\<lambda>k. kw s k (\<lambda>x. nonempty_list x \<and> list_all wf_schema (items_of x))) [''allOf'', ''anyOf'', ''oneOf''] \<and>
        kw s ''enum'' is_sequence \<and>
        kw s ''type'' (\<lambda>x. x = VNone \<or> set (types_of x) \<subseteq> VStr ` set type_words \<and> (is_sequence x \<or> is_str x)) \<and>
        kw s ''properties'' (\<lambda>x. is_mapping x \<and> list_all (\<lambda>(k, sub). wf_schema sub) (map_of_val x)) \<and>
        kw s ''required'' (\<lambda>x. is_sequence x \<and> list_all (\<lambda>n. is_str n) (items_of x)) \<and>
        kw s ''additionalProperties'' (\<lambda>x. x = VBool True \<or> x = VBool False \<or> wf_schema x) \<and>
        kw s ''items'' (\<lambda>x. x = VNone \<or> wf_schema x) \<and>
        kw s ''pattern'' (\<lambda>x. is_str x) \<and>
        list_all (\<lambda>k. kw s k (\<lambda>x. num_val x \<noteq> None))
          [''minLength'', ''maxLength'', ''minimum'', ''maximum'', ''exclusiveMinimum'', ''exclusiveMaximum'',
           ''minItems'', ''maxItems'', ''minProperties'', ''maxProperties'']))"
  by pat_completeness auto
termination
  by (relation "measure size") (auto dest!: size_dget_map size_items_of size_map_of_val)

function conforms :: "stdlib \<Rightarrow> pyval \<Rightarrow> pyval \<Rightarrow> bool" where
  "conforms L v schema \<longleftrightarrow> (let s = map_of_val schema in
     kw s ''allOf'' (\<lambda>x. \<forall>sub\<in>set (items_of x). conforms L v sub) \<and>
     kw s ''anyOf'' (\<lambda>x. \<exists>sub\<in>set (items_of x). conforms L v sub) \<and>
     kw s ''oneOf'' (\<lambda>x. length (filter (\<lambda>sub. conforms L v sub) (items_of x)) = 1) \<and>
     kw s ''const'' (\<lambda>x. py_eq v x) \<and>
     kw s ''enum'' (\<lambda>x. \<exists>y\<in>set (items_of x). py_eq v y) \<and>
     kw s ''type'' (\<lambda>x. x = VNone \<or> (\<exists>t\<in>set (types_of x). has_type v t)) \<and>
     (is_mapping v \<longrightarrow> (\<exists>k\<in>set object_keywords. dget s k \<noteq> None) \<longrightarrow>
        kw s ''required'' (\<lambda>x. \<forall>n\<in>set (items_of x). \<exists>t. n = VStr t \<and> dget (map_of_val v) t \<noteq> None) \<and>
        kw s ''minProperties'' (\<lambda>x. \<not> num_rel LT (len_val (map_of_val v)) x) \<and>
        kw s ''maxProperties'' (\<lambda>x. \<not> num_rel GT (len_val (map_of_val v)) x) \<and>
        (\<forall>(key, item)\<in>set (map_of_val v).
           case dget (map_of_val (case dget s ''properties'' of None \<Rightarrow> VDict [] | Some p \<Rightarrow> p)) key of
             Some sub \<Rightarrow> conforms L item sub
           | None \<Rightarrow> (case dget s ''additionalProperties'' of None \<Rightarrow> False
               | Some a \<Rightarrow> a = VBool True \<or> is_mapping a \<and> conforms L item a))) \<and>
     (is_sequence v \<longrightarrow>
        kw s ''minItems'' (\<lambda>x. \<not> num_rel LT (len_val (items_of v)) x) \<and>
        kw s ''maxItems'' (\<lambda>x. \<not> num_rel GT (len_val (items_of v)) x) \<and>
        kw s ''uniqueItems'' (\<lambda>x. py_truthy x \<longrightarrow> distinct (map (repr_val L) (items_of v))) \<and>
        kw s ''items'' (\<lambda>x. x = VNone \<or> (\<forall>y\<in>set (items_of v). conforms L y x))) \<and>
     (\<forall>t. v = VStr t \<longrightarrow>
        kw s ''minLength'' (\<lambda>x. \<not> num_rel LT (len_val t) x) \<and>
        kw s ''maxLength'' (\<lambda>x. \<not> num_rel GT (len_val t) x) \<and>
        kw s ''pattern'' (\<lambda>x. \<forall>p. x = VStr p \<longrightarrow> re_search L p t)) \<and>
     ((\<exists>i. v = VInt i) \<or> (\<exists>f. v = VFloat f) \<longrightarrow>
        kw s ''minimum'' (\<lambda>x. \<not> num_rel LT v x) \<and> kw s ''maximum'' (\<lambda>x. \<not> num_rel GT v x) \<and>
        kw s ''exclusiveMinimum'' (\<lambda>x. \<not> num_rel LE v x) \<and> kw s ''exclusiveMaximum'' (\<lambda>x. \<not> num_rel GE v x)))"
  by pat_completeness auto
termination
proof (relation "measure (\<lambda>(L, v, schema). size schema)", goal_cases)
  case 1 then show ?case by simp
qed (auto dest!: size_dget_map size_items_of split: option.splits)

declare wf_schema.simps [simp del] conforms.simps [simp del] validate_json_schema.simps [simp del]

section \<open>The validator decides the specification\<close>

text \<open>A check accepts when the condition holds and otherwise raises the validator's own exception.\<close>

definition verdict :: "unit result \<Rightarrow> bool \<Rightarrow> bool" where
  "verdict r b \<longleftrightarrow> (if b then r = Inr () else \<exists>m. r = Inl (SchemaValidationError, m))"

lemma verdict_simps [simp]:
  "verdict (Inr ()) b = b" "verdict (schema_reject m) b = (\<not> b)"
  by (simp_all add: verdict_def schema_reject_def raise_def)

lemma verdict_rbind: "verdict r b \<Longrightarrow> (b \<Longrightarrow> verdict (f ()) c) \<Longrightarrow> verdict (rbind r f) (b \<and> c)"
  by (auto simp: verdict_def split: if_splits)

lemma verdict_keyword:
  "(\<And>x. dget s k = Some x \<Longrightarrow> verdict (f x) (P x)) \<Longrightarrow> verdict (with_keyword s k f) (kw s k P)"
  by (simp add: with_keyword_def kw_def split: option.splits)

lemma verdict_rall: "(\<And>x. x \<in> set xs \<Longrightarrow> verdict (f x) (P x)) \<Longrightarrow> verdict (rall f xs) (\<forall>x\<in>set xs. P x)"
proof (induction xs)
  case (Cons x xs)
  then have "verdict (rbind (f x) (\<lambda>_. rall f xs)) (P x \<and> (\<forall>x\<in>set xs. P x))" by (intro verdict_rbind) auto
  then show ?case by simp
qed simp

lemma verdict_count:
  "(\<And>x. x \<in> set xs \<Longrightarrow> verdict (f x) (P x)) \<Longrightarrow> count_matches f xs = Inr (length (filter P xs))"
  by (induction xs) (fastforce simp: verdict_def isa_def split: if_splits sum.splits)+

lemma verdict_compare:
  "num_val a \<noteq> None \<Longrightarrow> num_val x \<noteq> None \<Longrightarrow> verdict (reject_if (py_cmp op a x) m) (\<not> num_rel op a x)"
  by (auto simp: reject_if_def py_cmp_def num_rel_def)

lemma num_val_len [simp]: "num_val (len_val xs) \<noteq> None"
  by (simp add: len_val_def)

lemma kw_dget: "kw s k P \<Longrightarrow> dget s k = Some x \<Longrightarrow> P x"
  by (simp add: kw_def)

lemma verdict_bound:
  "kw s k (\<lambda>x. num_val x \<noteq> None) \<Longrightarrow> num_val a \<noteq> None \<Longrightarrow>
   verdict (with_keyword s k (\<lambda>n. reject_if (py_cmp op a n) m)) (kw s k (\<lambda>x. \<not> num_rel op a x))"
  by (intro verdict_keyword verdict_compare) (auto dest: kw_dget)

lemma wf_schema_mapping: "wf_schema x \<Longrightarrow> is_mapping x"
  by (subst (asm) wf_schema.simps) simp

lemma schema_list_ok:
  assumes "\<exists>xs. x = VList xs \<and> xs \<noteq> []" "list_all wf_schema (items_of x)"
  shows "schema_list x path k = Inr (items_of x)"
proof -
  from assms(1) obtain xs where x: "x = VList xs" "xs \<noteq> []" by blast
  have "list_all is_mapping xs"
    using assms(2) by (simp add: x items_of_def as_seq_def list_all_iff wf_schema_mapping)
  then show ?thesis by (simp add: x schema_list_def items_of_def as_seq_def)
qed

lemma is_type_ok: "t \<in> VStr ` set type_words \<Longrightarrow> is_type L v t = Inr (has_type v t)"
  by (cases v) (auto simp: type_words_def is_type_def has_type_def)

lemma any_result_ok: "(\<And>x. x \<in> set xs \<Longrightarrow> f x = Inr (P x)) \<Longrightarrow> any_result f xs = Inr (\<exists>x\<in>set xs. P x)"
  by (induction xs) auto

lemma verdict_type:
  assumes "kw s ''type'' (\<lambda>x. x = VNone \<or> set (types_of x) \<subseteq> VStr ` set type_words \<and> (is_sequence x \<or> (\<exists>t. x = VStr t)))"
  shows "verdict (check_type L v s path) (kw s ''type'' (\<lambda>x. x = VNone \<or> (\<exists>t\<in>set (types_of x). has_type v t)))"
proof (cases "dget s ''type''")
  case (Some x)
  with assms have x: "x = VNone \<or> set (types_of x) \<subseteq> VStr ` set type_words \<and> (is_sequence x \<or> (\<exists>t. x = VStr t))"
    by (rule kw_dget)
  show ?thesis
  proof (cases "x = VNone")
    case False
    with x have "(case x of VStr _ \<Rightarrow> Inr [x] | _ \<Rightarrow> py_iter x) = Inr (types_of x)"
      by (cases x) (auto simp: types_of_def items_of_def as_seq_def py_iter_def)
    moreover have "any_result (is_type L v) (types_of x) = Inr (\<exists>t\<in>set (types_of x). has_type v t)"
      using x False by (intro any_result_ok is_type_ok) auto
    ultimately show ?thesis
      using Some False by (cases x) (auto simp: check_type_def kw_def)
  qed (use Some in \<open>simp add: check_type_def kw_def\<close>)
qed (simp add: check_type_def kw_def)

lemma required_ok:
  assumes "list_all (\<lambda>n. \<exists>t. n = VStr t) ns"
  shows "\<exists>ms. missing_names ns d = Inr ms \<and> list_all (\<lambda>n. \<exists>t. n = VStr t) ms \<and>
    (ms = [] \<longleftrightarrow> (\<forall>n\<in>set ns. \<exists>t. n = VStr t \<and> dget d t \<noteq> None))"
proof -
  have "\<forall>n\<in>set ns. in_map n d = Inr (case n of VStr t \<Rightarrow> dget d t \<noteq> None | _ \<Rightarrow> False)"
    using assms by (auto simp: list_all_iff in_map_def hashed_def)
  then have "rmap (\<lambda>name. rbind (in_map name d) (\<lambda>b. Inr (name, b))) ns =
      Inr (map (\<lambda>n. (n, case n of VStr t \<Rightarrow> dget d t \<noteq> None | _ \<Rightarrow> False)) ns)"
    by (induction ns) auto
  then show ?thesis
    using assms by (force simp: missing_names_def list_all_iff filter_empty_conv)
qed

lemma join_names_ok: "list_all (\<lambda>n. \<exists>t. n = VStr t) ns \<Longrightarrow> \<exists>t. join_names ns = Inr t"
proof -
  assume "list_all (\<lambda>n. \<exists>t. n = VStr t) ns"
  then have "rmap (\<lambda>(i, n). case n of VStr s \<Rightarrow> Inr s | _ \<Rightarrow> raise TypeError (''sequence item '' @ nat_str i @
      '': expected str instance, '' @ type_name n @ '' found'')) (enumerate k ns) =
      Inr (map (\<lambda>n. case n of VStr s \<Rightarrow> s | _ \<Rightarrow> []) ns)" for k
    by (induction ns arbitrary: k) auto
  then show ?thesis by (simp add: join_names_def)
qed

lemma wf_schemaD:
  assumes "wf_schema schema" "s = map_of_val schema"
  shows "as_map schema = Some s" "set (map fst s) \<subseteq> set supported_keywords"
    "k \<in> {''allOf'', ''anyOf'', ''oneOf''} \<Longrightarrow> kw s k (\<lambda>x. (\<exists>xs. x = VList xs \<and> xs \<noteq> []) \<and> list_all wf_schema (items_of x))"
    "kw s ''enum'' is_sequence"
    "kw s ''type'' (\<lambda>x. x = VNone \<or> set (types_of x) \<subseteq> VStr ` set type_words \<and> (is_sequence x \<or> (\<exists>t. x = VStr t)))"
    "kw s ''properties'' (\<lambda>x. is_mapping x \<and> list_all (\<lambda>(k, sub). wf_schema sub) (map_of_val x))"
    "kw s ''required'' (\<lambda>x. is_sequence x \<and> list_all (\<lambda>n. \<exists>t. n = VStr t) (items_of x))"
    "kw s ''additionalProperties'' (\<lambda>x. x = VBool True \<or> x = VBool False \<or> wf_schema x)"
    "kw s ''items'' (\<lambda>x. x = VNone \<or> wf_schema x)"
    "kw s ''pattern'' (\<lambda>x. \<exists>t. x = VStr t)"
    "n \<in> {''minLength'', ''maxLength'', ''minimum'', ''maximum'', ''exclusiveMinimum'', ''exclusiveMaximum'',
       ''minItems'', ''maxItems'', ''minProperties'', ''maxProperties''} \<Longrightarrow> kw s n (\<lambda>x. num_val x \<noteq> None)"
proof -
  from assms have *: "is_mapping schema" by (simp add: wf_schema_mapping)
  then show "as_map schema = Some s" using assms(2) by (cases schema) (simp_all add: as_map_def map_of_val_def)
  note w = assms(1) [unfolded wf_schema.simps [of schema] Let_def assms(2) [symmetric] is_str_iff nonempty_list_iff]
  from w show "set (map fst s) \<subseteq> set supported_keywords" by blast
  from w show "kw s ''enum'' is_sequence" by blast
  from w show "kw s ''type'' (\<lambda>x. x = VNone \<or> set (types_of x) \<subseteq> VStr ` set type_words \<and> (is_sequence x \<or> (\<exists>t. x = VStr t)))" by blast
  from w show "kw s ''properties'' (\<lambda>x. is_mapping x \<and> list_all (\<lambda>(k, sub). wf_schema sub) (map_of_val x))" by blast
  from w show "kw s ''required'' (\<lambda>x. is_sequence x \<and> list_all (\<lambda>n. \<exists>t. n = VStr t) (items_of x))" by blast
  from w show "kw s ''additionalProperties'' (\<lambda>x. x = VBool True \<or> x = VBool False \<or> wf_schema x)" by blast
  from w show "kw s ''items'' (\<lambda>x. x = VNone \<or> wf_schema x)" by blast
  from w show "kw s ''pattern'' (\<lambda>x. \<exists>t. x = VStr t)" by blast
  from w have b: "list_all (\<lambda>k. kw s k (\<lambda>x. (\<exists>xs. x = VList xs \<and> xs \<noteq> []) \<and> list_all wf_schema (items_of x))) [''allOf'', ''anyOf'', ''oneOf'']"
    and l: "list_all (\<lambda>k. kw s k (\<lambda>x. num_val x \<noteq> None)) [''minLength'', ''maxLength'', ''minimum'', ''maximum'',
      ''exclusiveMinimum'', ''exclusiveMaximum'', ''minItems'', ''maxItems'', ''minProperties'', ''maxProperties'']" by blast+
  from b [unfolded list_all_iff list.set] show "k \<in> {''allOf'', ''anyOf'', ''oneOf''} \<Longrightarrow> kw s k (\<lambda>x. (\<exists>xs. x = VList xs \<and> xs \<noteq> []) \<and> list_all wf_schema (items_of x))"
    unfolding list_all_iff by (rule bspec)
  from l [unfolded list_all_iff list.set] show "n \<in> {''minLength'', ''maxLength'', ''minimum'', ''maximum'', ''exclusiveMinimum'', ''exclusiveMaximum'',
       ''minItems'', ''maxItems'', ''minProperties'', ''maxProperties''} \<Longrightarrow> kw s n (\<lambda>x. num_val x \<noteq> None)"
    by (rule bspec)
qed

text \<open>The parts of the validator, for a well-formed schema, given the claim for its sub-schemas.\<close>

definition sound_below :: "stdlib \<Rightarrow> pyval \<Rightarrow> bool" where
  "sound_below L schema \<longleftrightarrow> (\<forall>u sub p. size sub < size schema \<longrightarrow> wf_schema sub \<longrightarrow>
     verdict (validate_json_schema L u sub p) (conforms L u sub))"

lemma sound_belowD:
  "sound_below L schema \<Longrightarrow> size sub < size schema \<Longrightarrow> wf_schema sub \<Longrightarrow>
   verdict (validate_json_schema L u sub p) (conforms L u sub)"
  by (simp add: sound_below_def)

lemma branches:
  assumes "wf_schema schema" "sound_below L schema" "s = map_of_val schema" "k \<in> {''allOf'', ''anyOf'', ''oneOf''}"
    "dget s k = Some x"
  shows "schema_list x path k' = Inr (items_of x)"
    "y \<in> set (items_of x) \<Longrightarrow> verdict (validate_json_schema L u y p) (conforms L u y)"
proof -
  from kw_dget [OF wf_schemaD(3) [OF assms(1,3,4)] assms(5)]
  have x: "\<exists>xs. x = VList xs \<and> xs \<noteq> []" "list_all wf_schema (items_of x)" by blast+
  then show "schema_list x path k' = Inr (items_of x)" by (rule schema_list_ok)
  show "verdict (validate_json_schema L u y p) (conforms L u y)" if "y \<in> set (items_of x)"
  proof (rule sound_belowD [OF assms(2)])
    show "size y < size schema"
      using size_items_of [OF that] size_dget_map assms(3,5) by fastforce
    show "wf_schema y" using x(2) that by (simp add: list_all_iff)
  qed
qed

lemma verdict_property:
  assumes "wf_schema schema" "sound_below L schema" "s = map_of_val schema"
    and "properties = map_of_val (case dget s ''properties'' of None \<Rightarrow> VDict [] | Some p \<Rightarrow> p)"
  shows "verdict (validate_property (validate_json_schema L) properties s path key item)
    (case dget properties key of
       Some sub \<Rightarrow> conforms L item sub
     | None \<Rightarrow> (case dget s ''additionalProperties'' of None \<Rightarrow> False
         | Some a \<Rightarrow> a = VBool True \<or> is_mapping a \<and> conforms L item a))"
proof (cases "dget properties key")
  case None
  show ?thesis
  proof (cases "dget s ''additionalProperties''")
    case (Some a)
    from kw_dget [OF wf_schemaD(8) [OF assms(1,3)] Some]
    consider "a = VBool True" | "a = VBool False" | "wf_schema a" by blast
    then show ?thesis
    proof cases
      case 3
      have "size a < size schema" using Some assms(3) size_dget_map by blast
      from sound_belowD [OF assms(2) this 3] 3 wf_schema_mapping [OF 3] None Some show ?thesis
        by (cases a) (simp_all add: validate_property_def)
    qed (use None Some in \<open>simp_all add: validate_property_def\<close>)
  qed (use None in \<open>simp add: validate_property_def\<close>)
next
  case (Some sub)
  then obtain ps where ps: "dget s ''properties'' = Some ps" "properties = map_of_val ps"
    using assms(4) by (cases "dget s ''properties''") (auto simp: map_of_val_def as_map_def)
  have "list_all (\<lambda>(k, sub). wf_schema sub) (map_of_val ps)"
    using kw_dget [OF wf_schemaD(6) [OF assms(1,3)] ps(1)] by blast
  with Some ps have "wf_schema sub" by (auto simp: list_all_iff dest!: map_of_SomeD)
  moreover have "size sub < size schema"
    using size_dget_map Some ps assms(3) by (metis less_trans)
  ultimately show ?thesis
    using Some sound_belowD [OF assms(2)] by (simp add: validate_property_def)
qed

lemma verdict_required:
  assumes "kw s ''required'' (\<lambda>x. is_sequence x \<and> list_all (\<lambda>n. \<exists>t. n = VStr t) (items_of x))"
    and "verdict rest b"
  shows "verdict (rbind (py_iter (case dget s ''required'' of None \<Rightarrow> VList [] | Some r \<Rightarrow> r)) (\<lambda>required.
      rbind (missing_names required d) (\<lambda>missing.
        rbind (if missing \<noteq> [] then rbind (join_names missing) (\<lambda>t. schema_reject (m t)) else Inr ()) (\<lambda>_. rest))))
    (kw s ''required'' (\<lambda>x. \<forall>n\<in>set (items_of x). \<exists>t. n = VStr t \<and> dget d t \<noteq> None) \<and> b)"
proof -
  define r where "r = (case dget s ''required'' of None \<Rightarrow> VList [] | Some r \<Rightarrow> r)"
  have r: "is_sequence r \<and> list_all (\<lambda>n. \<exists>t. n = VStr t) (items_of r)"
    using assms(1) by (auto simp: r_def kw_def items_of_def as_seq_def split: option.splits)
  then have iter: "py_iter r = Inr (items_of r)"
    by (cases r) (simp_all add: py_iter_def items_of_def as_seq_def)
  have K: "kw s ''required'' (\<lambda>x. \<forall>n\<in>set (items_of x). \<exists>t. n = VStr t \<and> dget d t \<noteq> None) \<longleftrightarrow>
      (\<forall>n\<in>set (items_of r). \<exists>t. n = VStr t \<and> dget d t \<noteq> None)"
    by (simp add: kw_def r_def items_of_def as_seq_def split: option.splits)
  from required_ok [of "items_of r" d] r obtain ms where
    ms: "missing_names (items_of r) d = Inr ms" "list_all (\<lambda>n. \<exists>t. n = VStr t) ms"
      "ms = [] \<longleftrightarrow> (\<forall>n\<in>set (items_of r). \<exists>t. n = VStr t \<and> dget d t \<noteq> None)" by blast
  from join_names_ok [OF ms(2)] obtain t where t: "join_names ms = Inr t" ..
  show ?thesis
    unfolding r_def [symmetric] K ms(3) [symmetric]
    using assms(2) by (cases "ms = []") (simp_all add: iter ms(1) t, simp add: verdict_def schema_reject_def raise_def)
qed

lemma verdict_object:
  assumes wf: "wf_schema schema" "sound_below L schema" "s = map_of_val schema"
  shows "verdict (validate_object (validate_json_schema L) d s path)
    ((\<exists>k\<in>set object_keywords. dget s k \<noteq> None) \<longrightarrow>
      kw s ''required'' (\<lambda>x. \<forall>n\<in>set (items_of x). \<exists>t. n = VStr t \<and> dget d t \<noteq> None) \<and>
      kw s ''minProperties'' (\<lambda>x. \<not> num_rel LT (len_val d) x) \<and>
      kw s ''maxProperties'' (\<lambda>x. \<not> num_rel GT (len_val d) x) \<and>
      (\<forall>(key, item)\<in>set d.
         case dget (map_of_val (case dget s ''properties'' of None \<Rightarrow> VDict [] | Some p \<Rightarrow> p)) key of
           Some sub \<Rightarrow> conforms L item sub
         | None \<Rightarrow> (case dget s ''additionalProperties'' of None \<Rightarrow> False
             | Some a \<Rightarrow> a = VBool True \<or> is_mapping a \<and> conforms L item a)))"
proof (cases "\<exists>k\<in>set object_keywords. dget s k \<noteq> None")
  case False
  then have "\<not> list_ex (\<lambda>k. dget s k \<noteq> None) object_keywords" by (simp add: list_ex_iff)
  then show ?thesis using False by (simp add: validate_object_def)
next
  case True
  then have ex: "list_ex (\<lambda>k. dget s k \<noteq> None) object_keywords" by (simp add: list_ex_iff)
  let ?p = "case dget s ''properties'' of None \<Rightarrow> VDict [] | Some p \<Rightarrow> p"
  have "is_mapping ?p"
    using wf_schemaD(6) [OF wf(1,3)] by (auto simp: kw_def split: option.splits)
  then have p: "as_map ?p = Some (map_of_val ?p)"
    by (cases ?p) (simp_all add: as_map_def map_of_val_def)
  have items: "verdict (rall (\<lambda>(key, item). validate_property (validate_json_schema L) (map_of_val ?p) s path key item) d)
      (\<forall>(key, item)\<in>set d. case dget (map_of_val ?p) key of
           Some sub \<Rightarrow> conforms L item sub
         | None \<Rightarrow> (case dget s ''additionalProperties'' of None \<Rightarrow> False
             | Some a \<Rightarrow> a = VBool True \<or> is_mapping a \<and> conforms L item a))"
    by (rule verdict_rall, clarify, rule verdict_property [OF wf refl])
  note bound = wf_schemaD(11) [OF wf(1,3)]
  have tail: "verdict (rbind (with_keyword s ''minProperties''
        (\<lambda>n. reject_if (py_cmp LT (len_val d) n) (path @ '': too few properties''))) (\<lambda>_.
      rbind (with_keyword s ''maxProperties''
        (\<lambda>n. reject_if (py_cmp GT (len_val d) n) (path @ '': too many properties''))) (\<lambda>_.
      rall (\<lambda>(key, item). validate_property (validate_json_schema L) (map_of_val ?p) s path key item) d)))
    (kw s ''minProperties'' (\<lambda>x. \<not> num_rel LT (len_val d) x) \<and>
     kw s ''maxProperties'' (\<lambda>x. \<not> num_rel GT (len_val d) x) \<and>
     (\<forall>(key, item)\<in>set d. case dget (map_of_val ?p) key of
           Some sub \<Rightarrow> conforms L item sub
         | None \<Rightarrow> (case dget s ''additionalProperties'' of None \<Rightarrow> False
             | Some a \<Rightarrow> a = VBool True \<or> is_mapping a \<and> conforms L item a)))"
    by (intro verdict_rbind verdict_bound bound num_val_len items) simp_all
  have "validate_object (validate_json_schema L) d s path =
      rbind (py_iter (case dget s ''required'' of None \<Rightarrow> VList [] | Some r \<Rightarrow> r)) (\<lambda>required.
      rbind (missing_names required d) (\<lambda>missing.
      rbind (if missing \<noteq> []
             then rbind (join_names missing) (\<lambda>t. schema_reject (path @ '': missing required field(s): '' @ t))
             else Inr ()) (\<lambda>_.
      rbind (with_keyword s ''minProperties''
        (\<lambda>n. reject_if (py_cmp LT (len_val d) n) (path @ '': too few properties''))) (\<lambda>_.
      rbind (with_keyword s ''maxProperties''
        (\<lambda>n. reject_if (py_cmp GT (len_val d) n) (path @ '': too many properties''))) (\<lambda>_.
      rall (\<lambda>(key, item). validate_property (validate_json_schema L) (map_of_val ?p) s path key item) d)))))"
    unfolding validate_object_def using ex by (simp only: p not_True_eq_False if_False option.case)
  then show ?thesis
    using verdict_required [OF wf_schemaD(7) [OF wf(1,3)] tail] True by (simp only: simp_thms)
qed

lemma verdict_array:
  assumes wf: "wf_schema schema" "sound_below L schema" "s = map_of_val schema"
  shows "verdict (validate_array L (validate_json_schema L) xs s path)
    (kw s ''minItems'' (\<lambda>x. \<not> num_rel LT (len_val xs) x) \<and>
     kw s ''maxItems'' (\<lambda>x. \<not> num_rel GT (len_val xs) x) \<and>
     kw s ''uniqueItems'' (\<lambda>x. py_truthy x \<longrightarrow> distinct (map (repr_val L) xs)) \<and>
     kw s ''items'' (\<lambda>x. x = VNone \<or> (\<forall>y\<in>set xs. conforms L y x)))"
proof -
  have "length (remdups (map (repr_val L) xs)) = length xs \<longleftrightarrow> distinct (map (repr_val L) xs)"
    by (metis length_map length_remdups_eq remdups_id_iff_distinct)
  then have unique: "verdict (if (case dget s ''uniqueItems'' of None \<Rightarrow> False | Some u \<Rightarrow> py_truthy u) \<and>
        length (remdups (map (repr_val L) xs)) \<noteq> length xs
      then schema_reject (path @ '': items must be unique'') else Inr ())
    (kw s ''uniqueItems'' (\<lambda>x. py_truthy x \<longrightarrow> distinct (map (repr_val L) xs)))"
    by (auto simp: kw_def split: option.splits)
  have items: "verdict (case dget s ''items'' of None \<Rightarrow> Inr () | Some VNone \<Rightarrow> Inr ()
      | Some item_schema \<Rightarrow> rall (\<lambda>(i, x). validate_json_schema L x item_schema (path @ ''['' @ nat_str i @ '']'')) (enumerate 0 xs))
    (kw s ''items'' (\<lambda>x. x = VNone \<or> (\<forall>y\<in>set xs. conforms L y x)))"
  proof (cases "dget s ''items''")
    case (Some x)
    from kw_dget [OF wf_schemaD(9) [OF wf(1,3)] Some] consider "x = VNone" | "wf_schema x" by blast
    then show ?thesis
    proof cases
      case 2
      have "size x < size schema" using Some wf(3) size_dget_map by blast
      note sub = sound_belowD [OF wf(2) this 2]
      have "verdict (rall (\<lambda>(i, y). validate_json_schema L y x (path @ ''['' @ nat_str i @ '']'')) (enumerate 0 xs))
          (\<forall>p\<in>set (enumerate 0 xs). conforms L (snd p) x)"
        by (rule verdict_rall) (auto intro: sub)
      moreover have "(\<forall>p\<in>set (enumerate 0 xs). conforms L (snd p) x) \<longleftrightarrow> (\<forall>y\<in>set xs. conforms L y x)"
      proof -
        have "set xs = snd ` set (enumerate 0 xs)" by (metis map_snd_enumerate set_map)
        then show ?thesis by (subst \<open>set xs = _\<close>) simp
      qed
      ultimately show ?thesis
        using Some wf_schema_mapping [OF 2] by (cases x) (simp_all add: kw_def)
    qed (use Some in \<open>simp add: kw_def\<close>)
  qed (simp add: kw_def)
  note bound = wf_schemaD(11) [OF wf(1,3)]
  show ?thesis
    unfolding validate_array_def
    by (intro verdict_rbind verdict_bound bound num_val_len unique items) simp_all
qed

lemma verdict_string:
  assumes wf: "wf_schema schema" "s = map_of_val schema"
  shows "verdict (validate_string L t s path)
    (kw s ''minLength'' (\<lambda>x. \<not> num_rel LT (len_val t) x) \<and>
     kw s ''maxLength'' (\<lambda>x. \<not> num_rel GT (len_val t) x) \<and>
     kw s ''pattern'' (\<lambda>x. \<forall>p. x = VStr p \<longrightarrow> re_search L p t))"
proof -
  have pattern: "verdict (with_keyword s ''pattern'' (\<lambda>p. case p of
        VStr pat \<Rightarrow> if \<not> re_search L pat t then schema_reject (path @ '': string does not match pattern'') else Inr ()
      | _ \<Rightarrow> raise TypeError ''first argument must be string or compiled pattern''))
    (kw s ''pattern'' (\<lambda>x. \<forall>p. x = VStr p \<longrightarrow> re_search L p t))"
  proof (rule verdict_keyword)
    fix x assume "dget s ''pattern'' = Some x"
    with kw_dget [OF wf_schemaD(10) [OF wf]] obtain p where "x = VStr p" by blast
    then show "verdict (case x of
        VStr pat \<Rightarrow> if \<not> re_search L pat t then schema_reject (path @ '': string does not match pattern'') else Inr ()
      | _ \<Rightarrow> raise TypeError ''first argument must be string or compiled pattern'') (\<forall>p. x = VStr p \<longrightarrow> re_search L p t)" by simp
  qed
  note bound = wf_schemaD(11) [OF wf]
  show ?thesis
    unfolding validate_string_def by (intro verdict_rbind verdict_bound bound num_val_len pattern) simp_all
qed

lemma verdict_number:
  assumes wf: "wf_schema schema" "s = map_of_val schema" and "num_val v \<noteq> None"
  shows "verdict (validate_number v s path)
    (kw s ''minimum'' (\<lambda>x. \<not> num_rel LT v x) \<and> kw s ''maximum'' (\<lambda>x. \<not> num_rel GT v x) \<and>
     kw s ''exclusiveMinimum'' (\<lambda>x. \<not> num_rel LE v x) \<and> kw s ''exclusiveMaximum'' (\<lambda>x. \<not> num_rel GE v x))"
  unfolding validate_number_def
  by (intro verdict_rbind verdict_bound wf_schemaD(11) [OF wf] assms(3)) simp_all

lemma num_val_num: "num_val (VInt i) \<noteq> None" "num_val (VFloat f) \<noteq> None"
  by (simp, cases f) simp_all

text \<open>The clause of the specification for the kind of the value.\<close>

definition shape_ok :: "stdlib \<Rightarrow> pyval \<Rightarrow> (string \<times> pyval) list \<Rightarrow> bool" where
  "shape_ok L v s \<longleftrightarrow>
     (is_mapping v \<longrightarrow> (\<exists>k\<in>set object_keywords. dget s k \<noteq> None) \<longrightarrow>
        kw s ''required'' (\<lambda>x. \<forall>n\<in>set (items_of x). \<exists>t. n = VStr t \<and> dget (map_of_val v) t \<noteq> None) \<and>
        kw s ''minProperties'' (\<lambda>x. \<not> num_rel LT (len_val (map_of_val v)) x) \<and>
        kw s ''maxProperties'' (\<lambda>x. \<not> num_rel GT (len_val (map_of_val v)) x) \<and>
        (\<forall>(key, item)\<in>set (map_of_val v).
           case dget (map_of_val (case dget s ''properties'' of None \<Rightarrow> VDict [] | Some p \<Rightarrow> p)) key of
             Some sub \<Rightarrow> conforms L item sub
           | None \<Rightarrow> (case dget s ''additionalProperties'' of None \<Rightarrow> False
               | Some a \<Rightarrow> a = VBool True \<or> is_mapping a \<and> conforms L item a))) \<and>
     (is_sequence v \<longrightarrow>
        kw s ''minItems'' (\<lambda>x. \<not> num_rel LT (len_val (items_of v)) x) \<and>
        kw s ''maxItems'' (\<lambda>x. \<not> num_rel GT (len_val (items_of v)) x) \<and>
        kw s ''uniqueItems'' (\<lambda>x. py_truthy x \<longrightarrow> distinct (map (repr_val L) (items_of v))) \<and>
        kw s ''items'' (\<lambda>x. x = VNone \<or> (\<forall>y\<in>set (items_of v). conforms L y x))) \<and>
     (\<forall>t. v = VStr t \<longrightarrow>
        kw s ''minLength'' (\<lambda>x. \<not> num_rel LT (len_val t) x) \<and>
        kw s ''maxLength'' (\<lambda>x. \<not> num_rel GT (len_val t) x) \<and>
        kw s ''pattern'' (\<lambda>x. \<forall>p. x = VStr p \<longrightarrow> re_search L p t)) \<and>
     ((\<exists>i. v = VInt i) \<or> (\<exists>f. v = VFloat f) \<longrightarrow>
        kw s ''minimum'' (\<lambda>x. \<not> num_rel LT v x) \<and> kw s ''maximum'' (\<lambda>x. \<not> num_rel GT v x) \<and>
        kw s ''exclusiveMinimum'' (\<lambda>x. \<not> num_rel LE v x) \<and> kw s ''exclusiveMaximum'' (\<lambda>x. \<not> num_rel GE v x))"

lemma verdict_shape:
  assumes wf: "wf_schema schema" "sound_below L schema" "s = map_of_val schema"
  shows "verdict (case v of
      VDict d \<Rightarrow> validate_object (validate_json_schema L) d s path
    | VProxy d \<Rightarrow> validate_object (validate_json_schema L) d s path
    | VList xs \<Rightarrow> validate_array L (validate_json_schema L) xs s path
    | VTuple xs \<Rightarrow> validate_array L (validate_json_schema L) xs s path
    | VStr t \<Rightarrow> validate_string L t s path
    | VInt _ \<Rightarrow> validate_number v s path
    | VFloat _ \<Rightarrow> validate_number v s path
    | _ \<Rightarrow> Inr ()) (shape_ok L v s)"
proof (cases v)
  case (VDict d)
  with verdict_object [OF wf, of d path] show ?thesis by (simp add: shape_ok_def map_of_val_def as_map_def)
next
  case (VProxy d)
  with verdict_object [OF wf, of d path] show ?thesis by (simp add: shape_ok_def map_of_val_def as_map_def)
next
  case (VList xs)
  with verdict_array [OF wf, of xs path] show ?thesis by (simp add: shape_ok_def items_of_def as_seq_def)
next
  case (VTuple xs)
  with verdict_array [OF wf, of xs path] show ?thesis by (simp add: shape_ok_def items_of_def as_seq_def)
next
  case (VStr t)
  with verdict_string [OF wf(1,3), of L t path] show ?thesis by (simp add: shape_ok_def)
next
  case (VInt i)
  with verdict_number [OF wf(1,3) num_val_num(1)] show ?thesis by (simp add: shape_ok_def)
next
  case (VFloat f)
  with verdict_number [OF wf(1,3) num_val_num(2)] show ?thesis by (simp add: shape_ok_def)
qed (simp_all add: shape_ok_def)

lemma conforms_unfold:
  "conforms L v schema \<longleftrightarrow> (let s = map_of_val schema in
     kw s ''allOf'' (\<lambda>x. \<forall>sub\<in>set (items_of x). conforms L v sub) \<and>
     kw s ''anyOf'' (\<lambda>x. \<exists>sub\<in>set (items_of x). conforms L v sub) \<and>
     kw s ''oneOf'' (\<lambda>x. length (filter (\<lambda>sub. conforms L v sub) (items_of x)) = 1) \<and>
     kw s ''const'' (\<lambda>x. py_eq v x) \<and>
     kw s ''enum'' (\<lambda>x. \<exists>y\<in>set (items_of x). py_eq v y) \<and>
     kw s ''type'' (\<lambda>x. x = VNone \<or> (\<exists>t\<in>set (types_of x). has_type v t)) \<and>
     shape_ok L v s)"
  by (subst conforms.simps) (simp only: shape_ok_def Let_def)

lemma validator_verdict:
  "wf_schema schema \<Longrightarrow> verdict (validate_json_schema L v schema path) (conforms L v schema)"
proof (induction schema arbitrary: v path rule: measure_induct_rule [of size])
  case (less schema)
  define s where "s = map_of_val schema"
  have below: "sound_below L schema" using less.IH by (simp add: sound_below_def)
  note wf = less.prems below s_def
  have all: "verdict (with_keyword s ''allOf'' (\<lambda>x. rbind (schema_list x path ''allOf'') (\<lambda>subs.
      rall (\<lambda>sub. validate_json_schema L v sub path) subs))) (kw s ''allOf'' (\<lambda>x. \<forall>sub\<in>set (items_of x). conforms L v sub))"
  proof (rule verdict_keyword)
    fix x assume x: "dget s ''allOf'' = Some x"
    have "''allOf'' \<in> {''allOf'', ''anyOf'', ''oneOf''}" by simp
    note b = branches [OF wf this x]
    show "verdict (rbind (schema_list x path ''allOf'') (\<lambda>subs. rall (\<lambda>sub. validate_json_schema L v sub path) subs))
        (\<forall>sub\<in>set (items_of x). conforms L v sub)"
      unfolding b(1) rbind_simps by (rule verdict_rall [OF b(2)])
  qed
  have count: "matching_count (validate_json_schema L) v x path = Inr (length (filter (\<lambda>sub. conforms L v sub) (items_of x)))"
    if "dget s k = Some x" "k \<in> {''allOf'', ''anyOf'', ''oneOf''}" for k x
    unfolding matching_count_def using verdict_count [OF branches(2) [OF wf that(2,1)]]
    by (simp add: branches(1) [OF wf that(2,1)])
  have any: "verdict (with_keyword s ''anyOf'' (\<lambda>x. rbind (matching_count (validate_json_schema L) v x path) (\<lambda>n.
      if n < 1 then schema_reject (path @ '': value does not match anyOf'') else Inr ())))
    (kw s ''anyOf'' (\<lambda>x. \<exists>sub\<in>set (items_of x). conforms L v sub))"
    by (rule verdict_keyword) (auto simp: count filter_empty_conv)
  have one: "verdict (with_keyword s ''oneOf'' (\<lambda>x. rbind (matching_count (validate_json_schema L) v x path) (\<lambda>n.
      if n \<noteq> 1 then schema_reject (path @ '': value must match exactly one oneOf branch'') else Inr ())))
    (kw s ''oneOf'' (\<lambda>x. length (filter (\<lambda>sub. conforms L v sub) (items_of x)) = 1))"
    by (rule verdict_keyword) (simp add: count)
  have const: "verdict (with_keyword s ''const'' (\<lambda>x. if \<not> py_eq v x then schema_reject (path @ '': value does not match const'') else Inr ()))
    (kw s ''const'' (\<lambda>x. py_eq v x))"
    by (rule verdict_keyword) simp
  have enum: "verdict (with_keyword s ''enum'' (\<lambda>x. rbind (py_in v x) (\<lambda>b.
      if \<not> b then schema_reject (path @ '': value is not in enum'') else Inr ())))
    (kw s ''enum'' (\<lambda>x. \<exists>y\<in>set (items_of x). py_eq v y))"
  proof (rule verdict_keyword)
    fix x assume "dget s ''enum'' = Some x"
    with wf_schemaD(4) [OF less.prems s_def] have "is_sequence x" by (rule kw_dget)
    then have "py_in v x = Inr (\<exists>y\<in>set (items_of x). py_eq v y)"
      by (cases x) (simp_all add: py_in_def items_of_def as_seq_def list_ex_iff)
    then show "verdict (rbind (py_in v x) (\<lambda>b. if \<not> b then schema_reject (path @ '': value is not in enum'') else Inr ()))
        (\<exists>y\<in>set (items_of x). py_eq v y)" by simp
  qed
  have no: "filter (\<lambda>k. k \<notin> set supported_keywords) (map fst s) = []"
    using wf_schemaD(2) [OF less.prems s_def] by (auto simp: filter_empty_conv simp del: set_map)
  show ?case
    unfolding conforms_unfold [of L v schema] Let_def s_def [symmetric]
    by (subst validate_json_schema.simps)
       (simp only: wf_schemaD(1) [OF less.prems s_def] option.case no not_False_eq_True if_False simp_thms,
        intro verdict_rbind all any one const enum verdict_type [OF wf_schemaD(5) [OF less.prems s_def]] verdict_shape [OF wf])
qed

lemma unsupported_rejects:
  assumes "as_map schema = Some s" "filter (\<lambda>k. k \<notin> set supported_keywords) (map fst s) \<noteq> []"
  shows "\<exists>m. validate_json_schema L v schema path = Inl (SchemaValidationError, m)"
  using assms(2)
  by (subst validate_json_schema.simps) (simp only: assms(1) option.case if_True schema_reject_def raise_def sum.inject prod.inject ex_simps, simp)

section \<open>Properties\<close>


definition mail_schema :: pyval where
  "mail_schema = VDict
     [(''type'', VStr ''object''), (''required'', VList [VStr ''to'']),
      (''properties'', VDict [(''to'', VDict [(''type'', VStr ''string''), (''minLength'', VInt 1)]),
         (''cc'', VDict [(''anyOf'', VList [VDict [(''type'', VStr ''null'')], VDict [(''type'', VStr ''string'')]])])])]"


text \<open>
  Unsupported keywords fail closed: a schema that uses a keyword the validator does not know
  rejects every value, whatever else it says.
\<close>

theorem unsupported_keyword_rejects:
  assumes "as_map schema = Some s" "k \<in> fst ` set s" "k \<notin> set supported_keywords"
  shows "\<exists>m. validate_json_schema L v schema path = Inl (SchemaValidationError, m)"
proof (rule unsupported_rejects [OF assms(1)])
  show "filter (\<lambda>k. k \<notin> set supported_keywords) (map fst s) \<noteq> []"
    using assms(2,3) by (force simp: filter_empty_conv)
qed

theorem unsupported_keyword_rejects_witness:
  "\<exists>m. validate_json_schema sample_lib VNone (VDict [(''$ref'', VStr ''x'')]) ''$'' = Inl (SchemaValidationError, m)"
  by (rule unsupported_keyword_rejects [of _ "[(''$ref'', VStr ''x'')]" "''$ref''"])
     (simp_all add: as_map_def supported_keywords_def)

end
