(* ===== verification/PA_Domain.thy ===== *)
theory PA_Domain
  imports PA_Values
begin

text \<open>
  \<open>domain/enums.py\<close> and \<open>domain/models.py\<close>: the stable enumerations with their persisted values
  and the immutable value objects with the checks of their \<open>__post_init__\<close>. A constructor that
  validates is a function \<open>mk_...\<close> from the field values to a result.
\<close>

section \<open>Enumerations\<close>

datatype risk_level = READ | INTERNAL_WRITE | EXTERNAL_WRITE | PROHIBITED

fun risk_value :: "risk_level \<Rightarrow> string" where
  "risk_value READ = ''READ''"
| "risk_value INTERNAL_WRITE = ''INTERNAL_WRITE''"
| "risk_value EXTERNAL_WRITE = ''EXTERNAL_WRITE''"
| "risk_value PROHIBITED = ''PROHIBITED''"

fun risk_code :: "risk_level \<Rightarrow> string" where
  "risk_code READ = ''R0''"
| "risk_code INTERNAL_WRITE = ''R1''"
| "risk_code EXTERNAL_WRITE = ''R2''"
| "risk_code PROHIBITED = ''R3''"

datatype retry_policy = RETRY_NONE | IDEMPOTENT_ONLY

datatype task_state =
    TS_CREATED | TS_QUEUED | TS_RUNNING | TS_WAITING_USER | TS_WAITING_APPROVAL
  | TS_WAITING_RECONCILIATION | TS_PAUSED_SAFETY | TS_PAUSED_EXTENSION
  | TS_SUCCEEDED | TS_FAILED | TS_CANCELLED

fun task_state_value :: "task_state \<Rightarrow> string" where
  "task_state_value TS_CREATED = ''CREATED''"
| "task_state_value TS_QUEUED = ''QUEUED''"
| "task_state_value TS_RUNNING = ''RUNNING''"
| "task_state_value TS_WAITING_USER = ''WAITING_USER''"
| "task_state_value TS_WAITING_APPROVAL = ''WAITING_APPROVAL''"
| "task_state_value TS_WAITING_RECONCILIATION = ''WAITING_RECONCILIATION''"
| "task_state_value TS_PAUSED_SAFETY = ''PAUSED_SAFETY''"
| "task_state_value TS_PAUSED_EXTENSION = ''PAUSED_EXTENSION''"
| "task_state_value TS_SUCCEEDED = ''SUCCEEDED''"
| "task_state_value TS_FAILED = ''FAILED''"
| "task_state_value TS_CANCELLED = ''CANCELLED''"

definition task_terminal :: "task_state \<Rightarrow> bool" where
  "task_terminal s = (s \<in> {TS_SUCCEEDED, TS_FAILED, TS_CANCELLED})"

datatype outcome_kind =
    OK_SUCCESS | OK_APPROVAL_REQUIRED | OK_USER_ACTION_REQUIRED | OK_EXTENSION_UNAVAILABLE
  | OK_OUTCOME_UNKNOWN | OK_SAFETY_PAUSE | OK_FAILED

fun outcome_kind_value :: "outcome_kind \<Rightarrow> string" where
  "outcome_kind_value OK_SUCCESS = ''SUCCESS''"
| "outcome_kind_value OK_APPROVAL_REQUIRED = ''APPROVAL_REQUIRED''"
| "outcome_kind_value OK_USER_ACTION_REQUIRED = ''USER_ACTION_REQUIRED''"
| "outcome_kind_value OK_EXTENSION_UNAVAILABLE = ''EXTENSION_UNAVAILABLE''"
| "outcome_kind_value OK_OUTCOME_UNKNOWN = ''OUTCOME_UNKNOWN''"
| "outcome_kind_value OK_SAFETY_PAUSE = ''SAFETY_PAUSE''"
| "outcome_kind_value OK_FAILED = ''FAILED''"

datatype approval_state =
    AS_DRAFT | AS_PREPARED | AS_WAITING_APPROVAL | AS_APPROVED | AS_EXECUTING
  | AS_SUCCEEDED | AS_FAILED | AS_UNKNOWN | AS_EXPIRED | AS_CANCELLED

fun approval_state_value :: "approval_state \<Rightarrow> string" where
  "approval_state_value AS_DRAFT = ''DRAFT''"
| "approval_state_value AS_PREPARED = ''PREPARED''"
| "approval_state_value AS_WAITING_APPROVAL = ''WAITING_APPROVAL''"
| "approval_state_value AS_APPROVED = ''APPROVED''"
| "approval_state_value AS_EXECUTING = ''EXECUTING''"
| "approval_state_value AS_SUCCEEDED = ''SUCCEEDED''"
| "approval_state_value AS_FAILED = ''FAILED''"
| "approval_state_value AS_UNKNOWN = ''UNKNOWN''"
| "approval_state_value AS_EXPIRED = ''EXPIRED''"
| "approval_state_value AS_CANCELLED = ''CANCELLED''"

definition approval_terminal :: "approval_state \<Rightarrow> bool" where
  "approval_terminal s = (s \<in> {AS_SUCCEEDED, AS_FAILED, AS_UNKNOWN, AS_EXPIRED, AS_CANCELLED})"

datatype context_layer =
    POLICY | WORKFLOW | APPROVED_RULE | TASK_WORKING_SET | RETRIEVED_EVIDENCE
  | EPISODIC_SUMMARY | TOOL_OBSERVATION

datatype sensitivity = PUBLIC | PERSONAL | SENSITIVE | SECRET

fun sensitivity_value :: "sensitivity \<Rightarrow> string" where
  "sensitivity_value PUBLIC = ''PUBLIC''"
| "sensitivity_value PERSONAL = ''PERSONAL''"
| "sensitivity_value SENSITIVE = ''SENSITIVE''"
| "sensitivity_value SECRET = ''SECRET''"

datatype trust_level =
    USER_SOURCE | OFFICIAL_SOURCE | EXTERNAL_MESSAGE | MODEL_GENERATED | INFERRED | TOOL_OUTPUT

fun trust_value :: "trust_level \<Rightarrow> string" where
  "trust_value USER_SOURCE = ''USER_SOURCE''"
| "trust_value OFFICIAL_SOURCE = ''OFFICIAL_SOURCE''"
| "trust_value EXTERNAL_MESSAGE = ''EXTERNAL_MESSAGE''"
| "trust_value MODEL_GENERATED = ''MODEL_GENERATED''"
| "trust_value INFERRED = ''INFERRED''"
| "trust_value TOOL_OUTPUT = ''TOOL_OUTPUT''"

section \<open>Value objects\<close>

type_synonym time = int

definition seconds :: "int \<Rightarrow> time" where
  "seconds n = n * 1000000"

definition minutes :: "int \<Rightarrow> time" where
  "minutes n = seconds (60 * n)"

definition hours :: "int \<Rightarrow> time" where
  "hours n = minutes (60 * n)"

text \<open>A \<open>datetime\<close> argument that is checked for a time zone.\<close>

datatype datetime = Aware time | Naive

record attachment =
  att_name :: string
  att_sha256 :: string
  att_size_bytes :: int

definition mk_attachment :: "string \<Rightarrow> string \<Rightarrow> int \<Rightarrow> attachment result" where
  "mk_attachment name sha size_bytes =
     ensure (name \<noteq> []) ValidationError ''attachment name is required''
      (ensure (is_digest (lower sha)) ValidationError ''attachment sha256 must be 64 hexadecimal characters''
      (ensure (0 \<le> size_bytes) ValidationError ''attachment size_bytes cannot be negative''
      (Inr \<lparr>att_name = name, att_sha256 = lower sha, att_size_bytes = size_bytes\<rparr>)))"

record tool_descriptor =
  td_id :: string
  td_version :: string
  td_extension_id :: string
  td_input_schema :: pyval
  td_output_schema :: pyval
  td_risk :: risk_level
  td_extension_version :: "string option"
  td_required_capabilities :: "string set"
  td_timeout_seconds :: rat
  td_retry_policy :: retry_policy
  td_data_classes_in :: "string set"
  td_data_classes_out :: "string set"

definition check_tool_descriptor :: "tool_descriptor \<Rightarrow> tool_descriptor result" where
  "check_tool_descriptor d =
     ensure (\<not> blank (td_id d)) ValidationError ''tool id is required''
      (ensure (\<not> blank (td_version d)) ValidationError ''tool version is required''
      (ensure (\<not> blank (td_extension_id d)) ValidationError ''tool extension_id is required''
      (ensure (0 < td_timeout_seconds d) ValidationError ''tool timeout_seconds must be positive''
      (ensure (td_timeout_seconds d \<le> 15 * 60) ValidationError ''tool timeout_seconds cannot exceed 15 minutes''
      (case td_extension_version d of
         None \<Rightarrow> Inr (d\<lparr>td_extension_version := Some (td_version d)\<rparr>)
       | Some v \<Rightarrow> ensure (\<not> blank v) ValidationError ''extension_version cannot be blank'' (Inr d))))))"

record tool_call =
  tc_tool_id :: string
  tc_tool_version :: string
  tc_arguments :: pyval
  tc_task_id :: string
  tc_target :: pyval
  tc_attachments :: "attachment list"
  tc_granted_capabilities :: "string set"
  tc_workflow_allowed_tools :: "string set"
  tc_approval_id :: "string option"
  tc_idempotency_key :: "string option"
  tc_form_version :: "string option"

definition check_tool_call :: "tool_call \<Rightarrow> tool_call result" where
  "check_tool_call c =
     ensure (tc_tool_id c \<noteq> [] \<and> tc_tool_version c \<noteq> [] \<and> tc_task_id c \<noteq> []) ValidationError
       ''tool_id, tool_version and task_id are required'' (Inr c)"

record tool_outcome =
  to_kind :: outcome_kind
  to_result :: pyval
  to_message :: "string option"
  to_reference_id :: "string option"
  to_approval_id :: "string option"
  to_extension_id :: "string option"
  to_retryable :: bool

definition outcome :: "outcome_kind \<Rightarrow> tool_outcome" where
  "outcome k = \<lparr>to_kind = k, to_result = VNone, to_message = None, to_reference_id = None,
     to_approval_id = None, to_extension_id = None, to_retryable = False\<rparr>"

definition outcome_success :: "pyval \<Rightarrow> tool_outcome" where
  "outcome_success r = (outcome OK_SUCCESS)\<lparr>to_result := r\<rparr>"

definition outcome_failed :: "string \<Rightarrow> bool \<Rightarrow> tool_outcome" where
  "outcome_failed m retryable = (outcome OK_FAILED)\<lparr>to_message := Some m, to_retryable := retryable\<rparr>"

definition outcome_unknown :: "string \<Rightarrow> string option \<Rightarrow> tool_outcome" where
  "outcome_unknown ref m = (outcome OK_OUTCOME_UNKNOWN)\<lparr>to_message := m, to_reference_id := Some ref\<rparr>"

record task =
  task_id :: string
  task_objective :: string
  task_state :: task_state
  task_version :: int
  task_created_at :: time

definition check_task :: "task \<Rightarrow> task result" where
  "check_task t =
     ensure (task_id t \<noteq> [] \<and> \<not> blank (task_objective t)) ValidationError ''task id and objective are required''
      (ensure (0 \<le> task_version t) ValidationError ''task version cannot be negative'' (Inr t))"

record task_run =
  run_id :: string
  run_task_id :: string
  run_objective :: string
  run_state :: task_state
  run_version :: int
  segment_number :: int
  active_started_at :: time
  run_updated_at :: time
  consecutive_errors :: int
  no_progress_rounds :: int
  same_call_without_progress :: int
  last_call_fingerprint :: "string option"
  last_observation_fingerprint :: "string option"
  waiting_reference :: "string option"
  pause_reason :: "string option"

definition check_task_run :: "task_run \<Rightarrow> task_run result" where
  "check_task_run r =
     ensure (run_id r \<noteq> [] \<and> run_task_id r \<noteq> [] \<and> \<not> blank (run_objective r)) ValidationError
       ''run id, task_id and objective are required''
      (ensure (0 \<le> run_version r \<and> 1 \<le> segment_number r) ValidationError ''invalid run version or segment number''
      (ensure (0 \<le> consecutive_errors r) ValidationError ''consecutive_errors cannot be negative''
      (ensure (0 \<le> no_progress_rounds r) ValidationError ''no_progress_rounds cannot be negative''
      (ensure (0 \<le> same_call_without_progress r) ValidationError ''same_call_without_progress cannot be negative''
      (Inr r)))))"

text \<open>A new \<open>TaskRun\<close> with the defaults of the class, created at \<open>now\<close>.\<close>

definition new_run :: "string \<Rightarrow> string \<Rightarrow> string \<Rightarrow> time \<Rightarrow> task_run" where
  "new_run rid tid objective now =
     \<lparr>run_id = rid, run_task_id = tid, run_objective = objective, run_state = TS_RUNNING,
      run_version = 0, segment_number = 1, active_started_at = now, run_updated_at = now,
      consecutive_errors = 0, no_progress_rounds = 0, same_call_without_progress = 0,
      last_call_fingerprint = None, last_observation_fingerprint = None,
      waiting_reference = None, pause_reason = None\<rparr>"

section \<open>Audit writer (audit/writer.py, memory/audit.py)\<close>

record audit_entry =
  ae_event_type :: string
  ae_actor :: string
  ae_resource_type :: string
  ae_resource_id :: string
  ae_data :: pyval
  ae_occurred_at :: time

definition audit_append :: "audit_entry list \<Rightarrow> audit_entry \<Rightarrow> audit_entry list" where
  "audit_append es e = es @ [e\<lparr>ae_data := redact (ae_data e)\<rparr>]"

lemma time_units: "minutes 5 = 300000000" "hours 24 = 86400000000" "seconds 30 = 30000000"
  by (simp_all add: minutes_def hours_def seconds_def)

end
