(* ===== verification/PA_Tools.thy ===== *)
theory PA_Tools
  imports PA_Schemas PA_Domain
begin

text \<open>
  \<open>core/tools/registry.py\<close> and \<open>core/tools/policy.py\<close>: the immutable registry snapshots and the
  deterministic workflow, capability and risk checks.
\<close>

section \<open>Registry (registry.py)\<close>

text \<open>Published schemas are read-only: mappings become proxies and lists become tuples.\<close>

fun freeze :: "pyval \<Rightarrow> pyval" where
  "freeze (VDict d) = VProxy (map (\<lambda>(k, v). (k, freeze v)) d)"
| "freeze (VProxy d) = VProxy (map (\<lambda>(k, v). (k, freeze v)) d)"
| "freeze (VList xs) = VTuple (map freeze xs)"
| "freeze (VTuple xs) = VTuple (map freeze xs)"
| "freeze v = v"

record registry_snapshot =
  rs_generation :: int
  rs_tools :: "((string \<times> string) \<times> tool_descriptor) list"

definition empty_snapshot :: registry_snapshot where
  "empty_snapshot = \<lparr>rs_generation = 0, rs_tools = []\<rparr>"

definition resolve :: "registry_snapshot \<Rightarrow> string \<Rightarrow> string \<Rightarrow> tool_descriptor result" where
  "resolve s tool_id version =
     (case dget (rs_tools s) (tool_id, version) of
        None \<Rightarrow> raise NotFoundError (''tool not registered: '' @ tool_id @ ''@'' @ version)
      | Some d \<Rightarrow> Inr d)"

definition descriptors :: "registry_snapshot \<Rightarrow> tool_descriptor list" where
  "descriptors s = map snd (rs_tools s)"

fun stage :: "((string \<times> string) \<times> tool_descriptor) list \<Rightarrow> tool_descriptor list
    \<Rightarrow> ((string \<times> string) \<times> tool_descriptor) list result" where
  "stage staged [] = Inr staged"
| "stage staged (d # ds) =
     (if dget staged (td_id d, td_version d) \<noteq> None
      then raise AlreadyExistsError (''duplicate tool descriptor: '' @ td_id d @ ''@'' @ td_version d)
      else stage (dset (td_id d, td_version d)
             (d\<lparr>td_input_schema := freeze (td_input_schema d), td_output_schema := freeze (td_output_schema d)\<rparr>) staged) ds)"

definition publish :: "registry_snapshot \<Rightarrow> tool_descriptor list \<Rightarrow> registry_snapshot result \<times> registry_snapshot" where
  "publish s ds =
     (case stage [] ds of
        Inl e \<Rightarrow> (Inl e, s)
      | Inr staged \<Rightarrow>
          (let s' = \<lparr>rs_generation = rs_generation s + 1, rs_tools = staged\<rparr> in (Inr s', s')))"

section \<open>Policy (policy.py)\<close>

text \<open>\<open>frozen\<close> is the answer of the kill-switch probe at the moment of the check.\<close>

record tool_policy =
  external_writes_enabled :: bool
  has_frozen_probe :: bool

text \<open>
  The names missing from the grants are printed in sorted order. Capability sets are finite sets
  of strings; \<open>sorted_list_of_set\<close> is \<open>sorted\<close>.
\<close>

definition policy_check :: "tool_policy \<Rightarrow> bool \<Rightarrow> tool_descriptor \<Rightarrow> tool_call \<Rightarrow> unit result" where
  "policy_check p frozen d c =
     ensure (td_id d \<in> tc_workflow_allowed_tools c) ToolPolicyError (''workflow does not allow tool '' @ td_id d)
      (let missing = td_required_capabilities d - tc_granted_capabilities c in
       ensure (missing = {}) ToolPolicyError
         (''missing capability grant(s): '' @ join '', '' (sorted_list_of_set missing))
      (ensure (td_risk d \<noteq> PROHIBITED) ProhibitedToolError (''R3 tool is permanently prohibited: '' @ td_id d)
      (ensure (\<not> (td_risk d = EXTERNAL_WRITE \<and> (\<not> external_writes_enabled p \<or> has_frozen_probe p \<and> frozen)))
         ToolPolicyError ''external side effects are disabled by the kill switch''
         (Inr ()))))"

section \<open>Lemmas\<close>

lemma policy_check_ok:
  "policy_check p frozen d c = Inr () \<longleftrightarrow>
     td_id d \<in> tc_workflow_allowed_tools c \<and> td_required_capabilities d \<subseteq> tc_granted_capabilities c \<and>
     td_risk d \<noteq> PROHIBITED \<and>
     (td_risk d = EXTERNAL_WRITE \<longrightarrow> external_writes_enabled p \<and> \<not> (has_frozen_probe p \<and> frozen))"
  by (auto simp: policy_check_def ensure_def raise_def Let_def split: if_splits)

lemma stage_keys:
  "stage staged ds = Inr out \<Longrightarrow> \<forall>(k, d)\<in>set staged. k = (td_id d, td_version d) \<Longrightarrow> wf_dict staged \<Longrightarrow>
   wf_dict out \<and> (\<forall>(k, d)\<in>set out. k = (td_id d, td_version d))"
proof (induction staged ds rule: stage.induct)
  case (2 staged d ds)
  let ?d = "d\<lparr>td_input_schema := freeze (td_input_schema d), td_output_schema := freeze (td_output_schema d)\<rparr>"
  from 2(2) have fresh: "dget staged (td_id d, td_version d) = None"
    and rest: "stage (dset (td_id d, td_version d) ?d staged) ds = Inr out"
    by (auto simp: raise_def split: if_splits)
  have "\<forall>(k, e)\<in>set (dset (td_id d, td_version d) ?d staged). k = (td_id e, td_version e)"
    using 2(3) set_dset [of "(td_id d, td_version d)" ?d staged] by fastforce
  with 2(1) [OF _ rest] fresh 2(4) show ?case by (simp add: wf_dict_update)
qed auto

lemma stage_lookup:
  "stage staged ds = Inr out \<Longrightarrow>
   (\<forall>k. dget staged k \<noteq> None \<longrightarrow> dget out k = dget staged k) \<and>
   (\<forall>d\<in>set ds. dget out (td_id d, td_version d) =
      Some (d\<lparr>td_input_schema := freeze (td_input_schema d), td_output_schema := freeze (td_output_schema d)\<rparr>))"
proof (induction staged ds rule: stage.induct)
  case (2 staged d ds)
  let ?d = "d\<lparr>td_input_schema := freeze (td_input_schema d), td_output_schema := freeze (td_output_schema d)\<rparr>"
  from 2(2) have fresh: "dget staged (td_id d, td_version d) = None"
    and rest: "stage (dset (td_id d, td_version d) ?d staged) ds = Inr out"
    by (auto simp: raise_def split: if_splits)
  from 2(1) [OF _ rest] fresh show ?case by (auto simp: map_of_dset split: if_splits)
qed auto

lemma publish_resolve:
  assumes "publish s ds = (Inr s', s'')" "d \<in> set ds"
  shows "s'' = s' \<and> resolve s' (td_id d) (td_version d) =
    Inr (d\<lparr>td_input_schema := freeze (td_input_schema d), td_output_schema := freeze (td_output_schema d)\<rparr>)"
  using assms stage_lookup [of "[]" ds] by (auto simp: publish_def resolve_def Let_def split: sum.splits)

lemma freeze_not_list: "freeze v \<noteq> VList xs"
  by (cases v) simp_all

lemma freeze_map: "as_map v = Some d \<Longrightarrow> as_map (freeze v) = Some (map (\<lambda>(k, v). (k, freeze v)) d)"
  by (cases v) (simp_all add: as_map_def)

lemma dget_freeze: "dget (map (\<lambda>(k, v). (k, freeze v)) d) k = map_option freeze (dget d k)"
  by (simp add: map_of_map)

lemma schema_list_frozen: "\<exists>m. schema_list (freeze x) path k = Inl (SchemaValidationError, m)"
proof (cases "freeze x")
  case (VList xs)
  with freeze_not_list [of x xs] show ?thesis by simp
qed (simp_all add: schema_list_def raise_def)

lemma three_checks:
  assumes "p1 \<or> p2 \<or> p3" "p1 \<Longrightarrow> \<exists>m. r1 = Inl (c, m)" "\<not> p1 \<Longrightarrow> r1 = Inr ()"
    "p2 \<Longrightarrow> \<exists>m. r2 = Inl (c, m)" "\<not> p2 \<Longrightarrow> r2 = Inr ()" "p3 \<Longrightarrow> \<exists>m. r3 = Inl (c, m)"
  shows "\<exists>m. rbind r1 (\<lambda>_. rbind r2 (\<lambda>_. rbind r3 f)) = Inl (c, m)"
  using assms by fastforce

lemma frozen_composition_rejects:
  assumes "as_map schema = Some d" "k \<in> {''allOf'', ''anyOf'', ''oneOf''}" "dget d k \<noteq> None"
  shows "\<exists>m. validate_json_schema L v (freeze schema) path = Inl (SchemaValidationError, m)"
proof (cases "filter (\<lambda>k. k \<notin> set supported_keywords) (map fst (map (\<lambda>(k, v). (k, freeze v)) d)) = []")
  case False
  then show ?thesis by (rule unsupported_rejects [OF freeze_map [OF assms(1)]])
next
  case True
  let ?e = "map (\<lambda>(k, v). (k, freeze v)) d"
  have absent: "dget d k = None \<Longrightarrow> with_keyword ?e k f = Inr ()" for k f
    by (simp add: with_keyword_def dget_freeze)
  have present: "\<exists>m. with_keyword ?e k (\<lambda>x. rbind (schema_list x path k') (g x)) = Inl (SchemaValidationError, m)"
    if "dget d k \<noteq> None" for k k' g
  proof -
    from that obtain x where x: "dget d k = Some x" by blast
    obtain m where "schema_list (freeze x) path k' = Inl (SchemaValidationError, m)" using schema_list_frozen by blast
    with x show ?thesis by (simp add: with_keyword_def dget_freeze)
  qed
  have count: "\<exists>m. with_keyword ?e k (\<lambda>x. rbind (matching_count f v x path) g) = Inl (SchemaValidationError, m)"
    if "dget d k \<noteq> None" for k f g
  proof -
    from that obtain x where x: "dget d k = Some x" by blast
    obtain m where "schema_list (freeze x) path ''branch'' = Inl (SchemaValidationError, m)" using schema_list_frozen by blast
    with x show ?thesis by (simp add: with_keyword_def dget_freeze matching_count_def)
  qed
  from assms(2,3) have "dget d ''allOf'' \<noteq> None \<or> dget d ''anyOf'' \<noteq> None \<or> dget d ''oneOf'' \<noteq> None" by auto
  then show ?thesis
    by (subst validate_json_schema.simps)
       (simp only: freeze_map [OF assms(1)] option.case True simp_thms if_False,
        erule three_checks; (rule present count absent)?; simp)
qed

text \<open>
  C38. The registry publishes frozen schemas, in which a list is a tuple, while the validator accepts
  composition keywords only over a \<open>list\<close>. So a published tool whose input schema uses allOf, anyOf
  or oneOf rejects every argument value, including those its author meant to allow.
\<close>

theorem published_composition_rejects:
  assumes "publish s ds = (Inr s', s'')" "d \<in> set ds" "as_map (td_input_schema d) = Some m"
    "k \<in> {''allOf'', ''anyOf'', ''oneOf''}" "dget m k \<noteq> None"
  shows "\<exists>d'. resolve s' (td_id d) (td_version d) = Inr d' \<and>
    (\<forall>v. \<exists>t. validate_json_schema L v (td_input_schema d') ''$'' = Inl (SchemaValidationError, t))"
  using publish_resolve [OF assms(1,2)] frozen_composition_rejects [OF assms(3-5)] by simp

definition union_tool :: tool_descriptor where
  "union_tool = \<lparr>td_id = ''note.add'', td_version = ''1'', td_extension_id = ''notes'',
     td_input_schema = VDict [(''anyOf'', VList [VDict [(''type'', VStr ''null'')], VDict [(''type'', VStr ''string'')]])],
     td_output_schema = VDict [], td_risk = INTERNAL_WRITE, td_extension_version = Some ''1'',
     td_required_capabilities = {}, td_timeout_seconds = 30, td_retry_policy = RETRY_NONE,
     td_data_classes_in = {}, td_data_classes_out = {}\<rparr>"

theorem published_composition_rejects_witness:
  "validate_json_schema sample_lib VNone (td_input_schema union_tool) ''$'' = Inr () \<and>
   (\<exists>s' d' t. publish empty_snapshot [union_tool] = (Inr s', s') \<and> resolve s' ''note.add'' ''1'' = Inr d' \<and>
      validate_json_schema sample_lib VNone (td_input_schema d') ''$'' = Inl (SchemaValidationError, t))"
proof -
  have ok: "validate_json_schema sample_lib VNone (td_input_schema union_tool) ''$'' = Inr ()" by code_simp
  obtain s' where p: "publish empty_snapshot [union_tool] = (Inr s', s')"
    by (simp add: publish_def Let_def)
  have k: "as_map (td_input_schema union_tool) = Some [(''anyOf'', VList [VDict [(''type'', VStr ''null'')], VDict [(''type'', VStr ''string'')]])]"
    "''anyOf'' \<in> {''allOf'', ''anyOf'', ''oneOf''}" "td_id union_tool = ''note.add''" "td_version union_tool = ''1''"
    by (simp_all add: union_tool_def as_map_def)
  from published_composition_rejects [OF p _ k(1,2)] ok p show ?thesis unfolding k(3,4) by fastforce
qed

end
