(* ===== verification/PA_Stores.thy ===== *)
theory PA_Stores
  imports PA_Prelude
begin

text \<open>
  The interfaces that several components share.

  \<^item> \<open>cas_store\<close>: a repository of versioned records whose \<open>save\<close> is a compare-and-swap on the
    version (\<open>docs/CONTRACTS_AND_INTERFACES.md\<close>, section 3.3). The approval, task, run,
    disclosure and record repositories interpret it.
  \<^item> \<open>transition_policy\<close> and \<open>ranked_policy\<close>: a table of allowed state transitions with
    terminal states, and one in which every transition moves forward.
  \<^item> \<open>command_log\<close>: idempotent commands, whose first result is replayed for the same key and
    the same request and refused for the same key and another request.
  \<^item> \<open>lease_table\<close>: entries leased to one worker at a time, and entries that are settled for good.
\<close>

type_synonym time_stamp = int

section \<open>Compare-and-swap stores\<close>

text \<open>
  A record \<open>r\<close> was read from the store at some earlier moment: the store still has a record
  under its key, at least as new, and the very record \<open>r\<close> if the version has not moved.
\<close>

definition seen :: "('s \<Rightarrow> 'k \<Rightarrow> 'r option) \<Rightarrow> ('r \<Rightarrow> 'k) \<Rightarrow> ('r \<Rightarrow> int) \<Rightarrow> 's \<Rightarrow> 'r \<Rightarrow> bool" where
  "seen lookup key version s r \<longleftrightarrow>
     (\<exists>c. lookup s (key r) = Some c \<and> version r \<le> version c \<and> (version c = version r \<longrightarrow> c = r))"

locale cas_store =
  fixes lookup :: "'s \<Rightarrow> 'k \<Rightarrow> 'r option"
    and key :: "'r \<Rightarrow> 'k"
    and version :: "'r \<Rightarrow> int"
    and save :: "'s \<Rightarrow> 'r \<Rightarrow> int \<Rightarrow> 'r result \<times> 's"
  assumes save_missing: "lookup s (key r) = None \<Longrightarrow> \<exists>e. save s r v = (Inl e, s)"
    and save_stale: "lookup s (key r) = Some c \<Longrightarrow> version c \<noteq> v \<Longrightarrow>
          \<exists>m. save s r v = (Inl (ConcurrentModificationError, m), s)"
    and save_ok: "save s r v = (Inr w, s') \<Longrightarrow>
          key w = key r \<and> v < version w \<and> (\<forall>k. lookup s' k = (if k = key r then Some w else lookup s k))"
    and save_err: "save s r v = (Inl e, s') \<Longrightarrow> s' = s"
begin

lemma save_ok_current:
  assumes "save s r v = (Inr w, s')"
  shows "\<exists>c. lookup s (key r) = Some c \<and> version c = v"
proof (cases "lookup s (key r)")
  case None
  with save_missing [of s r v] assms show ?thesis by simp
next
  case (Some c)
  with save_stale [of s r c v] assms show ?thesis by (cases "version c = v") auto
qed

text \<open>Of two writers that read the same version, at most one succeeds.\<close>

lemma lost_update_impossible:
  assumes "save s r v = (Inr w, s')" and "key q = key r"
  shows "\<exists>m. save s' q v = (Inl (ConcurrentModificationError, m), s')"
proof -
  from save_ok [OF assms(1)] assms(2) have "lookup s' (key q) = Some w" and "version w \<noteq> v" by auto
  then show ?thesis by (rule save_stale)
qed

lemma seen_read: "lookup s (key r) = Some r \<Longrightarrow> seen lookup key version s r"
  by (simp add: seen_def)

lemma seen_save:
  assumes "seen lookup key version s r" and "save s q v = (res, s')"
  shows "seen lookup key version s' r"
proof (cases res)
  case (Inl e)
  with assms save_err show ?thesis by blast
next
  case (Inr w)
  note ok = save_ok [OF assms(2) [unfolded Inr]]
  from save_ok_current [OF assms(2) [unfolded Inr]] obtain c where
    c: "lookup s (key q) = Some c" "version c = v" by blast
  with ok assms(1) show ?thesis by (auto simp: seen_def)
qed

text \<open>
  A write computed from a record read earlier only succeeds while that record is still the
  current one: read, compute, compare-and-swap behaves as one atomic step.
\<close>

lemma seen_commit:
  assumes "seen lookup key version s r" "key w = key r" "save s w (version r) = (Inr u, s')"
  shows "lookup s (key r) = Some r"
  using assms save_ok_current [OF assms(3)] by (auto simp: seen_def)

end

section \<open>Transition tables\<close>

locale transition_policy =
  fixes allowed :: "'q \<Rightarrow> 'q set"
    and terminal :: "'q \<Rightarrow> bool"
  assumes terminal_iff: "terminal q \<longleftrightarrow> allowed q = {}"
begin

lemma terminal_stuck: "(q, p) \<in> {(a, b). b \<in> allowed a}\<^sup>* \<Longrightarrow> terminal q \<Longrightarrow> p = q"
  by (induction rule: converse_rtrancl_induct) (auto simp: terminal_iff)

end

locale ranked_policy = transition_policy +
  fixes rank :: "'q \<Rightarrow> nat"
  assumes forward: "p \<in> allowed q \<Longrightarrow> rank q < rank p"
begin

lemma never_back: "(q, p) \<in> {(a, b). b \<in> allowed a}\<^sup>+ \<Longrightarrow> rank q < rank p"
  by (induction rule: trancl_induct) (auto dest: forward)

text \<open>A sequence of states entered one after the other visits each state at most once.\<close>

lemma entered_once:
  assumes "sorted_wrt (\<lambda>a b. rank a < rank b) qs"
  shows "length (filter (\<lambda>p. p = q) qs) \<le> 1"
proof -
  from assms have "distinct qs"
    by (induction qs) auto
  then show ?thesis
    by (induction qs) (auto simp: filter_empty_conv)
qed

end

section \<open>Idempotent commands\<close>

text \<open>
  A receipt stores what the first request under a key looked like and the identity of what it
  made. \<open>run\<close> is the whole command: it replays, refuses or executes.
\<close>

locale command_log =
  fixes inv :: "'s \<Rightarrow> bool"
    and receipt :: "'s \<Rightarrow> 'k \<Rightarrow> ('f \<times> 'i) option"
    and stamp :: "'q \<Rightarrow> 'f"
    and same :: "'f \<Rightarrow> 'q \<Rightarrow> bool"
    and valid :: "'k \<Rightarrow> 'q \<Rightarrow> bool"
    and ident :: "'a \<Rightarrow> 'i"
    and run :: "'s \<Rightarrow> 'k \<Rightarrow> 'q \<Rightarrow> 'a result \<times> 's"
  assumes executes: "inv s \<Longrightarrow> receipt s k = None \<Longrightarrow> run s k q = (Inr a, s') \<Longrightarrow>
          receipt s' k = Some (stamp q, ident a)"
    and replays: "inv s \<Longrightarrow> receipt s k = Some (f, i) \<Longrightarrow> same f q \<Longrightarrow> valid k q \<Longrightarrow>
          \<exists>a. run s k q = (Inr a, s) \<and> ident a = i"
    and refuses: "inv s \<Longrightarrow> receipt s k = Some (f, i) \<Longrightarrow> \<not> same f q \<Longrightarrow> \<exists>e. run s k q = (Inl e, s)"
begin

text \<open>Sending the command again answers the same and changes nothing; another one under the key fails.\<close>

lemma resend:
  assumes "inv s" "inv s'" "receipt s k = None" "run s k q = (Inr a, s')" "same (stamp q) q'" "valid k q'"
  shows "\<exists>b. run s' k q' = (Inr b, s') \<and> ident b = ident a"
  using replays [OF assms(2) executes [OF assms(1,3,4)] assms(5,6)] .

lemma reuse_refused:
  assumes "inv s" "inv s'" "receipt s k = None" "run s k q = (Inr a, s')" "\<not> same (stamp q) q'"
  shows "\<exists>e. run s' k q' = (Inl e, s')"
  using refuses [OF assms(2) executes [OF assms(1,3,4)] assms(5)] .

end

section \<open>Leases\<close>

text \<open>
  A table whose entries may be leased to a worker until some instant. A step that is not the
  lease holder's own does not touch an entry whose lease is still running; then neither does any
  sequence of such steps.
\<close>

fun lease_run :: "(time_stamp \<Rightarrow> 'o \<Rightarrow> 'q \<Rightarrow> 'q) \<Rightarrow> (time_stamp \<times> 'o) list \<Rightarrow> 'q \<Rightarrow> 'q" where
  "lease_run step [] q = q"
| "lease_run step ((t, c) # cs) q = lease_run step cs (step t c q)"

fun lease_run_ok :: "('q \<Rightarrow> 'o \<Rightarrow> bool) \<Rightarrow> (time_stamp \<Rightarrow> 'o \<Rightarrow> 'q \<Rightarrow> 'q) \<Rightarrow> (time_stamp \<times> 'o) list \<Rightarrow> 'q \<Rightarrow> bool" where
  "lease_run_ok ok step [] q = True"
| "lease_run_ok ok step ((t, c) # cs) q = (ok q c \<and> lease_run_ok ok step cs (step t c q))"

locale lease_table =
  fixes inv :: "'q \<Rightarrow> bool"
    and ok :: "'q \<Rightarrow> 'o \<Rightarrow> bool"
    and step :: "time_stamp \<Rightarrow> 'o \<Rightarrow> 'q \<Rightarrow> 'q"
    and entry :: "'q \<Rightarrow> 'i \<Rightarrow> 'j option"
    and holder :: "'j \<Rightarrow> ('w \<times> time_stamp) option"
    and actor :: "'o \<Rightarrow> ('w \<times> 'i) option"
    and settled :: "'j \<Rightarrow> bool"
  assumes inv_step: "inv q \<Longrightarrow> ok q c \<Longrightarrow> inv (step t c q)"
    and foreign: "inv q \<Longrightarrow> ok q c \<Longrightarrow> entry q i = Some j \<Longrightarrow> holder j = Some (w, u) \<Longrightarrow> t < u \<Longrightarrow>
          actor c \<noteq> Some (w, i) \<Longrightarrow> entry (step t c q) i = Some j"
    and settled_step: "inv q \<Longrightarrow> ok q c \<Longrightarrow> entry q i = Some j \<Longrightarrow> settled j \<Longrightarrow> entry (step t c q) i = Some j"
begin

lemma inv_run: "inv q \<Longrightarrow> lease_run_ok ok step cs q \<Longrightarrow> inv (lease_run step cs q)"
proof (induction cs arbitrary: q)
  case (Cons x cs)
  then show ?case by (cases x) (auto intro!: Cons.IH inv_step)
qed simp

lemma exclusive:
  assumes "inv q" "lease_run_ok ok step cs q" "entry q i = Some j" "holder j = Some (w, u)"
    and "\<And>t c. (t, c) \<in> set cs \<Longrightarrow> t < u \<and> actor c \<noteq> Some (w, i)"
  shows "entry (lease_run step cs q) i = Some j"
  using assms
proof (induction cs arbitrary: q)
  case (Cons x cs)
  obtain t c where x: "x = (t, c)" by fastforce
  with Cons.prems have step: "inv (step t c q)" "entry (step t c q) i = Some j"
    by (auto intro: inv_step foreign)
  show ?case
    using Cons.IH [OF step(1) _ step(2)] Cons.prems x by auto
qed simp

lemma settled_forever:
  assumes "inv q" "lease_run_ok ok step cs q" "entry q i = Some j" "settled j"
  shows "entry (lease_run step cs q) i = Some j"
  using assms
proof (induction cs arbitrary: q)
  case (Cons x cs)
  obtain t c where x: "x = (t, c)" by fastforce
  with Cons.prems have step: "inv (step t c q)" "entry (step t c q) i = Some j"
    by (auto intro: inv_step settled_step)
  show ?case
    using Cons.IH [OF step(1) _ step(2)] Cons.prems x by auto
qed simp

end

end
