(* ===== verification/PA_Approvals.thy ===== *)
theory PA_Approvals
  imports PA_Stores PA_Canonical PA_Domain
begin

text \<open>
  \<open>core/approvals\<close>: the transition table, the exact action binding, the compare-and-swap
  repository and the service that prepares, approves, rejects, consumes and finishes an
  approval.

  Every method of the service reads one record, decides from it, and saves at most once with
  the version it read. A method is therefore a decision (\<open>approval_effect\<close>) on the record it
  read and \<open>perform\<close>, which carries the decision out. Run back to back they are the method;
  kept apart they are the two awaits between which other coroutines may run, which is what the
  step relation \<open>approval_step\<close> interleaves.

  Time stamps other than the one of \<open>prepare\<close>, which the service checks, are aware.
\<close>

section \<open>State machine (state_machine.py)\<close>

fun approval_allowed :: "approval_state \<Rightarrow> approval_state set" where
  "approval_allowed AS_DRAFT = {AS_PREPARED, AS_CANCELLED}"
| "approval_allowed AS_PREPARED = {AS_WAITING_APPROVAL, AS_CANCELLED}"
| "approval_allowed AS_WAITING_APPROVAL = {AS_APPROVED, AS_EXPIRED, AS_CANCELLED}"
| "approval_allowed AS_APPROVED = {AS_EXECUTING, AS_EXPIRED, AS_CANCELLED}"
| "approval_allowed AS_EXECUTING = {AS_SUCCEEDED, AS_FAILED, AS_UNKNOWN}"
| "approval_allowed AS_SUCCEEDED = {}"
| "approval_allowed AS_FAILED = {}"
| "approval_allowed AS_UNKNOWN = {}"
| "approval_allowed AS_EXPIRED = {}"
| "approval_allowed AS_CANCELLED = {}"

definition ensure_approval_transition :: "approval_state \<Rightarrow> approval_state \<Rightarrow> unit result" where
  "ensure_approval_transition current target =
     (if target \<notin> approval_allowed current
      then raise InvalidStateTransitionError
             (''state transition is not allowed: '' @ approval_state_value current @ '' -> '' @ approval_state_value target)
      else Inr ())"

fun approval_rank :: "approval_state \<Rightarrow> nat" where
  "approval_rank AS_DRAFT = 0"
| "approval_rank AS_PREPARED = 1"
| "approval_rank AS_WAITING_APPROVAL = 2"
| "approval_rank AS_APPROVED = 3"
| "approval_rank AS_EXECUTING = 4"
| "approval_rank _ = 5"

section \<open>Bindings and records (service.py)\<close>

definition MAX_APPROVAL_TTL :: time where
  "MAX_APPROVAL_TTL = minutes 5"

record approval_binding =
  ab_action_type :: string
  ab_task_id :: string
  ab_tool_id :: string
  ab_tool_version :: string
  ab_extension_id :: string
  ab_extension_version :: string
  ab_target :: pyval
  ab_payload :: pyval
  ab_attachments :: "attachment list"
  ab_form_version :: "string option"

definition check_binding :: "approval_binding \<Rightarrow> approval_binding result" where
  "check_binding b =
     ensure (list_all (\<lambda>v. \<not> blank v)
        [ab_action_type b, ab_task_id b, ab_tool_id b, ab_tool_version b, ab_extension_id b, ab_extension_version b])
       ValidationError ''approval binding identity fields are required'' (Inr b)"

definition opt_str :: "string option \<Rightarrow> pyval" where
  "opt_str o' = (case o' of None \<Rightarrow> VNone | Some s \<Rightarrow> VStr s)"

definition attachment_value :: "attachment \<Rightarrow> pyval" where
  "attachment_value a = VDict [(''name'', VStr (att_name a)), (''sha256'', VStr (att_sha256 a)),
     (''size_bytes'', VInt (att_size_bytes a))]"

definition envelope :: "approval_binding \<Rightarrow> pyval" where
  "envelope b = VDict
     [(''action_type'', VStr (ab_action_type b)),
      (''task_id'', VStr (ab_task_id b)),
      (''tool_id'', VStr (ab_tool_id b)),
      (''tool_version'', VStr (ab_tool_version b)),
      (''extension_id'', VStr (ab_extension_id b)),
      (''extension_version'', VStr (ab_extension_version b)),
      (''target'', ab_target b),
      (''payload'', ab_payload b),
      (''attachments'', VList (map attachment_value (ab_attachments b))),
      (''form_version'', opt_str (ab_form_version b))]"

record approval_record =
  ap_id :: string
  ap_state :: approval_state
  ap_action_fingerprint :: string
  ap_canonical_action :: string
  ap_nonce :: string
  ap_created_at :: time
  ap_expires_at :: time
  ap_version :: int
  ap_approved_at :: "time option"
  ap_approved_by :: "string option"
  ap_consumed_at :: "time option"
  ap_completed_at :: "time option"
  ap_result_reference :: "string option"
  ap_failure_reason :: "string option"

section \<open>InMemoryApprovalRepository\<close>

type_synonym approval_repo = "string \<rightharpoonup> approval_record"

definition repo_create :: "approval_repo \<Rightarrow> approval_record \<Rightarrow> unit result \<times> approval_repo" where
  "repo_create m r =
     (if m (ap_id r) \<noteq> None then (raise AlreadyExistsError (''approval already exists: '' @ ap_id r), m)
      else (Inr (), m(ap_id r \<mapsto> r)))"

definition repo_get :: "approval_repo \<Rightarrow> string \<Rightarrow> approval_record result" where
  "repo_get m i = (case m i of None \<Rightarrow> raise NotFoundError (''approval not found: '' @ i) | Some r \<Rightarrow> Inr r)"

definition repo_save :: "approval_repo \<Rightarrow> approval_record \<Rightarrow> int \<Rightarrow> approval_record result \<times> approval_repo" where
  "repo_save m r expected =
     (case m (ap_id r) of
        None \<Rightarrow> (raise NotFoundError (''approval not found: '' @ ap_id r), m)
      | Some current \<Rightarrow>
          if ap_version current \<noteq> expected
          then (raise ConcurrentModificationError
                  (''approval '' @ ap_id r @ '' expected version '' @ int_str expected @ '', found ''
                   @ int_str (ap_version current)), m)
          else (let saved = r\<lparr>ap_version := expected + 1\<rparr> in (Inr saved, m(ap_id r \<mapsto> saved))))"

section \<open>Decisions\<close>

text \<open>Raise, return a record, or save a record and then return what was saved or raise.\<close>

datatype approval_effect =
    AE_Raise exn
  | AE_Return approval_record
  | AE_Save approval_record "exn option"

fun perform :: "approval_repo \<Rightarrow> approval_record \<Rightarrow> approval_effect \<Rightarrow> approval_record result \<times> approval_repo" where
  "perform m r (AE_Raise e) = (Inl e, m)"
| "perform m r (AE_Return x) = (Inr x, m)"
| "perform m r (AE_Save w post) =
     (case repo_save m w (ap_version r) of
        (Inl e, m') \<Rightarrow> (Inl e, m')
      | (Inr saved, m') \<Rightarrow> (case post of None \<Rightarrow> Inr saved | Some e \<Rightarrow> Inl e, m'))"

definition guarded :: "approval_state \<Rightarrow> approval_state \<Rightarrow> approval_effect \<Rightarrow> approval_effect" where
  "guarded current target eff =
     (case ensure_approval_transition current target of Inl e \<Rightarrow> AE_Raise e | Inr _ \<Rightarrow> eff)"

definition is_expirable :: "approval_record \<Rightarrow> bool" where
  "is_expirable r = (ap_state r \<in> {AS_WAITING_APPROVAL, AS_APPROVED})"

definition expire_effect :: "approval_record \<Rightarrow> exn option \<Rightarrow> approval_effect" where
  "expire_effect r post =
     (if \<not> is_expirable r then (case post of None \<Rightarrow> AE_Return r | Some e \<Rightarrow> AE_Raise e)
      else guarded (ap_state r) AS_EXPIRED
        (AE_Save (r\<lparr>ap_state := AS_EXPIRED, ap_completed_at := Some (ap_expires_at r),
                   ap_failure_reason := Some ''approval expired''\<rparr>) post))"

definition get_effect :: "time \<Rightarrow> bool \<Rightarrow> approval_record \<Rightarrow> approval_effect" where
  "get_effect now refresh_expiry r =
     (if refresh_expiry \<and> is_expirable r \<and> ap_expires_at r \<le> now then expire_effect r None else AE_Return r)"

definition approve_effect :: "time \<Rightarrow> string \<Rightarrow> string \<Rightarrow> approval_record \<Rightarrow> approval_effect" where
  "approve_effect now nonce actor_id r =
     (if is_expirable r \<and> ap_expires_at r \<le> now
      then expire_effect r (Some (ApprovalExpiredError, ''approval expired: '' @ ap_id r))
      else if ap_state r \<noteq> AS_WAITING_APPROVAL
      then AE_Raise (ApprovalStateError, ''approval '' @ ap_id r @ '' is '' @ approval_state_value (ap_state r) @ '', not waiting'')
      else if blank actor_id then AE_Raise (ValidationError, ''actor_id is required'')
      else if ap_nonce r \<noteq> nonce then AE_Raise (InvalidApprovalNonceError, ''approval nonce does not match'')
      else guarded (ap_state r) AS_APPROVED
        (AE_Save (r\<lparr>ap_state := AS_APPROVED, ap_approved_at := Some now, ap_approved_by := Some actor_id\<rparr>) None))"

definition reject_effect :: "time \<Rightarrow> string option \<Rightarrow> approval_record \<Rightarrow> approval_effect" where
  "reject_effect now reason r =
     (if ap_state r \<notin> {AS_WAITING_APPROVAL, AS_APPROVED}
      then AE_Raise (ApprovalStateError, ''approval cannot be rejected from '' @ approval_state_value (ap_state r))
      else guarded (ap_state r) AS_CANCELLED
        (AE_Save (r\<lparr>ap_state := AS_CANCELLED, ap_completed_at := Some now,
                   ap_failure_reason := Some (case reason of None \<Rightarrow> ''rejected by user''
                     | Some t \<Rightarrow> if t = [] then ''rejected by user'' else t)\<rparr>) None))"

definition consume_effect :: "stdlib \<Rightarrow> time \<Rightarrow> approval_binding \<Rightarrow> approval_record \<Rightarrow> approval_effect" where
  "consume_effect L now binding r =
     (if is_expirable r \<and> ap_expires_at r \<le> now
      then expire_effect r (Some (ApprovalExpiredError, ''approval expired: '' @ ap_id r))
      else if ap_state r \<noteq> AS_APPROVED
      then AE_Raise (ApprovalStateError, ''approval '' @ ap_id r @ '' is '' @ approval_state_value (ap_state r) @ '', not approved'')
      else case canonical_sha256 L (envelope binding) of
        Inl e \<Rightarrow> AE_Raise e
      | Inr presented \<Rightarrow>
          if ap_action_fingerprint r \<noteq> presented
          then guarded (ap_state r) AS_CANCELLED
            (AE_Save (r\<lparr>ap_state := AS_CANCELLED, ap_completed_at := Some now,
                       ap_failure_reason := Some ''approved action changed after preview''\<rparr>)
              (Some (ApprovalBindingMismatchError, ''target, payload, attachment or extension version changed'')))
          else guarded (ap_state r) AS_EXECUTING
            (AE_Save (r\<lparr>ap_state := AS_EXECUTING, ap_consumed_at := Some now\<rparr>) None))"

definition finish_effect ::
  "approval_state \<Rightarrow> time \<Rightarrow> string option \<Rightarrow> string option \<Rightarrow> approval_record \<Rightarrow> approval_effect" where
  "finish_effect target now result_reference failure_reason r =
     (if ap_state r \<noteq> AS_EXECUTING
      then AE_Raise (ApprovalStateError, ''approval action cannot finish from '' @ approval_state_value (ap_state r))
      else guarded (ap_state r) target
        (AE_Save (r\<lparr>ap_state := target, ap_completed_at := Some now,
                   ap_result_reference := result_reference, ap_failure_reason := failure_reason\<rparr>) None))"

section \<open>ApprovalService\<close>

text \<open>\<open>uid\<close> and \<open>nonce\<close> are the values drawn from \<open>uuid.uuid4\<close> and \<open>secrets.token_urlsafe\<close>.\<close>

definition prepare ::
  "stdlib \<Rightarrow> approval_repo \<Rightarrow> approval_binding \<Rightarrow> datetime \<Rightarrow> time \<Rightarrow> string \<Rightarrow> string
   \<Rightarrow> approval_record result \<times> approval_repo" where
  "prepare L m binding now ttl uid nonce =
     (case now of
        Naive \<Rightarrow> (raise ValidationError ''approval timestamps must be timezone-aware'', m)
      | Aware t \<Rightarrow>
         if ttl \<le> 0 \<or> ttl > MAX_APPROVAL_TTL
         then (raise ValidationError ''approval ttl must be positive and at most 5 minutes'', m)
         else case rbind (normalize_json ''$'' (envelope binding)) (\<lambda>normalized.
                rbind (canonical_json L normalized) (\<lambda>encoded.
                rbind (canonical_sha256 L normalized) (\<lambda>fingerprint. Inr
                  \<lparr>ap_id = uid, ap_state = AS_WAITING_APPROVAL, ap_action_fingerprint = fingerprint,
                   ap_canonical_action = encoded, ap_nonce = nonce, ap_created_at = t,
                   ap_expires_at = t + ttl, ap_version = 0, ap_approved_at = None, ap_approved_by = None,
                   ap_consumed_at = None, ap_completed_at = None, ap_result_reference = None,
                   ap_failure_reason = None\<rparr>))) of
             Inl e \<Rightarrow> (Inl e, m)
           | Inr r \<Rightarrow> (case repo_create m r of (Inl e, m') \<Rightarrow> (Inl e, m') | (Inr _, m') \<Rightarrow> (Inr r, m')))"

definition with_record ::
  "approval_repo \<Rightarrow> string \<Rightarrow> (approval_record \<Rightarrow> approval_effect) \<Rightarrow> approval_record result \<times> approval_repo" where
  "with_record m i decide = (case repo_get m i of Inl e \<Rightarrow> (Inl e, m) | Inr r \<Rightarrow> perform m r (decide r))"

definition get_approval :: "approval_repo \<Rightarrow> string \<Rightarrow> time \<Rightarrow> bool \<Rightarrow> approval_record result \<times> approval_repo" where
  "get_approval m i now refresh_expiry = with_record m i (get_effect now refresh_expiry)"

definition approve ::
  "approval_repo \<Rightarrow> string \<Rightarrow> string \<Rightarrow> string \<Rightarrow> time \<Rightarrow> approval_record result \<times> approval_repo" where
  "approve m i nonce actor_id now = with_record m i (approve_effect now nonce actor_id)"

definition reject :: "approval_repo \<Rightarrow> string \<Rightarrow> time \<Rightarrow> string option \<Rightarrow> approval_record result \<times> approval_repo" where
  "reject m i now reason = with_record m i (reject_effect now reason)"

definition consume_for_execution ::
  "stdlib \<Rightarrow> approval_repo \<Rightarrow> string \<Rightarrow> approval_binding \<Rightarrow> time \<Rightarrow> approval_record result \<times> approval_repo" where
  "consume_for_execution L m i binding now = with_record m i (consume_effect L now binding)"

definition mark_succeeded :: "approval_repo \<Rightarrow> string \<Rightarrow> string \<Rightarrow> time \<Rightarrow> approval_record result \<times> approval_repo" where
  "mark_succeeded m i result_reference now = with_record m i (finish_effect AS_SUCCEEDED now (Some result_reference) None)"

definition mark_failed :: "approval_repo \<Rightarrow> string \<Rightarrow> string \<Rightarrow> time \<Rightarrow> approval_record result \<times> approval_repo" where
  "mark_failed m i reason now = with_record m i (finish_effect AS_FAILED now None (Some reason))"

definition mark_unknown :: "approval_repo \<Rightarrow> string \<Rightarrow> string \<Rightarrow> time \<Rightarrow> approval_record result \<times> approval_repo" where
  "mark_unknown m i reference_id now = with_record m i (finish_effect AS_UNKNOWN now (Some reference_id) None)"

section \<open>Interleaved calls\<close>

datatype approval_op =
    Op_Get time bool
  | Op_Approve time string string
  | Op_Reject time "string option"
  | Op_Consume time approval_binding
  | Op_Succeeded time string
  | Op_Failed time string
  | Op_Unknown time string

fun op_effect :: "stdlib \<Rightarrow> approval_op \<Rightarrow> approval_record \<Rightarrow> approval_effect" where
  "op_effect L (Op_Get now refresh) r = get_effect now refresh r"
| "op_effect L (Op_Approve now nonce actor) r = approve_effect now nonce actor r"
| "op_effect L (Op_Reject now reason) r = reject_effect now reason r"
| "op_effect L (Op_Consume now b) r = consume_effect L now b r"
| "op_effect L (Op_Succeeded now x) r = finish_effect AS_SUCCEEDED now (Some x) None r"
| "op_effect L (Op_Failed now x) r = finish_effect AS_FAILED now None (Some x) r"
| "op_effect L (Op_Unknown now x) r = finish_effect AS_UNKNOWN now (Some x) None r"

text \<open>
  The repository, the calls that have read their record and not yet written, the bindings that
  were prepared (a ghost field) and the states entered by successful saves, oldest first.
\<close>

record approval_sys =
  sys_repo :: approval_repo
  sys_inflight :: "(approval_record \<times> approval_effect) list"
  sys_prepared :: "string \<rightharpoonup> approval_binding"
  sys_log :: "(string \<times> approval_state) list"

definition saved_states :: "approval_repo \<Rightarrow> approval_record \<Rightarrow> approval_effect \<Rightarrow> (string \<times> approval_state) list" where
  "saved_states m r eff =
     (case eff of
        AE_Save w _ \<Rightarrow> (case fst (repo_save m w (ap_version r)) of Inl _ \<Rightarrow> [] | Inr u \<Rightarrow> [(ap_id u, ap_state u)])
      | _ \<Rightarrow> [])"

definition sys_init :: approval_sys where
  "sys_init = \<lparr>sys_repo = Map.empty, sys_inflight = [], sys_prepared = Map.empty, sys_log = []\<rparr>"

inductive approval_step :: "stdlib \<Rightarrow> approval_sys \<Rightarrow> approval_sys \<Rightarrow> bool" for L where
  prepare_step:
    "wf_val (envelope b) \<Longrightarrow> prepare L (sys_repo s) b now ttl uid nonce = (Inr r, m') \<Longrightarrow>
     approval_step L s (s\<lparr>sys_repo := m', sys_prepared := (sys_prepared s)(uid \<mapsto> b)\<rparr>)"
| read_step:
    "repo_get (sys_repo s) i = Inr r \<Longrightarrow>
     approval_step L s (s\<lparr>sys_inflight := (r, op_effect L c r) # sys_inflight s\<rparr>)"
| write_step:
    "sys_inflight s = xs @ (r, eff) # ys \<Longrightarrow> perform (sys_repo s) r eff = (res, m') \<Longrightarrow>
     approval_step L s (s\<lparr>sys_repo := m', sys_inflight := xs @ ys,
       sys_log := sys_log s @ saved_states (sys_repo s) r eff\<rparr>)"

definition approval_reachable :: "stdlib \<Rightarrow> approval_sys \<Rightarrow> bool" where
  "approval_reachable L s = (approval_step L)\<^sup>*\<^sup>* sys_init s"

section \<open>Interfaces\<close>

interpretation approval_policy: ranked_policy approval_allowed approval_terminal approval_rank
proof
  show "approval_terminal q \<longleftrightarrow> approval_allowed q = {}" for q
    by (cases q) (auto simp: approval_terminal_def)
  show "p \<in> approval_allowed q \<Longrightarrow> approval_rank q < approval_rank p" for p q
    by (cases q) auto
qed

interpretation approval_store: cas_store "\<lambda>m. m" ap_id ap_version repo_save
  by unfold_locales
    (auto simp: repo_save_def raise_def Let_def split: option.splits if_splits)

section \<open>What a decision may write\<close>

text \<open>
  A save of a decision keeps the identity, the action, the nonce and the life span of the
  record and follows the transition table.
\<close>

definition legal_effect :: "approval_record \<Rightarrow> approval_effect \<Rightarrow> bool" where
  "legal_effect r eff =
     (case eff of
        AE_Save w _ \<Rightarrow>
          ap_id w = ap_id r \<and> ap_state w \<in> approval_allowed (ap_state r) \<and>
          ap_action_fingerprint w = ap_action_fingerprint r \<and> ap_canonical_action w = ap_canonical_action r \<and>
          ap_nonce w = ap_nonce r \<and> ap_created_at w = ap_created_at r \<and> ap_expires_at w = ap_expires_at r
      | _ \<Rightarrow> True)"

lemma legal_simps [simp]:
  "legal_effect r (AE_Raise e)" "legal_effect r (AE_Return x)"
  by (simp_all add: legal_effect_def)

lemma legal_save [simp]:
  "legal_effect r (AE_Save w post) =
     (ap_id w = ap_id r \<and> ap_state w \<in> approval_allowed (ap_state r) \<and>
      ap_action_fingerprint w = ap_action_fingerprint r \<and> ap_canonical_action w = ap_canonical_action r \<and>
      ap_nonce w = ap_nonce r \<and> ap_created_at w = ap_created_at r \<and> ap_expires_at w = ap_expires_at r)"
  by (simp add: legal_effect_def)

lemma guarded_legal:
  "(t \<in> approval_allowed q \<Longrightarrow> legal_effect r eff) \<Longrightarrow> legal_effect r (guarded q t eff)"
  by (auto simp: guarded_def ensure_approval_transition_def raise_def split: if_splits)

lemma expire_legal: "legal_effect r (expire_effect r post)"
  by (auto simp: expire_effect_def intro!: guarded_legal split: option.splits)

lemma op_effect_legal: "legal_effect r (op_effect L c r)"
  by (cases c) (auto simp: get_effect_def approve_effect_def reject_effect_def finish_effect_def
       consume_effect_def intro!: guarded_legal expire_legal split: sum.splits)

lemma repo_save_Inr:
  "repo_save m w v = (Inr u, m') \<longleftrightarrow>
     (\<exists>c. m (ap_id w) = Some c \<and> ap_version c = v) \<and> u = w\<lparr>ap_version := v + 1\<rparr> \<and> m' = m(ap_id w \<mapsto> u)"
  by (auto simp: repo_save_def raise_def Let_def split: option.splits if_splits)

text \<open>Carrying out a decision either leaves the repository alone or saves.\<close>

lemma perform_cases:
  assumes "perform m r eff = (res, m')"
  obtains (unchanged) "m' = m" "saved_states m r eff = []"
  | (saved) w post u where "eff = AE_Save w post" "repo_save m w (ap_version r) = (Inr u, m')"
      "saved_states m r eff = [(ap_id u, ap_state u)]" "post = None \<Longrightarrow> res = Inr u"
      "\<And>e. post = Some e \<Longrightarrow> res = Inl e"
proof (cases eff)
  case (AE_Save w post)
  obtain x m1 where x: "repo_save m w (ap_version r) = (x, m1)" by fastforce
  show ?thesis
  proof (cases x)
    case (Inl e)
    with x AE_Save assms approval_store.save_err [of m w "ap_version r" e m1] show ?thesis
      by (intro unchanged) (auto simp: saved_states_def)
  next
    case (Inr u)
    with x AE_Save assms show ?thesis
      by (intro saved) (auto simp: saved_states_def split: option.splits)
  qed
qed (use assms unchanged in \<open>auto simp: saved_states_def\<close>)

lemma prepare_Inr:
  assumes "prepare L m b now ttl uid nonce = (Inr r, m')" "wf_val (envelope b)"
  shows "m uid = None" "m' = m(uid \<mapsto> r)" "ap_id r = uid" "ap_state r = AS_WAITING_APPROVAL" "ap_version r = 0"
    "ap_nonce r = nonce" "canonical_sha256 L (envelope b) = Inr (ap_action_fingerprint r)"
    "canonical_json L (envelope b) = Inr (ap_canonical_action r)"
    "ap_expires_at r = ap_created_at r + ttl" "0 < ttl" "ttl \<le> MAX_APPROVAL_TTL"
proof -
  from assms(1) obtain t u where t: "now = Aware t" "normalize_json ''$'' (envelope b) = Inr u"
    by (auto simp: prepare_def raise_def split: datetime.splits if_splits sum.splits prod.splits
        elim!: rbind_eq_Inr [THEN iffD1, elim_format])
  from t(2) assms(2) have "normal u" by (rule normalize_json_normal [rotated])
  then have n: "normalize_json ''$'' u = Inr u" by (rule normalize_normal)
  from assms(1) t n have "0 < ttl \<and> ttl \<le> MAX_APPROVAL_TTL \<and> m uid = None \<and> m' = m(uid \<mapsto> r) \<and>
      ap_id r = uid \<and> ap_state r = AS_WAITING_APPROVAL \<and> ap_version r = 0 \<and> ap_nonce r = nonce \<and>
      ap_expires_at r = ap_created_at r + ttl \<and>
      json_dumps L True u = Inr (ap_canonical_action r) \<and> ap_action_fingerprint r = sha256_hex L (ap_canonical_action r)"
    by (auto simp: prepare_def raise_def repo_create_def canonical_sha256_def canonical_json_def rbind_eq_Inr
        split: if_splits sum.splits)
  with t n show "m uid = None" "m' = m(uid \<mapsto> r)" "ap_id r = uid" "ap_state r = AS_WAITING_APPROVAL" "ap_version r = 0"
    "ap_nonce r = nonce" "canonical_sha256 L (envelope b) = Inr (ap_action_fingerprint r)"
    "canonical_json L (envelope b) = Inr (ap_canonical_action r)"
    "ap_expires_at r = ap_created_at r + ttl" "0 < ttl" "ttl \<le> MAX_APPROVAL_TTL"
    by (simp_all add: canonical_sha256_def canonical_json_def)
qed

section \<open>Invariant of the interleaved system\<close>

definition entered :: "(string \<times> approval_state) list \<Rightarrow> string \<Rightarrow> approval_state list" where
  "entered l i = map snd (filter (\<lambda>(j, q). j = i) l)"

lemma entered_simps [simp]:
  "entered [] i = []" "entered (l @ l') i = entered l i @ entered l' i"
  "entered ((j, q) # l) i = (if j = i then q # entered l i else entered l i)"
  by (simp_all add: entered_def)

definition record_ok :: "stdlib \<Rightarrow> approval_sys \<Rightarrow> approval_record \<Rightarrow> bool" where
  "record_ok L s r \<longleftrightarrow>
     sorted_wrt (\<lambda>p q. approval_rank p < approval_rank q) (entered (sys_log s) (ap_id r)) \<and>
     (\<forall>q\<in>set (entered (sys_log s) (ap_id r)). approval_rank q \<le> approval_rank (ap_state r)) \<and>
     ap_expires_at r \<le> ap_created_at r + MAX_APPROVAL_TTL \<and>
     (\<exists>b. sys_prepared s (ap_id r) = Some b \<and> wf_val (envelope b) \<and>
        canonical_sha256 L (envelope b) = Inr (ap_action_fingerprint r) \<and>
        canonical_json L (envelope b) = Inr (ap_canonical_action r))"

definition sys_inv :: "stdlib \<Rightarrow> approval_sys \<Rightarrow> bool" where
  "sys_inv L s \<longleftrightarrow>
     (\<forall>i r. sys_repo s i = Some r \<longrightarrow> ap_id r = i \<and> record_ok L s r) \<and>
     (\<forall>i. sys_repo s i = None \<longrightarrow> entered (sys_log s) i = []) \<and>
     (\<forall>(r, eff)\<in>set (sys_inflight s).
        seen (\<lambda>m. m) ap_id ap_version (sys_repo s) r \<and> legal_effect r eff)"

lemma sys_inv_init: "sys_inv L sys_init"
  by (simp add: sys_inv_def sys_init_def)

lemma sys_inv_save:
  assumes inv: "sys_inv L s" and infl: "sys_inflight s = xs @ (r, AE_Save w post) # ys"
    and save: "repo_save (sys_repo s) w (ap_version r) = (Inr u, m')"
  shows "sys_inv L (s\<lparr>sys_repo := m', sys_inflight := xs @ ys, sys_log := sys_log s @ [(ap_id u, ap_state u)]\<rparr>)"
    (is "sys_inv L ?s")
proof -
  from inv infl have sn: "seen (\<lambda>m. m) ap_id ap_version (sys_repo s) r" and legal: "legal_effect r (AE_Save w post)"
    by (auto simp: sys_inv_def)
  from legal have cur: "sys_repo s (ap_id r) = Some r"
    by (intro approval_store.seen_commit [OF sn _ save]) simp
  from cur inv have rok: "record_ok L s r" by (auto simp: sys_inv_def)
  from save have u: "u = w\<lparr>ap_version := ap_version r + 1\<rparr>" and m': "m' = (sys_repo s)(ap_id w \<mapsto> u)"
    by (simp_all add: repo_save_Inr)
  from legal u have lt: "approval_rank (ap_state r) < approval_rank (ap_state u)"
    by (auto intro: approval_policy.forward)
  have "record_ok L ?s u"
    using rok legal u lt
    by (fastforce simp: record_ok_def sorted_wrt_append)
  moreover have "record_ok L ?s c" if "sys_repo s i = Some c" "i \<noteq> ap_id u" for i c
    using that inv u by (auto simp: sys_inv_def record_ok_def)
  moreover have "seen (\<lambda>m. m) ap_id ap_version m' q \<and> legal_effect q e" if "(q, e) \<in> set (xs @ ys)" for q e
  proof -
    from inv infl that have "seen (\<lambda>m. m) ap_id ap_version (sys_repo s) q" "legal_effect q e"
      by (auto simp: sys_inv_def)
    with approval_store.seen_save [OF _ save] show ?thesis by blast
  qed
  moreover have "ap_id w = ap_id r" "ap_id u = ap_id r" using legal u by auto
  ultimately show ?thesis
    using inv m' by (simp add: sys_inv_def) blast
qed

lemma sys_inv_step:
  assumes "approval_step L s s'" "sys_inv L s"
  shows "sys_inv L s'"
  using assms
proof cases
  case (prepare_step b now ttl uid nonce r m')
  note p = prepare_Inr [OF prepare_step(3,2)]
  from assms(2) p have ent: "entered (sys_log s) uid = []" by (auto simp: sys_inv_def)
  have "seen (\<lambda>m. m) ap_id ap_version m' q" if "seen (\<lambda>m. m) ap_id ap_version (sys_repo s) q" for q
    using that p by (auto simp: seen_def)
  with assms(2) prepare_step p ent show ?thesis
    by (auto simp: sys_inv_def record_ok_def)
next
  case (read_step i r c)
  then have "sys_repo s i = Some r" by (auto simp: repo_get_def raise_def split: option.splits)
  with read_step assms(2) show ?thesis
    by (auto simp: sys_inv_def record_ok_def seen_def op_effect_legal)
next
  case (write_step xs r eff ys res m')
  from write_step(3) show ?thesis
  proof (cases rule: perform_cases)
    case unchanged
    with write_step assms(2) show ?thesis by (auto simp: sys_inv_def record_ok_def)
  next
    case (saved w post u)
    with write_step assms(2) sys_inv_save [of L s xs r w post ys u m'] show ?thesis by simp
  qed
qed

lemma reachable_inv: "approval_reachable L s \<Longrightarrow> sys_inv L s"
  unfolding approval_reachable_def
  by (induction rule: rtranclp_induct) (auto intro: sys_inv_init sys_inv_step)

section \<open>Exactness of the binding\<close>

lemma attachment_value_normal: "normal (attachment_value a)"
  by (simp add: attachment_value_def less_eq_char_def less_char_def)

lemma attachment_value_inject: "attachment_value a = attachment_value b \<longleftrightarrow> a = b"
  by (auto simp: attachment_value_def intro: attachment.equality)

lemma opt_str_normal: "normal (opt_str x)"
  by (simp add: opt_str_def split: option.splits)

lemma opt_str_inject: "opt_str a = opt_str b \<longleftrightarrow> a = b"
  by (auto simp: opt_str_def split: option.splits)

lemma envelope_wf: "wf_val (envelope b) \<longleftrightarrow> wf_val (ab_target b) \<and> wf_val (ab_payload b)"
  by (auto simp: envelope_def wf_dict_def attachment_value_def opt_str_def list_all_iff split: option.splits)

text \<open>Equal normal envelopes agree on every field, the free-form ones up to normalisation.\<close>

definition same_action :: "approval_binding \<Rightarrow> approval_binding \<Rightarrow> bool" where
  "same_action b c \<longleftrightarrow>
     ab_action_type b = ab_action_type c \<and> ab_task_id b = ab_task_id c \<and> ab_tool_id b = ab_tool_id c \<and>
     ab_tool_version b = ab_tool_version c \<and> ab_extension_id b = ab_extension_id c \<and>
     ab_extension_version b = ab_extension_version c \<and> ab_attachments b = ab_attachments c \<and>
     ab_form_version b = ab_form_version c \<and>
     normalize_json ''$.target'' (ab_target b) = normalize_json ''$.target'' (ab_target c) \<and>
     normalize_json ''$.payload'' (ab_payload b) = normalize_json ''$.payload'' (ab_payload c)"

lemma envelope_field:
  assumes "normalize_json ''$'' (envelope b) = Inr u" "normalize_json ''$'' (envelope c) = Inr u"
    and "envelope b = VDict d" "envelope c = VDict e" "wf_dict d" "wf_dict e" "(k, v) \<in> set d" "(k, w) \<in> set e"
  shows "normalize_json (''$.'' @ k) v = normalize_json (''$.'' @ k) w"
proof -
  from normalize_dict_lookup [OF assms(1) [unfolded assms(3)] assms(5,7)] obtain f x where
    x: "u = VDict f" "map_of f k = Some x" "normalize_json (''$'' @ ''.'' @ k) v = Inr x" .
  from normalize_dict_lookup [OF assms(2) [unfolded assms(4)] assms(6,8)] obtain g y where
    y: "u = VDict g" "map_of g k = Some y" "normalize_json (''$'' @ ''.'' @ k) w = Inr y" .
  from x y show ?thesis by simp
qed

lemma attachments_normal: "normal (VList (map attachment_value as))"
  by (simp add: list_all_iff attachment_value_normal)

lemma attachments_inject: "map attachment_value as = map attachment_value bs \<longleftrightarrow> as = bs"
  by (auto simp: attachment_value_inject inj_on_def intro: map_injective [where f = attachment_value])

lemma envelope_determines:
  assumes "normalize_json ''$'' (envelope b) = Inr u" "normalize_json ''$'' (envelope c) = Inr u"
  shows "same_action b c"
proof -
  note field = envelope_field [OF assms, OF envelope_def [of b] envelope_def [of c]]
  have wf: "wf_dict [(''action_type'', t1), (''task_id'', t2), (''tool_id'', t3), (''tool_version'', t4),
      (''extension_id'', t5), (''extension_version'', t6), (''target'', t7), (''payload'', t8),
      (''attachments'', t9), (''form_version'', t10)]" for t1 t2 t3 t4 t5 t6 t7 t8 t9 t10 :: pyval
    by (simp add: wf_dict_def)
  note field' = field [OF wf wf]
  have "normalize_json (''$.'' @ ''attachments'') (VList (map attachment_value (ab_attachments b))) =
        normalize_json (''$.'' @ ''attachments'') (VList (map attachment_value (ab_attachments c)))"
    by (rule field') simp_all
  then have att: "ab_attachments b = ab_attachments c"
    by (simp only: normalize_normal [OF attachments_normal] sum.inject pyval.inject attachments_inject)
  have "normalize_json (''$.'' @ ''form_version'') (opt_str (ab_form_version b)) =
        normalize_json (''$.'' @ ''form_version'') (opt_str (ab_form_version c))"
    by (rule field') simp_all
  then have form: "ab_form_version b = ab_form_version c"
    by (simp only: normalize_normal [OF opt_str_normal] sum.inject opt_str_inject)
  have str: "s = t" if "normalize_json p (VStr s) = normalize_json p (VStr t)" for p s t
    using that by simp
  have "ab_action_type b = ab_action_type c" by (rule str [OF field' [of "''action_type''"]]) simp_all
  moreover have "ab_task_id b = ab_task_id c" by (rule str [OF field' [of "''task_id''"]]) simp_all
  moreover have "ab_tool_id b = ab_tool_id c" by (rule str [OF field' [of "''tool_id''"]]) simp_all
  moreover have "ab_tool_version b = ab_tool_version c" by (rule str [OF field' [of "''tool_version''"]]) simp_all
  moreover have "ab_extension_id b = ab_extension_id c" by (rule str [OF field' [of "''extension_id''"]]) simp_all
  moreover have "ab_extension_version b = ab_extension_version c"
    by (rule str [OF field' [of "''extension_version''"]]) simp_all
  moreover have "normalize_json (''$.'' @ ''target'') (ab_target b) = normalize_json (''$.'' @ ''target'') (ab_target c)"
    by (rule field') simp_all
  moreover have "normalize_json (''$.'' @ ''payload'') (ab_payload b) = normalize_json (''$.'' @ ''payload'') (ab_payload c)"
    by (rule field') simp_all
  ultimately show ?thesis using att form by (simp add: same_action_def)
qed

lemma fingerprint_exact:
  assumes "float_repr_ok L" "wf_val (envelope b)" "wf_val (envelope c)"
    and "canonical_sha256 L (envelope b) = Inr f" "canonical_sha256 L (envelope c) = Inr f"
    and "\<And>s t. canonical_json L (envelope b) = Inr s \<Longrightarrow> canonical_json L (envelope c) = Inr t \<Longrightarrow>
           sha256_hex L s = sha256_hex L t \<Longrightarrow> s = t"
  shows "same_action b c"
proof -
  from assms(4,5) obtain s t where
    st: "canonical_json L (envelope b) = Inr s" "canonical_json L (envelope c) = Inr t" "sha256_hex L s = sha256_hex L t"
    by (auto simp: canonical_sha256_def rbind_eq_Inr)
  with assms(6) have "t = s" by blast
  with st canonical_json_determines [OF assms(1-3) st(1)] have
    "normalize_json ''$'' (envelope b) = normalize_json ''$'' (envelope c)" by simp
  moreover from st obtain u where "normalize_json ''$'' (envelope b) = Inr u"
    by (auto simp: canonical_json_def rbind_eq_Inr)
  ultimately show ?thesis by (intro envelope_determines [of b u c]) simp_all
qed

section \<open>Behaviour of each call\<close>

definition keyed :: "approval_repo \<Rightarrow> bool" where
  "keyed m \<longleftrightarrow> (\<forall>i r. m i = Some r \<longrightarrow> ap_id r = i)"

lemma sys_inv_record: "sys_inv L s \<Longrightarrow> sys_repo s i = Some r \<Longrightarrow> ap_id r = i \<and> record_ok L s r"
  by (simp add: sys_inv_def)

lemma sys_inv_keyed: "sys_inv L s \<Longrightarrow> keyed (sys_repo s)"
  by (simp add: sys_inv_def keyed_def)

lemmas service_defs = with_record_def repo_get_def repo_save_def raise_def guarded_def ensure_approval_transition_def
  expire_effect_def is_expirable_def Let_def

lemma consume_Inr:
  assumes "keyed m"
  shows "consume_for_execution L m i b now = (Inr r, m') \<longleftrightarrow>
    (\<exists>c. m i = Some c \<and> ap_state c = AS_APPROVED \<and> now < ap_expires_at c \<and>
       canonical_sha256 L (envelope b) = Inr (ap_action_fingerprint c) \<and>
       r = c\<lparr>ap_state := AS_EXECUTING, ap_consumed_at := Some now, ap_version := ap_version c + 1\<rparr> \<and> m' = m(i \<mapsto> r))"
proof (cases "m i")
  case (Some c)
  with assms have "ap_id c = i" "m (ap_id c) = Some c" by (auto simp: keyed_def)
  with Some show ?thesis
    by (cases "ap_state c") (auto simp: consume_for_execution_def consume_effect_def service_defs split: sum.splits if_splits)
qed (simp add: consume_for_execution_def service_defs)

section \<open>A concrete run\<close>

text \<open>Drivers that take one step of the system, for the examples.\<close>

definition do_prepare :: "stdlib \<Rightarrow> approval_binding \<Rightarrow> time \<Rightarrow> time \<Rightarrow> string \<Rightarrow> string \<Rightarrow> approval_sys \<Rightarrow> approval_sys" where
  "do_prepare L b now ttl uid nonce s =
     s\<lparr>sys_repo := snd (prepare L (sys_repo s) b (Aware now) ttl uid nonce), sys_prepared := (sys_prepared s)(uid \<mapsto> b)\<rparr>"

definition do_read :: "stdlib \<Rightarrow> string \<Rightarrow> approval_op \<Rightarrow> approval_sys \<Rightarrow> approval_sys" where
  "do_read L i c s =
     (case repo_get (sys_repo s) i of Inl _ \<Rightarrow> s
      | Inr r \<Rightarrow> s\<lparr>sys_inflight := (r, op_effect L c r) # sys_inflight s\<rparr>)"

definition do_write :: "approval_sys \<Rightarrow> approval_sys" where
  "do_write s =
     (case sys_inflight s of [] \<Rightarrow> s
      | (r, eff) # ys \<Rightarrow> s\<lparr>sys_repo := snd (perform (sys_repo s) r eff), sys_inflight := ys,
          sys_log := sys_log s @ saved_states (sys_repo s) r eff\<rparr>)"

lemma reachable_init: "approval_reachable L sys_init"
  by (simp add: approval_reachable_def)

lemma reachable_step: "approval_reachable L s \<Longrightarrow> approval_step L s s' \<Longrightarrow> approval_reachable L s'"
  by (simp add: approval_reachable_def)

lemma reachable_prepare:
  assumes "approval_reachable L s" "wf_val (envelope b)"
    and "is_ok (fst (prepare L (sys_repo s) b (Aware now) ttl uid nonce))"
  shows "approval_reachable L (do_prepare L b now ttl uid nonce s)"
proof -
  from assms(3) obtain r m' where "prepare L (sys_repo s) b (Aware now) ttl uid nonce = (Inr r, m')"
    by (cases "prepare L (sys_repo s) b (Aware now) ttl uid nonce") (auto simp: is_ok_iff)
  from reachable_step [OF assms(1) approval_step.prepare_step [where s = s, OF assms(2) this]] this show ?thesis
    by (simp add: do_prepare_def)
qed

lemma reachable_read: "approval_reachable L s \<Longrightarrow> approval_reachable L (do_read L i c s)"
  by (auto simp: do_read_def split: sum.splits intro: reachable_step approval_step.read_step)

lemma reachable_write:
  assumes "approval_reachable L s"
  shows "approval_reachable L (do_write s)"
proof (cases "sys_inflight s")
  case (Cons x ys)
  obtain r eff where x: "x = (r, eff)" by fastforce
  obtain res m' where p: "perform (sys_repo s) r eff = (res, m')" by fastforce
  have "approval_step L s (s\<lparr>sys_repo := m', sys_inflight := [] @ ys,
      sys_log := sys_log s @ saved_states (sys_repo s) r eff\<rparr>)"
    by (rule approval_step.write_step [OF _ p]) (simp add: Cons x)
  from reachable_step [OF assms this] Cons x p show ?thesis by (simp add: do_write_def)
qed (use assms in \<open>simp add: do_write_def\<close>)

definition mail_binding :: "string \<Rightarrow> approval_binding" where
  "mail_binding body =
     \<lparr>ab_action_type = ''mail.send'', ab_task_id = ''t1'', ab_tool_id = ''mail.send'', ab_tool_version = ''1'',
      ab_extension_id = ''mail'', ab_extension_version = ''1'', ab_target = VStr ''bob'',
      ab_payload = VDict [(''body'', VStr body), (''as'', VTuple [VInt 1])], ab_attachments = [], ab_form_version = None\<rparr>"

text \<open>Prepared, approved, and then two consumers that have both read the approved record.\<close>

definition run_prepared :: approval_sys where
  "run_prepared = do_prepare sample_lib (mail_binding ''hi'') 0 (minutes 5) ''a1'' ''n'' sys_init"

definition run_approved :: approval_sys where
  "run_approved = do_write (do_read sample_lib ''a1'' (Op_Approve 10 ''n'' ''me'') run_prepared)"

definition run_race :: approval_sys where
  "run_race = do_write (do_write (do_read sample_lib ''a1'' (Op_Consume 20 (mail_binding ''hi''))
     (do_read sample_lib ''a1'' (Op_Consume 21 (mail_binding ''hi'')) run_approved)))"

lemma mail_wf: "wf_val (envelope (mail_binding t))"
  by (simp add: envelope_wf mail_binding_def wf_dict_def)

lemma run_prepared_reachable: "approval_reachable sample_lib run_prepared"
  unfolding run_prepared_def
  by (rule reachable_prepare [OF reachable_init mail_wf]) code_simp

lemma run_approved_reachable: "approval_reachable sample_lib run_approved"
  unfolding run_approved_def by (intro reachable_write reachable_read run_prepared_reachable)

lemma run_race_reachable: "approval_reachable sample_lib run_race"
  unfolding run_race_def by (intro reachable_write reachable_read run_approved_reachable)

lemma run_prepared_keyed: "keyed (sys_repo run_prepared)"
  by (rule sys_inv_keyed [OF reachable_inv [OF run_prepared_reachable]])

lemma run_approved_keyed: "keyed (sys_repo run_approved)"
  by (rule sys_inv_keyed [OF reachable_inv [OF run_approved_reachable]])

definition approved_record :: approval_record where
  "approved_record = the (sys_repo run_approved ''a1'')"

lemma run_approved_record:
  "sys_repo run_approved ''a1'' = Some approved_record" "ap_state approved_record = AS_APPROVED"
  "ap_expires_at approved_record = minutes 5" "ap_created_at approved_record = 0"
  by code_simp+

text \<open>The same message with the payload keys in another order and a list for the tuple.\<close>

definition mail_reordered :: approval_binding where
  "mail_reordered = (mail_binding ''hi'')\<lparr>ab_payload := VDict [(''as'', VList [VInt 1]), (''body'', VStr ''hi'')]\<rparr>"

section \<open>Properties\<close>

text \<open>
  C2. Whatever the interleaving of prepare, approve, reject, consume, finish and expiry calls, in
  which any number of calls may have read a record before any of them writes it, an approval
  enters the state EXECUTING at most once: one user decision authorises at most one external
  action.
\<close>

theorem approval_consumed_once:
  assumes "approval_reachable L s"
  shows "length (filter (\<lambda>(j, q). j = i \<and> q = AS_EXECUTING) (sys_log s)) \<le> 1"
proof -
  from assms have inv: "sys_inv L s" by (rule reachable_inv)
  have "sorted_wrt (\<lambda>p q. approval_rank p < approval_rank q) (entered (sys_log s) i)"
    using inv by (cases "sys_repo s i") (auto simp: sys_inv_def record_ok_def)
  from approval_policy.entered_once [OF this, of AS_EXECUTING]
  show ?thesis by (simp add: entered_def filter_map o_def case_prod_beta')
qed

theorem approval_consumed_once_witness:
  "approval_reachable sample_lib run_race \<and>
   length (filter (\<lambda>(j, q). j = ''a1'' \<and> q = AS_EXECUTING) (sys_log run_race)) \<le> 1 \<and>
   filter (\<lambda>(j, q). j = ''a1'' \<and> q = AS_EXECUTING) (sys_log run_race) = [(''a1'', AS_EXECUTING)]"
proof (intro conjI)
  show "approval_reachable sample_lib run_race" by (rule run_race_reachable)
  show "length (filter (\<lambda>(j, q). j = ''a1'' \<and> q = AS_EXECUTING) (sys_log run_race)) \<le> 1"
    by (rule approval_consumed_once [OF run_race_reachable])
  show "filter (\<lambda>(j, q). j = ''a1'' \<and> q = AS_EXECUTING) (sys_log run_race) = [(''a1'', AS_EXECUTING)]"
    by code_simp
qed

text \<open>
  C5. A consumption that succeeds in a reachable system is one of the exact action that was
  previewed: the binding presented and the binding prepared under that id agree on the action
  type, task, tool, extension, their versions, the attachments and the form version, and on the
  target and payload up to normalisation. The record was approved and had not expired.
\<close>

theorem consume_exact_binding:
  assumes "approval_reachable L s" "consume_for_execution L (sys_repo s) i presented now = (Inr r, m')"
    and "float_repr_ok L" "wf_val (envelope presented)" "sys_prepared s i = Some previewed"
    and "\<And>t u. canonical_json L (envelope previewed) = Inr t \<Longrightarrow> canonical_json L (envelope presented) = Inr u \<Longrightarrow>
           sha256_hex L t = sha256_hex L u \<Longrightarrow> t = u"
  shows "same_action previewed presented \<and> now < ap_expires_at r \<and>
    (\<exists>c. sys_repo s i = Some c \<and> ap_state c = AS_APPROVED) \<and> ap_state r = AS_EXECUTING \<and> m' i = Some r"
proof -
  from assms(1) have inv: "sys_inv L s" by (rule reachable_inv)
  from assms(2) obtain c where c: "sys_repo s i = Some c" "ap_state c = AS_APPROVED" "now < ap_expires_at c"
    "canonical_sha256 L (envelope presented) = Inr (ap_action_fingerprint c)"
    "r = c\<lparr>ap_state := AS_EXECUTING, ap_consumed_at := Some now, ap_version := ap_version c + 1\<rparr>" "m' = (sys_repo s)(i \<mapsto> r)"
    by (auto simp: consume_Inr [OF sys_inv_keyed [OF inv]])
  from inv c(1) assms(5) have "wf_val (envelope previewed)"
    "canonical_sha256 L (envelope previewed) = Inr (ap_action_fingerprint c)"
    by (auto simp: record_ok_def dest!: sys_inv_record)
  then have "same_action previewed presented"
    by (rule fingerprint_exact [OF assms(3) _ assms(4) _ c(4) assms(6)])
  with c(1,2,3,6) c(5) show ?thesis by simp
qed

theorem consume_exact_binding_witness:
  "\<exists>r m'. consume_for_execution sample_lib (sys_repo run_approved) ''a1'' mail_reordered 20 = (Inr r, m') \<and>
     mail_reordered \<noteq> mail_binding ''hi'' \<and> same_action (mail_binding ''hi'') mail_reordered \<and>
     20 < ap_expires_at r \<and> ap_state r = AS_EXECUTING"
proof -
  have "is_ok (fst (consume_for_execution sample_lib (sys_repo run_approved) ''a1'' mail_reordered 20))" by code_simp
  then obtain r m' where c: "consume_for_execution sample_lib (sys_repo run_approved) ''a1'' mail_reordered 20 = (Inr r, m')"
    by (cases "consume_for_execution sample_lib (sys_repo run_approved) ''a1'' mail_reordered 20") (auto simp: is_ok_iff)
  have "sys_prepared run_approved ''a1'' = Some (mail_binding ''hi'')" by code_simp
  moreover have "wf_val (envelope mail_reordered)"
    by (simp add: envelope_wf mail_binding_def mail_reordered_def wf_dict_def)
  moreover have "mail_reordered \<noteq> mail_binding ''hi''" by code_simp
  ultimately show ?thesis
    using consume_exact_binding [OF run_approved_reachable c sample_float_ok, of "mail_binding ''hi''"] c
    by (auto simp: sample_lib_def)
qed

text \<open>
  \<open>approve\<close> succeeds exactly when the record is waiting, has not expired, the actor is named
  and the nonce is the record's own; it then changes only the state, the approver, the time and
  the version.
\<close>

theorem approve_iff:
  assumes "keyed m"
  shows "approve m i nonce actor now = (Inr r, m') \<longleftrightarrow>
    (\<exists>c. m i = Some c \<and> ap_state c = AS_WAITING_APPROVAL \<and> now < ap_expires_at c \<and> \<not> blank actor \<and>
       nonce = ap_nonce c \<and>
       r = c\<lparr>ap_state := AS_APPROVED, ap_approved_at := Some now, ap_approved_by := Some actor,
             ap_version := ap_version c + 1\<rparr> \<and> m' = m(i \<mapsto> r))"
proof (cases "m i")
  case (Some c)
  with assms have "ap_id c = i" "m (ap_id c) = Some c" by (auto simp: keyed_def)
  with Some show ?thesis
    by (cases "ap_state c") (auto simp: approve_def approve_effect_def service_defs)
qed (simp add: approve_def service_defs)

theorem approve_iff_witness:
  "keyed (sys_repo run_prepared) \<and>
   (\<exists>r m'. approve (sys_repo run_prepared) ''a1'' ''n'' ''me'' 10 = (Inr r, m') \<and> ap_state r = AS_APPROVED) \<and>
   (\<nexists>r m'. approve (sys_repo run_prepared) ''a1'' ''guess'' ''me'' 10 = (Inr r, m'))"
proof -
  define c where "c = the (sys_repo run_prepared ''a1'')"
  have c: "sys_repo run_prepared ''a1'' = Some c" "ap_state c = AS_WAITING_APPROVAL" "ap_nonce c = ''n''"
    "10 < ap_expires_at c" "\<not> blank ''me''"
    unfolding c_def by code_simp+
  then show ?thesis
    using approve_iff [OF run_prepared_keyed, of "''a1''" "''n''" "''me''" 10]
      approve_iff [OF run_prepared_keyed, of "''a1''" "''guess''" "''me''" 10] run_prepared_keyed
    by simp
qed

text \<open>
  C35. Drift burns the approval: presenting an action whose fingerprint differs from the approved
  one fails with the binding mismatch and cancels the record, so that afterwards even the
  originally approved action can no longer be consumed.
\<close>

theorem drift_burns_approval:
  assumes "keyed m" "m i = Some c" "ap_state c = AS_APPROVED" "now < ap_expires_at c"
    and "canonical_sha256 L (envelope b) = Inr f" "f \<noteq> ap_action_fingerprint c"
    and "consume_for_execution L m i b now = (res, m')"
  shows "(\<exists>t. res = Inl (ApprovalBindingMismatchError, t)) \<and>
    (\<exists>d. m' i = Some d \<and> ap_state d = AS_CANCELLED) \<and>
    (\<forall>b' now'. \<exists>t. consume_for_execution L m' i b' now' = (Inl (ApprovalStateError, t), m'))"
proof -
  from assms(1,2) have "ap_id c = i" by (simp add: keyed_def)
  with assms have "res = Inl (ApprovalBindingMismatchError, ''target, payload, attachment or extension version changed'') \<and>
      (\<exists>d. m' i = Some d \<and> ap_state d = AS_CANCELLED)"
    by (auto simp: consume_for_execution_def consume_effect_def service_defs)
  then show ?thesis
    by (auto simp: consume_for_execution_def consume_effect_def service_defs)
qed

theorem drift_burns_approval_witness:
  "\<exists>t m'. consume_for_execution sample_lib (sys_repo run_approved) ''a1'' (mail_binding ''bye'') 20 =
       (Inl (ApprovalBindingMismatchError, t), m') \<and>
     (\<exists>u. consume_for_execution sample_lib m' ''a1'' (mail_binding ''hi'') 21 = (Inl (ApprovalStateError, u), m'))"
proof -
  obtain res m' where c: "consume_for_execution sample_lib (sys_repo run_approved) ''a1'' (mail_binding ''bye'') 20 = (res, m')"
    by fastforce
  define f where "f = projr (canonical_sha256 sample_lib (envelope (mail_binding ''bye'')))"
  have f: "canonical_sha256 sample_lib (envelope (mail_binding ''bye'')) = Inr f" "f \<noteq> ap_action_fingerprint approved_record"
    unfolding f_def by code_simp+
  have "20 < ap_expires_at approved_record" by (simp add: run_approved_record(3) time_units)
  from drift_burns_approval [OF run_approved_keyed run_approved_record(1,2) this f c] c show ?thesis by blast
qed

text \<open>
  C36. Approvals expire: no record of a reachable system lives longer than five minutes after it was
  prepared, and from its expiry on both approving and consuming it fail with the expiry error and
  leave it EXPIRED.
\<close>

theorem approval_expires:
  assumes "approval_reachable L s" "sys_repo s i = Some c" "ap_state c \<in> {AS_WAITING_APPROVAL, AS_APPROVED}"
    and "ap_created_at c + minutes 5 \<le> now"
  shows "(\<exists>t m' d. approve (sys_repo s) i nonce actor now = (Inl (ApprovalExpiredError, t), m') \<and>
            m' i = Some d \<and> ap_state d = AS_EXPIRED) \<and>
    (\<exists>t m' d. consume_for_execution L (sys_repo s) i b now = (Inl (ApprovalExpiredError, t), m') \<and>
            m' i = Some d \<and> ap_state d = AS_EXPIRED)"
proof -
  from reachable_inv [OF assms(1)] assms(2) have "ap_id c = i" "ap_expires_at c \<le> ap_created_at c + MAX_APPROVAL_TTL"
    by (auto simp: sys_inv_def record_ok_def)
  with assms have "ap_id c = i" "ap_expires_at c \<le> now" by (auto simp: MAX_APPROVAL_TTL_def)
  with assms(2,3) show ?thesis
    by (auto simp: approve_def approve_effect_def consume_for_execution_def consume_effect_def service_defs)
qed

theorem approval_expires_witness:
  "\<exists>t m' d. consume_for_execution sample_lib (sys_repo run_approved) ''a1'' (mail_binding ''hi'') (minutes 5) =
       (Inl (ApprovalExpiredError, t), m') \<and> m' ''a1'' = Some d \<and> ap_state d = AS_EXPIRED"
proof -
  have "ap_state approved_record \<in> {AS_WAITING_APPROVAL, AS_APPROVED}"
    and "ap_created_at approved_record + minutes 5 \<le> minutes 5"
    by (simp_all add: run_approved_record)
  from approval_expires [OF run_approved_reachable run_approved_record(1) this] show ?thesis by blast
qed

end
