(* ===== verification/PA_Outbox.thy ===== *)
theory PA_Outbox
  imports PA_Approvals
begin

text \<open>
  \<open>core/jobs/outbox.py\<close> and \<open>infrastructure/memory/outbox.py\<close>: the intent that is written together
  with the consumption of an approval. The whole of \<open>create_with_approval_consumption\<close> runs under
  the outbox's lock; the approval repository is threaded through the calls it makes on the
  approval service, each with the clock reading \<open>now\<close>.
\<close>

section \<open>Intents (core/jobs/outbox.py)\<close>

datatype side_effect_state = SE_PREPARED | SE_EXECUTING | SE_SUCCEEDED | SE_FAILED | SE_UNKNOWN

definition side_effect_terminal :: "side_effect_state \<Rightarrow> bool" where
  "side_effect_terminal s = (s \<in> {SE_SUCCEEDED, SE_FAILED, SE_UNKNOWN})"

record side_effect_intent =
  si_id :: string
  si_task_id :: string
  si_tool_id :: string
  si_idempotency_key :: string
  si_approval_id :: string
  si_canonical_payload_sha256 :: string
  si_state :: side_effect_state
  si_created_at :: time
  si_action_fingerprint :: string
  si_receipt :: "(string \<times> pyval) list"

record outbox =
  ob_intents :: "string \<rightharpoonup> side_effect_intent"
  ob_keys :: "(string \<times> string) set"

definition empty_outbox :: outbox where
  "empty_outbox = \<lparr>ob_intents = Map.empty, ob_keys = {}\<rparr>"

section \<open>Reading the stored action back\<close>

text \<open>\<open>record.action\<close>: \<open>json.loads\<close> of the canonical text; the result is used as a dictionary.\<close>

definition record_action :: "stdlib \<Rightarrow> approval_record \<Rightarrow> (string \<times> pyval) list result" where
  "record_action L r =
     rbind (json_loads L (ap_canonical_action r)) (\<lambda>v.
       case v of VDict d \<Rightarrow> Inr d
       | _ \<Rightarrow> raise AttributeError (py_repr (type_name v) @ '' object has no attribute '' @ py_repr ''get''))"

definition item_str :: "(string \<times> pyval) list \<Rightarrow> string \<Rightarrow> string result" where
  "item_str d k =
     (case dget d k of
        None \<Rightarrow> raise KeyError (py_repr k)
      | Some (VStr s) \<Rightarrow> Inr s
      | Some v \<Rightarrow> raise AttributeError (py_repr (type_name v) @ '' object has no attribute '' @ py_repr ''strip''))"

definition item_int :: "(string \<times> pyval) list \<Rightarrow> string \<Rightarrow> int result" where
  "item_int d k =
     (case dget d k of
        None \<Rightarrow> raise KeyError (py_repr k)
      | Some (VInt i) \<Rightarrow> Inr i
      | Some v \<Rightarrow> raise TypeError (''unsupported operand type '' @ type_name v))"

definition attachment_from :: "pyval \<Rightarrow> attachment result" where
  "attachment_from v =
     (case v of
        VDict d \<Rightarrow>
          rbind (item_str d ''name'') (\<lambda>n. rbind (item_str d ''sha256'') (\<lambda>h.
            rbind (item_int d ''size_bytes'') (\<lambda>z. mk_attachment n h z)))
      | _ \<Rightarrow> raise TypeError (py_repr (type_name v) @ '' object is not subscriptable''))"

definition or_none :: "pyval option \<Rightarrow> pyval" where
  "or_none o' = (case o' of None \<Rightarrow> VNone | Some v \<Rightarrow> v)"

definition binding_from_record :: "stdlib \<Rightarrow> approval_record \<Rightarrow> approval_binding result" where
  "binding_from_record L r =
     rbind (record_action L r) (\<lambda>action.
     rbind (case dget action ''attachments'' of
              Some (VList xs) \<Rightarrow> rmap attachment_from xs
            | Some v \<Rightarrow> if v = VNone then Inr [] else raise TypeError (py_repr (type_name v) @ '' object is not iterable'')
            | None \<Rightarrow> Inr []) (\<lambda>attachments.
     rbind (item_str action ''action_type'') (\<lambda>action_type.
     rbind (item_str action ''task_id'') (\<lambda>task_id.
     rbind (item_str action ''tool_id'') (\<lambda>tool_id.
     rbind (item_str action ''tool_version'') (\<lambda>tool_version.
     rbind (item_str action ''extension_id'') (\<lambda>extension_id.
     rbind (item_str action ''extension_version'') (\<lambda>extension_version.
     check_binding
       \<lparr>ab_action_type = action_type, ab_task_id = task_id, ab_tool_id = tool_id, ab_tool_version = tool_version,
        ab_extension_id = extension_id, ab_extension_version = extension_version,
        ab_target = or_none (dget action ''target''), ab_payload = or_none (dget action ''payload''),
        ab_attachments = attachments,
        ab_form_version = (case dget action ''form_version'' of Some (VStr s) \<Rightarrow> Some s | _ \<Rightarrow> None)\<rparr>))))))))"

section \<open>InMemorySideEffectOutbox\<close>

definition create_with_approval_consumption ::
  "stdlib \<Rightarrow> outbox \<Rightarrow> approval_repo \<Rightarrow> side_effect_intent \<Rightarrow> time \<Rightarrow> unit result \<times> outbox \<times> approval_repo" where
  "create_with_approval_consumption L ob m intent now =
     (if si_action_fingerprint intent = []
      then (raise ValidationError ''side-effect intent requires the complete action fingerprint'', ob, m)
      else if (si_tool_id intent, si_idempotency_key intent) \<in> ob_keys ob
      then (raise ValidationError ''side-effect intent idempotency key was reused'', ob, m)
      else case get_approval m (si_approval_id intent) now True of
        (Inl e, m1) \<Rightarrow> (Inl e, ob, m1)
      | (Inr r, m1) \<Rightarrow>
          if ap_state r = AS_EXPIRED
          then (raise ApprovalExpiredError (''approval expired: '' @ si_approval_id intent), ob, m1)
          else if ap_state r \<noteq> AS_APPROVED
          then (raise ApprovalStateError (''approval '' @ si_approval_id intent @ '' is '' @
                  approval_state_value (ap_state r) @ '', not approved''), ob, m1)
          else case record_action L r of
            Inl e \<Rightarrow> (Inl e, ob, m1)
          | Inr action \<Rightarrow>
              if ap_action_fingerprint r \<noteq> si_action_fingerprint intent \<or>
                 or_none (dget action ''task_id'') \<noteq> VStr (si_task_id intent)
              then (case reject m1 (si_approval_id intent) now (Some ''approved action changed after preview'') of
                      (Inl e, m2) \<Rightarrow> (Inl e, ob, m2)
                    | (Inr _, m2) \<Rightarrow> (raise ApprovalBindingMismatchError
                        ''target, payload, attachment or extension version changed'', ob, m2))
              else case binding_from_record L r of
                Inl e \<Rightarrow> (Inl e, ob, m1)
              | Inr binding \<Rightarrow>
                  (case consume_for_execution L m1 (si_approval_id intent) binding now of
                     (Inl e, m2) \<Rightarrow> (Inl e, ob, m2)
                   | (Inr _, m2) \<Rightarrow>
                       (Inr (), ob\<lparr>ob_keys := insert (si_tool_id intent, si_idempotency_key intent) (ob_keys ob),
                                   ob_intents := (ob_intents ob)(si_id intent \<mapsto> intent)\<rparr>, m2)))"

definition finish_intent ::
  "outbox \<Rightarrow> string \<Rightarrow> side_effect_state \<Rightarrow> (string \<times> pyval) list option \<Rightarrow> unit result \<times> outbox" where
  "finish_intent ob i st receipt =
     (case ob_intents ob i of
        None \<Rightarrow> (raise NotFoundError (''side-effect intent not found: '' @ i), ob)
      | Some intent \<Rightarrow>
          (Inr (), ob\<lparr>ob_intents := (ob_intents ob)(i \<mapsto> intent\<lparr>si_state := st,
             si_receipt := (case receipt of None \<Rightarrow> si_receipt intent | Some r \<Rightarrow> r)\<rparr>)\<rparr>))"

definition or_empty :: "string option \<Rightarrow> string \<Rightarrow> string" where
  "or_empty s d = (case s of None \<Rightarrow> d | Some t \<Rightarrow> if t = [] then d else t)"

text \<open>The terminal call on the approval service that goes with a terminal intent state.\<close>

definition finalize_approval ::
  "approval_repo \<Rightarrow> string \<Rightarrow> side_effect_state \<Rightarrow> string option \<Rightarrow> string option \<Rightarrow> time
   \<Rightarrow> approval_record result \<times> approval_repo" where
  "finalize_approval m approval_id st result_reference failure_reason now =
     (if st = SE_SUCCEEDED then mark_succeeded m approval_id (or_empty result_reference []) now
      else if st = SE_FAILED then mark_failed m approval_id (or_empty failure_reason ''failed'') now
      else mark_unknown m approval_id (or_empty result_reference ''unknown'') now)"

definition finalize ::
  "outbox \<Rightarrow> approval_repo \<Rightarrow> string \<Rightarrow> string \<Rightarrow> side_effect_state \<Rightarrow> string option \<Rightarrow> string option
   \<Rightarrow> (string \<times> pyval) list option \<Rightarrow> time \<Rightarrow> unit result \<times> outbox \<times> approval_repo" where
  "finalize ob m intent_id approval_id st result_reference failure_reason receipt now =
     (case finish_intent ob intent_id st receipt of
        (Inl e, ob') \<Rightarrow> (Inl e, ob', m)
      | (Inr _, ob') \<Rightarrow>
          (case finalize_approval m approval_id st result_reference failure_reason now of
             (Inl e, m') \<Rightarrow> (Inl e, ob', m')
           | (Inr _, m') \<Rightarrow> (Inr (), ob', m')))"

definition mark_succeeded_intent :: "outbox \<Rightarrow> string \<Rightarrow> (string \<times> pyval) list \<Rightarrow> unit result \<times> outbox" where
  "mark_succeeded_intent ob i receipt = finish_intent ob i SE_SUCCEEDED (Some receipt)"

definition mark_failed_intent :: "outbox \<Rightarrow> string \<Rightarrow> string \<Rightarrow> unit result \<times> outbox" where
  "mark_failed_intent ob i error_code = finish_intent ob i SE_FAILED None"

definition mark_unknown_intent :: "outbox \<Rightarrow> string \<Rightarrow> string \<Rightarrow> unit result \<times> outbox" where
  "mark_unknown_intent ob i diagnostic_code = finish_intent ob i SE_UNKNOWN None"

section \<open>The stored action determines the binding\<close>

definition attachments_ok :: "attachment list \<Rightarrow> bool" where
  "attachments_ok xs \<longleftrightarrow> (\<forall>a\<in>set xs. mk_attachment (att_name a) (att_sha256 a) (att_size_bytes a) = Inr a)"

lemma attachment_from_value: "attachments_ok [a] \<Longrightarrow> attachment_from (attachment_value a) = Inr a"
  by (simp add: attachment_from_def attachment_value_def item_str_def item_int_def attachments_ok_def)

lemma attachments_from: "attachments_ok xs \<Longrightarrow> rmap attachment_from (map attachment_value xs) = Inr xs"
  by (induction xs) (auto simp: attachments_ok_def attachment_from_value [unfolded attachments_ok_def, simplified])

text \<open>The binding with its free-form fields in normal form.\<close>

lemma envelope_items:
  assumes "normalize_json ''$'' (envelope b) = Inr u"
  obtains e t p where "u = VDict e"
    "normalize_json ''$.target'' (ab_target b) = Inr t" "normalize_json ''$.payload'' (ab_payload b) = Inr p"
    "dget e ''action_type'' = Some (VStr (ab_action_type b))" "dget e ''task_id'' = Some (VStr (ab_task_id b))"
    "dget e ''tool_id'' = Some (VStr (ab_tool_id b))" "dget e ''tool_version'' = Some (VStr (ab_tool_version b))"
    "dget e ''extension_id'' = Some (VStr (ab_extension_id b))"
    "dget e ''extension_version'' = Some (VStr (ab_extension_version b))"
    "dget e ''target'' = Some t" "dget e ''payload'' = Some p"
    "dget e ''attachments'' = Some (VList (map attachment_value (ab_attachments b)))"
    "dget e ''form_version'' = Some (opt_str (ab_form_version b))"
proof -
  note lookup = normalize_dict_lookup [OF assms [unfolded envelope_def]]
  have wf: "wf_dict [(''action_type'', t1), (''task_id'', t2), (''tool_id'', t3), (''tool_version'', t4),
      (''extension_id'', t5), (''extension_version'', t6), (''target'', t7), (''payload'', t8),
      (''attachments'', t9), (''form_version'', t10)]" for t1 t2 t3 t4 t5 t6 t7 t8 t9 t10 :: pyval
    by (simp add: wf_dict_def)
  obtain e where e: "u = VDict e" using assms by (auto simp: envelope_def rbind_eq_Inr)
  have get: "\<exists>w. dget e k = Some w \<and> normalize_json (''$.'' @ k) v = Inr w"
    if "(k, v) \<in> set [(''action_type'', VStr (ab_action_type b)), (''task_id'', VStr (ab_task_id b)),
      (''tool_id'', VStr (ab_tool_id b)), (''tool_version'', VStr (ab_tool_version b)),
      (''extension_id'', VStr (ab_extension_id b)), (''extension_version'', VStr (ab_extension_version b)),
      (''target'', ab_target b), (''payload'', ab_payload b),
      (''attachments'', VList (map attachment_value (ab_attachments b))),
      (''form_version'', opt_str (ab_form_version b))]" for k v
    using lookup [OF wf that] e by (metis append_Cons append_Nil pyval.inject(7))
  have str: "dget e k = Some (VStr s)" if "\<exists>w. dget e k = Some w \<and> normalize_json p (VStr s) = Inr w" for k s p
    using that by simp
  have norm: "dget e k = Some v" if "\<exists>w. dget e k = Some w \<and> normalize_json p v = Inr w" "normal v" for k v p
    using that normalize_normal [of v p] by simp
  obtain t where t: "dget e ''target'' = Some t" "normalize_json (''$.'' @ ''target'') (ab_target b) = Inr t"
    using get [of "''target''" "ab_target b"] by auto
  obtain p where p: "dget e ''payload'' = Some p" "normalize_json (''$.'' @ ''payload'') (ab_payload b) = Inr p"
    using get [of "''payload''" "ab_payload b"] by auto
  show thesis
  proof (rule that [OF e])
    show "normalize_json ''$.target'' (ab_target b) = Inr t" "normalize_json ''$.payload'' (ab_payload b) = Inr p"
      using t(2) p(2) by simp_all
    show "dget e ''target'' = Some t" "dget e ''payload'' = Some p" by fact+
    show "dget e ''attachments'' = Some (VList (map attachment_value (ab_attachments b)))"
      by (rule norm [OF get attachments_normal]) simp
    show "dget e ''form_version'' = Some (opt_str (ab_form_version b))"
      by (rule norm [OF get opt_str_normal]) simp
  qed (rule str [OF get], simp)+
qed

text \<open>Normalising a dictionary looks at a value only through its own normal form.\<close>

lemma insort_key_pair:
  assumes "list_all2 (\<lambda>x y. fst x = fst y \<and> R x y) xs ys" "fst a = fst b" "R a b"
  shows "list_all2 (\<lambda>x y. fst x = fst y \<and> R x y) (insort_key fst a xs) (insort_key fst b ys)"
  using assms by (induction rule: list_all2_induct) auto

lemma sort_key_pair:
  assumes "list_all2 (\<lambda>x y. fst x = fst y \<and> R x y) xs ys"
  shows "list_all2 (\<lambda>x y. fst x = fst y \<and> R x y) (sort_key fst xs) (sort_key fst ys)"
  using assms by (induction rule: list_all2_induct) (auto simp: insort_key_pair)

lemma rmap_pair: "list_all2 (\<lambda>x y. f x = f y) xs ys \<Longrightarrow> rmap f xs = rmap f ys"
  by (induction rule: list_all2_induct) auto

lemma normalize_dict_pair:
  assumes "list_all2 (\<lambda>x y. fst x = fst y \<and>
      normalize_json (path @ ''.'' @ fst x) (snd x) = normalize_json (path @ ''.'' @ fst x) (snd y)) d e"
  shows "normalize_json path (VDict d) = normalize_json path (VDict e)"
proof -
  have "list_all2 (\<lambda>x y. (case x of (k, v) \<Rightarrow> rbind (normalize_json (path @ ''.'' @ k) v) (\<lambda>u. Inr (k, u))) =
      (case y of (k, v) \<Rightarrow> rbind (normalize_json (path @ ''.'' @ k) v) (\<lambda>u. Inr (k, u)))) (sort_key fst d) (sort_key fst e)"
    by (rule list_all2_mono [OF sort_key_pair [OF assms]]) (auto simp: case_prod_beta')
  from rmap_pair [OF this] show ?thesis by (simp only: normalize_json.simps)
qed

lemma same_action_envelope:
  assumes "same_action b c"
  shows "normalize_json ''$'' (envelope b) = normalize_json ''$'' (envelope c)"
  unfolding envelope_def
  by (rule normalize_dict_pair) (use assms in \<open>simp add: same_action_def\<close>)

lemma same_action_fingerprint:
  "same_action b c \<Longrightarrow> canonical_sha256 L (envelope b) = canonical_sha256 L (envelope c)"
  by (simp only: canonical_sha256_def canonical_json_def same_action_envelope)

text \<open>
  What the outbox rebuilds from the stored text is the prepared binding, with its free-form
  fields in normal form.
\<close>

lemma binding_roundtrip:
  assumes "json_loads_ok L" "wf_val (envelope b)" "canonical_json L (envelope b) = Inr (ap_canonical_action r)"
    and "check_binding b = Inr b" "attachments_ok (ab_attachments b)"
  shows "\<exists>c. binding_from_record L r = Inr c \<and> same_action b c"
    "\<exists>d. record_action L r = Inr d \<and> or_none (dget d ''task_id'') = VStr (ab_task_id b)"
proof -
  from assms(3) obtain u where u: "normalize_json ''$'' (envelope b) = Inr u"
    by (auto simp: canonical_json_def rbind_eq_Inr)
  note loads = json_loads_canonical [OF assms(1-3), unfolded u]
  from envelope_items [OF u] obtain e t p where
    e: "u = VDict e" and t: "normalize_json ''$.target'' (ab_target b) = Inr t"
    and p: "normalize_json ''$.payload'' (ab_payload b) = Inr p"
    and le: "dget e ''action_type'' = Some (VStr (ab_action_type b))" "dget e ''task_id'' = Some (VStr (ab_task_id b))"
    "dget e ''tool_id'' = Some (VStr (ab_tool_id b))" "dget e ''tool_version'' = Some (VStr (ab_tool_version b))"
    "dget e ''extension_id'' = Some (VStr (ab_extension_id b))"
    "dget e ''extension_version'' = Some (VStr (ab_extension_version b))"
    "dget e ''target'' = Some t" "dget e ''payload'' = Some p"
    "dget e ''attachments'' = Some (VList (map attachment_value (ab_attachments b)))"
    "dget e ''form_version'' = Some (opt_str (ab_form_version b))" .
  have act: "record_action L r = Inr e" by (simp add: record_action_def loads e)
  then show "\<exists>d. record_action L r = Inr d \<and> or_none (dget d ''task_id'') = VStr (ab_task_id b)"
    by (simp add: le or_none_def)
  let ?c = "b\<lparr>ab_target := t, ab_payload := p\<rparr>"
  have form: "(case opt_str (ab_form_version b) of VStr s \<Rightarrow> Some s | _ \<Rightarrow> None) = ab_form_version b"
    by (simp add: opt_str_def split: option.splits)
  have eta: "\<lparr>ab_action_type = ab_action_type b, ab_task_id = ab_task_id b, ab_tool_id = ab_tool_id b,
      ab_tool_version = ab_tool_version b, ab_extension_id = ab_extension_id b,
      ab_extension_version = ab_extension_version b, ab_target = t, ab_payload = p,
      ab_attachments = ab_attachments b, ab_form_version = ab_form_version b\<rparr> = ?c" by simp
  have "check_binding ?c = Inr ?c" using assms(4)
    by (auto simp: check_binding_def ensure_def raise_def split: if_splits)
  then have "binding_from_record L r = Inr ?c"
    by (simp add: binding_from_record_def act le attachments_from [OF assms(5)] item_str_def or_none_def form eta)
  moreover have "same_action b ?c"
  proof -
    from assms(2) have w: "wf_val (ab_target b)" "wf_val (ab_payload b)" by (simp_all add: envelope_wf)
    from normalize_json_normal [OF w(1) t] normalize_json_normal [OF w(2) p]
    show ?thesis by (simp add: same_action_def t p normalize_normal)
  qed
  ultimately show "\<exists>c. binding_from_record L r = Inr c \<and> same_action b c" by blast
qed

section \<open>Consuming an approval: the interface of the gateway\<close>

text \<open>
  Both ways of consuming, directly on the service and through the outbox, promise the same: a
  success takes an approved, unexpired record whose fingerprint is the presented one to
  EXECUTING and touches no other record. Then no later consumption of that approval succeeds.
\<close>

locale approval_gate =
  fixes repo :: "'w \<Rightarrow> approval_repo"
    and consume :: "'w \<Rightarrow> string \<Rightarrow> 'a \<Rightarrow> time \<Rightarrow> unit result \<times> 'w"
    and presented :: "'a \<Rightarrow> string option"
  assumes consume_ok: "keyed (repo w) \<Longrightarrow> consume w i a now = (Inr (), w') \<Longrightarrow>
        \<exists>c. repo w i = Some c \<and> ap_state c = AS_APPROVED \<and> now < ap_expires_at c \<and>
          presented a = Some (ap_action_fingerprint c) \<and>
          repo w' = (repo w)(i \<mapsto> c\<lparr>ap_state := AS_EXECUTING, ap_consumed_at := Some now, ap_version := ap_version c + 1\<rparr>)"
    and consume_keyed: "keyed (repo w) \<Longrightarrow> keyed (repo (snd (consume w i a now)))"
begin

lemma no_second_consumption:
  assumes "keyed (repo w)" "consume w i a now = (Inr (), w')"
  shows "\<exists>e w''. consume w' i b later = (Inl e, w'')"
proof -
  have k: "keyed (repo w')" using consume_keyed [OF assms(1), of i a now] assms(2) by simp
  obtain r w'' where r: "consume w' i b later = (r, w'')" by fastforce
  moreover have "r \<noteq> Inr ()"
    using consume_ok [OF assms] consume_ok [OF k, of i b later w''] r by auto
  ultimately show ?thesis by (cases r) auto
qed

end

lemma repo_save_keyed: "keyed m \<Longrightarrow> keyed (snd (repo_save m w v))"
  by (auto simp: repo_save_def keyed_def raise_def Let_def split: option.splits)

lemma perform_keyed: "keyed m \<Longrightarrow> keyed (snd (perform m r eff))"
proof (cases eff)
  case (AE_Save w post)
  assume "keyed m"
  then have "keyed (snd (repo_save m w (ap_version r)))" by (rule repo_save_keyed)
  then show ?thesis by (auto simp: AE_Save split: prod.splits sum.splits)
qed simp_all

lemma with_record_keyed: "keyed m \<Longrightarrow> keyed (snd (with_record m i f))"
  by (auto simp: with_record_def perform_keyed split: sum.splits)

lemma service_keyed:
  assumes "keyed m"
  shows "keyed (snd (get_approval m i now b))" "keyed (snd (reject m i now t))"
    "keyed (snd (consume_for_execution L m i x now))" "keyed (snd (approve m i n a now))"
    "keyed (snd (mark_succeeded m i t' now))" "keyed (snd (mark_failed m i t' now))" "keyed (snd (mark_unknown m i t' now))"
  using with_record_keyed [OF assms]
  by (simp_all add: get_approval_def reject_def consume_for_execution_def approve_def
      mark_succeeded_def mark_failed_def mark_unknown_def)

definition consume_direct :: "stdlib \<Rightarrow> approval_repo \<Rightarrow> string \<Rightarrow> approval_binding \<Rightarrow> time \<Rightarrow> unit result \<times> approval_repo" where
  "consume_direct L m i b now =
     (case consume_for_execution L m i b now of (Inl e, m') \<Rightarrow> (Inl e, m') | (Inr _, m') \<Rightarrow> (Inr (), m'))"

definition binding_digest :: "stdlib \<Rightarrow> approval_binding \<Rightarrow> string option" where
  "binding_digest L b = (case canonical_sha256 L (envelope b) of Inl _ \<Rightarrow> None | Inr f \<Rightarrow> Some f)"

definition consume_outbox ::
  "stdlib \<Rightarrow> outbox \<times> approval_repo \<Rightarrow> string \<Rightarrow> side_effect_intent \<Rightarrow> time \<Rightarrow> unit result \<times> (outbox \<times> approval_repo)" where
  "consume_outbox L w i intent now =
     create_with_approval_consumption L (fst w) (snd w) (intent\<lparr>si_approval_id := i\<rparr>) now"

interpretation direct_gate: approval_gate "\<lambda>m. m" "consume_direct L" "binding_digest L" for L
proof
  fix w i a now w'
  assume "keyed w" "consume_direct L w i a now = (Inr (), w')"
  then obtain r where "consume_for_execution L w i a now = (Inr r, w')"
    by (auto simp: consume_direct_def split: prod.splits sum.splits)
  then show "\<exists>c. w i = Some c \<and> ap_state c = AS_APPROVED \<and> now < ap_expires_at c \<and>
      binding_digest L a = Some (ap_action_fingerprint c) \<and>
      w' = w(i \<mapsto> c\<lparr>ap_state := AS_EXECUTING, ap_consumed_at := Some now, ap_version := ap_version c + 1\<rparr>)"
    by (auto simp: consume_Inr [OF \<open>keyed w\<close>] binding_digest_def)
next
  fix w i a now
  assume "keyed w"
  from service_keyed(3) [OF this, of L i a now] show "keyed (snd (consume_direct L w i a now))"
    by (auto simp: consume_direct_def split: prod.splits sum.splits)
qed

lemma get_approval_some:
  assumes "keyed m" "m i = Some c"
  shows "get_approval m i now True =
    (if is_expirable c \<and> ap_expires_at c \<le> now
     then let d = c\<lparr>ap_state := AS_EXPIRED, ap_completed_at := Some (ap_expires_at c),
                    ap_failure_reason := Some ''approval expired'', ap_version := ap_version c + 1\<rparr>
          in (Inr d, m(i \<mapsto> d))
     else (Inr c, m))"
  using assms by (auto simp: get_approval_def get_effect_def service_defs keyed_def)

lemma create_Inr:
  assumes "keyed m"
  shows "create_with_approval_consumption L ob m intent now = (Inr (), ob', m') \<longleftrightarrow>
    (\<exists>c action b r. m (si_approval_id intent) = Some c \<and> ap_state c = AS_APPROVED \<and> now < ap_expires_at c \<and>
       si_action_fingerprint intent \<noteq> [] \<and> ap_action_fingerprint c = si_action_fingerprint intent \<and>
       (si_tool_id intent, si_idempotency_key intent) \<notin> ob_keys ob \<and>
       record_action L c = Inr action \<and> or_none (dget action ''task_id'') = VStr (si_task_id intent) \<and>
       binding_from_record L c = Inr b \<and>
       consume_for_execution L m (si_approval_id intent) b now = (Inr r, m') \<and>
       ob' = ob\<lparr>ob_keys := insert (si_tool_id intent, si_idempotency_key intent) (ob_keys ob),
                ob_intents := (ob_intents ob)(si_id intent \<mapsto> intent)\<rparr>)"
proof (cases "m (si_approval_id intent)")
  case None
  then show ?thesis
    by (simp add: create_with_approval_consumption_def get_approval_def with_record_def repo_get_def raise_def)
next
  case (Some c)
  note get = get_approval_some [OF assms Some]
  show ?thesis
  proof (cases "is_expirable c \<and> ap_expires_at c \<le> now")
    case True
    then have "\<not> (ap_state c = AS_APPROVED \<and> now < ap_expires_at c)" by simp
    with True Some get show ?thesis
      by (simp add: create_with_approval_consumption_def raise_def Let_def)
  next
    case False
    then have "get_approval m (si_approval_id intent) now True = (Inr c, m)" unfolding get by (simp only: if_False)
    then have "create_with_approval_consumption L ob m intent now =
       (if si_action_fingerprint intent = []
        then (raise ValidationError ''side-effect intent requires the complete action fingerprint'', ob, m)
        else if (si_tool_id intent, si_idempotency_key intent) \<in> ob_keys ob
        then (raise ValidationError ''side-effect intent idempotency key was reused'', ob, m)
        else if ap_state c = AS_EXPIRED
        then (raise ApprovalExpiredError (''approval expired: '' @ si_approval_id intent), ob, m)
        else if ap_state c \<noteq> AS_APPROVED
        then (raise ApprovalStateError (''approval '' @ si_approval_id intent @ '' is '' @
                approval_state_value (ap_state c) @ '', not approved''), ob, m)
        else case record_action L c of
          Inl e \<Rightarrow> (Inl e, ob, m)
        | Inr action \<Rightarrow>
            if ap_action_fingerprint c \<noteq> si_action_fingerprint intent \<or>
               or_none (dget action ''task_id'') \<noteq> VStr (si_task_id intent)
            then (case reject m (si_approval_id intent) now (Some ''approved action changed after preview'') of
                    (Inl e, m2) \<Rightarrow> (Inl e, ob, m2)
                  | (Inr _, m2) \<Rightarrow> (raise ApprovalBindingMismatchError
                      ''target, payload, attachment or extension version changed'', ob, m2))
            else case binding_from_record L c of
              Inl e \<Rightarrow> (Inl e, ob, m)
            | Inr binding \<Rightarrow>
                (case consume_for_execution L m (si_approval_id intent) binding now of
                   (Inl e, m2) \<Rightarrow> (Inl e, ob, m2)
                 | (Inr _, m2) \<Rightarrow>
                     (Inr (), ob\<lparr>ob_keys := insert (si_tool_id intent, si_idempotency_key intent) (ob_keys ob),
                                 ob_intents := (ob_intents ob)(si_id intent \<mapsto> intent)\<rparr>, m2)))"
      by (simp only: create_with_approval_consumption_def prod.case sum.case)
    moreover have "ap_state c = AS_APPROVED \<Longrightarrow> now < ap_expires_at c" using False by (simp add: is_expirable_def)
    ultimately show ?thesis
      using Some by (auto simp: raise_def split: sum.splits prod.splits if_splits)
  qed
qed

lemma create_keyed:
  assumes "keyed m"
  shows "keyed (snd (snd (create_with_approval_consumption L ob m intent now)))"
proof -
  obtain r m1 where g: "get_approval m (si_approval_id intent) now True = (r, m1)" by fastforce
  with service_keyed(1) [OF assms] have k: "keyed m1" by (metis snd_conv)
  have "keyed m2" if "reject m1 (si_approval_id intent) now t = (x, m2)" for t x m2
    using service_keyed(2) [OF k] that by (metis snd_conv)
  moreover have "keyed m2" if "consume_for_execution L m1 (si_approval_id intent) b now = (x, m2)" for b x m2
    using service_keyed(3) [OF k] that by (metis snd_conv)
  ultimately show ?thesis
    using assms k by (auto simp: create_with_approval_consumption_def g split: sum.splits prod.splits)
qed

interpretation outbox_gate: approval_gate snd "consume_outbox L" "\<lambda>a. Some (si_action_fingerprint a)" for L
proof
  fix i a now and w w' :: "outbox \<times> approval_repo"
  assume k: "keyed (snd w)"
  obtain ob m where w': "w' = (ob, m)" by fastforce
  assume "consume_outbox L w i a now = (Inr (), w')"
  then have "create_with_approval_consumption L (fst w) (snd w) (a\<lparr>si_approval_id := i\<rparr>) now = (Inr (), ob, m)"
    by (simp add: consume_outbox_def w')
  then show "\<exists>c. snd w i = Some c \<and> ap_state c = AS_APPROVED \<and> now < ap_expires_at c \<and>
      Some (si_action_fingerprint a) = Some (ap_action_fingerprint c) \<and>
      snd w' = (snd w)(i \<mapsto> c\<lparr>ap_state := AS_EXECUTING, ap_consumed_at := Some now, ap_version := ap_version c + 1\<rparr>)"
    by (auto simp: create_Inr [OF k] consume_Inr [OF k] w')
next
  fix i a now and w :: "outbox \<times> approval_repo"
  assume "keyed (snd w)"
  from create_keyed [OF this] show "keyed (snd (snd (consume_outbox L w i a now)))"
    by (simp add: consume_outbox_def)
qed

section \<open>Properties\<close>

text \<open>
  C17. The outbox creates an intent for a prepared approval exactly when that approval is approved and
  unexpired, the intent names the approved action's complete fingerprint and its task, and the
  idempotency key is unused for the tool. It then marks the approval as executing, remembers the
  key and stores the intent, and changes nothing else.
\<close>

theorem outbox_create_iff:
  assumes "approval_reachable L s" "sys_repo s (si_approval_id intent) = Some c"
    and "sys_prepared s (si_approval_id intent) = Some b" "check_binding b = Inr b" "attachments_ok (ab_attachments b)"
    and "json_loads_ok L" "si_action_fingerprint intent \<noteq> []"
  shows "create_with_approval_consumption L ob (sys_repo s) intent now = (Inr (), ob', m') \<longleftrightarrow>
    ap_state c = AS_APPROVED \<and> now < ap_expires_at c \<and>
    si_action_fingerprint intent = ap_action_fingerprint c \<and> si_task_id intent = ab_task_id b \<and>
    (si_tool_id intent, si_idempotency_key intent) \<notin> ob_keys ob \<and>
    ob' = ob\<lparr>ob_keys := insert (si_tool_id intent, si_idempotency_key intent) (ob_keys ob),
             ob_intents := (ob_intents ob)(si_id intent \<mapsto> intent)\<rparr> \<and>
    m' = (sys_repo s)(si_approval_id intent \<mapsto>
           c\<lparr>ap_state := AS_EXECUTING, ap_consumed_at := Some now, ap_version := ap_version c + 1\<rparr>)"
proof -
  note inv = reachable_inv [OF assms(1)]
  note k = sys_inv_keyed [OF inv]
  from sys_inv_record [OF inv assms(2)] assms(3) have b: "wf_val (envelope b)"
    "canonical_sha256 L (envelope b) = Inr (ap_action_fingerprint c)"
    "canonical_json L (envelope b) = Inr (ap_canonical_action c)"
    by (auto simp: record_ok_def)
  note rt = binding_roundtrip [OF assms(6) b(1,3) assms(4,5)]
  from rt(1) obtain d where d: "binding_from_record L c = Inr d" "same_action b d" by blast
  from rt(2) obtain a where a: "record_action L c = Inr a" "or_none (dget a ''task_id'') = VStr (ab_task_id b)" by blast
  have dg: "canonical_sha256 L (envelope d) = Inr (ap_action_fingerprint c)"
    using same_action_fingerprint [OF d(2)] b(2) by simp
  show ?thesis
    using assms(2,7) by (auto simp: create_Inr [OF k] consume_Inr [OF k] d(1) a dg)
qed

definition mail_intent :: side_effect_intent where
  "mail_intent = \<lparr>si_id = ''x1'', si_task_id = ''t1'', si_tool_id = ''mail.send'', si_idempotency_key = ''k'',
     si_approval_id = ''a1'', si_canonical_payload_sha256 = ''h'', si_state = SE_PREPARED, si_created_at = 15,
     si_action_fingerprint = ap_action_fingerprint approved_record, si_receipt = []\<rparr>"

lemma loads_dumps: "json_dumps loads_lib sk v = json_dumps sample_lib sk v"
proof (induction sample_lib sk v rule: json_dumps.induct)
  case (4 sk f)
  then show ?case by (simp add: loads_lib_def)
next
  case (8 sk d)
  then show ?case
    by (simp only: json_dumps.simps) (intro arg_cong2 [where f = rbind] rmap_cong refl, auto)
qed (simp_all cong: rmap_cong)

lemma loads_canonical: "canonical_json loads_lib v = canonical_json sample_lib v"
  "canonical_sha256 loads_lib v = canonical_sha256 sample_lib v"
  by (simp_all add: canonical_json_def canonical_sha256_def loads_dumps) (simp add: loads_lib_def)

lemma loads_prepare: "prepare loads_lib = prepare sample_lib"
  by (intro ext) (simp only: prepare_def loads_canonical)

lemma loads_run: "approval_reachable loads_lib run_approved"
proof -
  have "approval_reachable loads_lib (do_prepare loads_lib (mail_binding ''hi'') 0 (minutes 5) ''a1'' ''n'' sys_init)"
  proof (rule reachable_prepare [OF reachable_init mail_wf])
    have "is_ok (fst (prepare sample_lib (sys_repo sys_init) (mail_binding ''hi'') (Aware 0) (minutes 5) ''a1'' ''n''))" by code_simp
    then show "is_ok (fst (prepare loads_lib (sys_repo sys_init) (mail_binding ''hi'') (Aware 0) (minutes 5) ''a1'' ''n''))"
      by (simp only: loads_prepare)
  qed
  then have "approval_reachable loads_lib run_prepared"
    by (simp only: run_prepared_def do_prepare_def loads_prepare)
  then have "approval_reachable loads_lib (do_write (do_read loads_lib ''a1'' (Op_Approve 10 ''n'' ''me'') run_prepared))"
    by (intro reachable_write reachable_read)
  then show ?thesis by (simp only: run_approved_def do_read_def op_effect.simps)
qed

theorem outbox_create_iff_witness:
  "\<exists>ob' m' d. create_with_approval_consumption loads_lib empty_outbox (sys_repo run_approved) mail_intent 20 = (Inr (), ob', m') \<and>
     m' ''a1'' = Some d \<and> ap_state d = AS_EXECUTING \<and> ob_intents ob' ''x1'' = Some mail_intent"
proof -
  let ?ob = "empty_outbox\<lparr>ob_keys := insert (si_tool_id mail_intent, si_idempotency_key mail_intent) (ob_keys empty_outbox),
      ob_intents := (ob_intents empty_outbox)(si_id mail_intent \<mapsto> mail_intent)\<rparr>"
  let ?d = "approved_record\<lparr>ap_state := AS_EXECUTING, ap_consumed_at := Some 20, ap_version := ap_version approved_record + 1\<rparr>"
  have prep: "sys_prepared run_approved ''a1'' = Some (mail_binding ''hi'')" by code_simp
  have b: "check_binding (mail_binding ''hi'') = Inr (mail_binding ''hi'')" "attachments_ok (ab_attachments (mail_binding ''hi''))"
    by (code_simp, simp add: attachments_ok_def mail_binding_def)
  have fp: "si_action_fingerprint mail_intent \<noteq> []" by code_simp
  have id: "si_approval_id mail_intent = ''a1''" by (simp add: mail_intent_def)
  have "create_with_approval_consumption loads_lib empty_outbox (sys_repo run_approved) mail_intent 20 =
      (Inr (), ?ob, (sys_repo run_approved)(si_approval_id mail_intent \<mapsto> ?d))"
    by (subst outbox_create_iff [OF loads_run, where b = "mail_binding ''hi''" and c = approved_record])
       (simp_all add: id prep b fp loads_lib_ok run_approved_record time_units, simp add: mail_intent_def mail_binding_def empty_outbox_def)
  then show ?thesis
    by (intro exI [of _ ?ob] exI [of _ "(sys_repo run_approved)(si_approval_id mail_intent \<mapsto> ?d)"] exI [of _ ?d])
       (simp add: id, simp add: mail_intent_def)
qed

end
