(* ===== verification/PA_Gateway.thy ===== *)
theory PA_Gateway
  imports PA_Tools PA_Outbox
begin

text \<open>
  \<open>core/tools/gateway.py\<close>: the only path from an agent's plan to a tool side effect. One call of
  \<open>invoke\<close> is three phases, between which other calls may run: admission (up to and including the
  consumption of the approval and the audit of the intent), the second policy check with the
  executor, and the recording of the outcome.

  The executor is outside the sources: what it may do to the gateway is the datatype
  \<open>exec_result\<close>. Values drawn from \<open>uuid4\<close> and \<open>token_urlsafe\<close> are the record \<open>draws\<close>; the answers
  of the kill-switch probe and of the notifier are arguments.
\<close>

section \<open>Data\<close>

datatype exec_result =
    ER_Return pyval
  | ER_Unknown string string
  | ER_Timeout
  | ER_UserAction string
  | ER_Unavailable string string
  | ER_Definitive string bool
  | ER_Cancelled
  | ER_Other string

record exec_context =
  ec_attempt_id :: string
  ec_task_id :: string
  ec_idempotency_key :: string
  ec_approval_id :: "string option"

record audit_event =
  au_event_type :: string
  au_attempt_id :: string
  au_task_id :: string
  au_tool_id :: string
  au_tool_version :: string
  au_extension_id :: string
  au_risk :: string
  au_occurred_at :: time
  au_detail :: "(string \<times> pyval) list"

record draws =
  dr_approval_id :: string
  dr_nonce :: string
  dr_intent_id :: string
  dr_key :: string
  dr_attempt_id :: string

text \<open>The collaborators of the gateway and, as a ghost field, the calls the executor received.\<close>

record gateway =
  gw_snapshot :: registry_snapshot
  gw_policy :: tool_policy
  gw_approvals :: approval_repo
  gw_outbox :: "outbox option"
  gw_audit :: "audit_event list"
  gw_executed :: "(tool_descriptor \<times> pyval \<times> exec_context) list"

definition append_audit ::
  "gateway \<Rightarrow> string \<Rightarrow> tool_descriptor \<Rightarrow> tool_call \<Rightarrow> exec_context \<Rightarrow> time \<Rightarrow> (string \<times> pyval) list \<Rightarrow> gateway" where
  "append_audit gw event d c ctx now detail =
     gw\<lparr>gw_audit := gw_audit gw @
       [\<lparr>au_event_type = event, au_attempt_id = ec_attempt_id ctx, au_task_id = tc_task_id c,
         au_tool_id = td_id d, au_tool_version = td_version d, au_extension_id = td_extension_id d,
         au_risk = risk_value (td_risk d), au_occurred_at = now, au_detail = detail\<rparr>]\<rparr>"

definition audit_outcome ::
  "gateway \<Rightarrow> tool_descriptor \<Rightarrow> tool_call \<Rightarrow> exec_context \<Rightarrow> string \<Rightarrow> string \<Rightarrow> time \<Rightarrow> gateway" where
  "audit_outcome gw d c ctx event message now =
     append_audit gw event d c ctx now [(''message'', VStr (take 500 message))]"

section \<open>Admission\<close>

definition or_default :: "string option \<Rightarrow> string option \<Rightarrow> string option" where
  "or_default a b = (case a of Some s \<Rightarrow> if s = [] then b else a | None \<Rightarrow> b)"

definition binding_for :: "tool_descriptor \<Rightarrow> tool_call \<Rightarrow> approval_binding option result" where
  "binding_for d c =
     (if td_risk d \<noteq> EXTERNAL_WRITE then Inr None
      else if tc_target c = VNone then raise ValidationError ''R2 external writes require an explicit target''
      else rbind (check_binding
        \<lparr>ab_action_type = td_id d, ab_task_id = tc_task_id c, ab_tool_id = td_id d, ab_tool_version = td_version d,
         ab_extension_id = td_extension_id d,
         ab_extension_version = the (or_default (td_extension_version d) (Some (td_version d))),
         ab_target = tc_target c, ab_payload = tc_arguments c, ab_attachments = tc_attachments c,
         ab_form_version = tc_form_version c\<rparr>) (\<lambda>b. Inr (Some b)))"

definition intent_for ::
  "stdlib \<Rightarrow> draws \<Rightarrow> time \<Rightarrow> tool_descriptor \<Rightarrow> tool_call \<Rightarrow> approval_binding \<Rightarrow> side_effect_intent result" where
  "intent_for L dr now d c b =
     rbind (canonical_sha256 L (tc_arguments c)) (\<lambda>payload_digest.
     rbind (canonical_sha256 L (envelope b)) (\<lambda>digest. Inr
       \<lparr>si_id = dr_intent_id dr, si_task_id = tc_task_id c, si_tool_id = td_id d,
        si_idempotency_key = the (or_default (or_default (tc_idempotency_key c) (tc_approval_id c)) (Some (dr_key dr))),
        si_approval_id = the (or_default (tc_approval_id c) (Some [])),
        si_canonical_payload_sha256 = payload_digest, si_state = SE_PREPARED, si_created_at = now,
        si_action_fingerprint = digest, si_receipt = []\<rparr>))"

definition preflight ::
  "stdlib \<Rightarrow> gateway \<Rightarrow> bool \<Rightarrow> tool_call \<Rightarrow> (tool_descriptor \<times> approval_binding option) result" where
  "preflight L gw frozen c =
     rbind (resolve (gw_snapshot gw) (tc_tool_id c) (tc_tool_version c)) (\<lambda>d.
     rbind (validate_json_schema L (tc_arguments c) (td_input_schema d) ''$'') (\<lambda>_.
     rbind (policy_check (gw_policy gw) frozen d c) (\<lambda>_.
     rbind (binding_for d c) (\<lambda>b. Inr (d, b)))))"

datatype admission =
    Answered tool_outcome
  | Raised exn
  | Admitted tool_descriptor exec_context "side_effect_intent option"

definition domain_failure :: "exn \<Rightarrow> admission" where
  "domain_failure e =
     (if isa (fst e) DomainError then Answered (outcome_failed (exn_code (fst e) @ '': '' @ snd e) False) else Raised e)"

definition start_attempt ::
  "draws \<Rightarrow> time \<Rightarrow> tool_descriptor \<Rightarrow> tool_call \<Rightarrow> side_effect_intent option \<Rightarrow> gateway \<Rightarrow> admission \<times> gateway" where
  "start_attempt dr now d c intent gw =
     (let ctx = \<lparr>ec_attempt_id = dr_attempt_id dr, ec_task_id = tc_task_id c,
                 ec_idempotency_key = the (or_default (or_default (tc_idempotency_key c) (tc_approval_id c)) (Some (dr_attempt_id dr))),
                 ec_approval_id = tc_approval_id c\<rparr>
      in (Admitted d ctx intent,
          append_audit gw ''INTENT_RECORDED'' d c ctx now [(''approval_id'', opt_str (tc_approval_id c))]))"

text \<open>\<open>notify\<close> is None without a notifier, Some False when the notification raised.\<close>

definition request_approval ::
  "stdlib \<Rightarrow> draws \<Rightarrow> time \<Rightarrow> bool option \<Rightarrow> approval_binding \<Rightarrow> gateway \<Rightarrow> admission \<times> gateway" where
  "request_approval L dr now notify b gw =
     (case prepare L (gw_approvals gw) b (Aware now) MAX_APPROVAL_TTL (dr_approval_id dr) (dr_nonce dr) of
        (Inl e, m) \<Rightarrow> (Raised e, gw\<lparr>gw_approvals := m\<rparr>)
      | (Inr r, m) \<Rightarrow>
          (Answered ((outcome OK_APPROVAL_REQUIRED)
             \<lparr>to_approval_id := Some (ap_id r), to_reference_id := Some (ap_id r),
              to_message := Some (''exact approval is required before this action'' @
                (if notify = Some False then ''; notification delivery is unconfirmed'' else []))\<rparr>),
           gw\<lparr>gw_approvals := m\<rparr>))"

definition consume_approval ::
  "stdlib \<Rightarrow> draws \<Rightarrow> time \<Rightarrow> tool_descriptor \<Rightarrow> tool_call \<Rightarrow> approval_binding \<Rightarrow> string \<Rightarrow> gateway
   \<Rightarrow> side_effect_intent option result \<times> gateway" where
  "consume_approval L dr now d c b approval_id gw =
     (case gw_outbox gw of
        Some ob \<Rightarrow>
          (case intent_for L dr now d c b of
             Inl e \<Rightarrow> (Inl e, gw)
           | Inr intent \<Rightarrow>
               (case create_with_approval_consumption L ob (gw_approvals gw) intent now of
                  (Inl e, ob', m) \<Rightarrow> (Inl e, gw\<lparr>gw_outbox := Some ob', gw_approvals := m\<rparr>)
                | (Inr _, ob', m) \<Rightarrow> (Inr (Some intent), gw\<lparr>gw_outbox := Some ob', gw_approvals := m\<rparr>)))
      | None \<Rightarrow>
          (case consume_for_execution L (gw_approvals gw) approval_id b now of
             (Inl e, m) \<Rightarrow> (Inl e, gw\<lparr>gw_approvals := m\<rparr>)
           | (Inr _, m) \<Rightarrow> (Inr None, gw\<lparr>gw_approvals := m\<rparr>)))"

definition admit ::
  "stdlib \<Rightarrow> bool \<Rightarrow> draws \<Rightarrow> time \<Rightarrow> bool option \<Rightarrow> tool_call \<Rightarrow> gateway \<Rightarrow> admission \<times> gateway" where
  "admit L frozen dr now notify c gw =
     (case preflight L gw frozen c of
        Inl e \<Rightarrow> (domain_failure e, gw)
      | Inr (d, None) \<Rightarrow> start_attempt dr now d c None gw
      | Inr (d, Some b) \<Rightarrow>
          (case tc_approval_id c of
             None \<Rightarrow> request_approval L dr now notify b gw
           | Some approval_id \<Rightarrow>
               (case consume_approval L dr now d c b approval_id gw of
                  (Inl e, gw') \<Rightarrow> (domain_failure e, gw')
                | (Inr intent, gw') \<Rightarrow> start_attempt dr now d c intent gw')))"

section \<open>Execution\<close>

text \<open>The second policy check; only if it passes does the executor receive the call.\<close>

definition run_executor ::
  "(tool_descriptor \<Rightarrow> pyval \<Rightarrow> exec_context \<Rightarrow> exec_result) \<Rightarrow> bool \<Rightarrow> tool_descriptor \<Rightarrow> tool_call \<Rightarrow> exec_context
   \<Rightarrow> gateway \<Rightarrow> exec_result \<times> gateway" where
  "run_executor execute frozen d c ctx gw =
     (case policy_check (gw_policy gw) frozen d c of
        Inl _ \<Rightarrow> (ER_Definitive ''host policy changed before execution'' False, gw)
      | Inr _ \<Rightarrow> (execute d (tc_arguments c) ctx,
                  gw\<lparr>gw_executed := gw_executed gw @ [(d, tc_arguments c, ctx)]\<rparr>))"

section \<open>Recording the outcome\<close>

definition finalize_external ::
  "gateway \<Rightarrow> string \<Rightarrow> side_effect_intent option \<Rightarrow> side_effect_state \<Rightarrow> string option \<Rightarrow> string option
   \<Rightarrow> (string \<times> pyval) list option \<Rightarrow> time \<Rightarrow> unit result \<times> gateway" where
  "finalize_external gw approval_id intent st result_reference failure_reason receipt now =
     (case (intent, gw_outbox gw) of
        (Some i, Some ob) \<Rightarrow>
          (case finalize ob (gw_approvals gw) (si_id i) approval_id st result_reference failure_reason receipt now of
             (r, ob', m) \<Rightarrow> (r, gw\<lparr>gw_outbox := Some ob', gw_approvals := m\<rparr>))
      | _ \<Rightarrow>
          (case finalize_approval (gw_approvals gw) approval_id st result_reference failure_reason now of
             (Inl e, m) \<Rightarrow> (Inl e, gw\<lparr>gw_approvals := m\<rparr>)
           | (Inr _, m) \<Rightarrow> (Inr (), gw\<lparr>gw_approvals := m\<rparr>)))"

definition mark_unknown_external ::
  "gateway \<Rightarrow> tool_call \<Rightarrow> string \<Rightarrow> side_effect_intent option \<Rightarrow> time \<Rightarrow> unit result \<times> gateway" where
  "mark_unknown_external gw c reference_id intent now =
     (case tc_approval_id c of
        None \<Rightarrow> (Inr (), gw)
      | Some a \<Rightarrow> finalize_external gw a intent SE_UNKNOWN (Some reference_id) None None now)"

definition mark_definitive_external_failure ::
  "gateway \<Rightarrow> tool_call \<Rightarrow> string \<Rightarrow> side_effect_intent option \<Rightarrow> time \<Rightarrow> unit result \<times> gateway" where
  "mark_definitive_external_failure gw c reason intent now =
     (case tc_approval_id c of
        None \<Rightarrow> (Inr (), gw)
      | Some a \<Rightarrow> finalize_external gw a intent SE_FAILED None (Some reason) None now)"

definition finish_unknown ::
  "gateway \<Rightarrow> tool_descriptor \<Rightarrow> tool_call \<Rightarrow> exec_context \<Rightarrow> string \<Rightarrow> string \<Rightarrow> side_effect_intent option \<Rightarrow> time
   \<Rightarrow> tool_outcome result \<times> gateway" where
  "finish_unknown gw d c ctx reference_id message intent now =
     sbind (if td_risk d = EXTERNAL_WRITE \<and> tc_approval_id c \<noteq> None
            then mark_unknown_external gw c reference_id intent now else (Inr (), gw)) (\<lambda>_ gw'.
       (Inr (outcome_unknown reference_id (Some message)),
        audit_outcome gw' d c ctx ''OUTCOME_UNKNOWN'' message now))"

definition finish_failed ::
  "gateway \<Rightarrow> tool_descriptor \<Rightarrow> tool_call \<Rightarrow> exec_context \<Rightarrow> string \<Rightarrow> bool \<Rightarrow> time \<Rightarrow> tool_outcome result \<times> gateway" where
  "finish_failed gw d c ctx message retryable now =
     (Inr (outcome_failed message retryable), audit_outcome gw d c ctx ''FAILED'' message now)"

definition checked_result :: "stdlib \<Rightarrow> tool_descriptor \<Rightarrow> pyval \<Rightarrow> pyval result" where
  "checked_result L d raw =
     rbind (sanitize_result L default_max_result_bytes raw) (\<lambda>res.
       rbind (validate_json_schema L res (td_output_schema d) ''$'') (\<lambda>_. Inr res))"

definition finish_other ::
  "gateway \<Rightarrow> tool_descriptor \<Rightarrow> tool_call \<Rightarrow> exec_context \<Rightarrow> string \<Rightarrow> side_effect_intent option \<Rightarrow> time
   \<Rightarrow> tool_outcome result \<times> gateway" where
  "finish_other gw d c ctx exn_type intent now =
     (if td_risk d = EXTERNAL_WRITE
      then finish_unknown gw d c ctx (''unknown:'' @ ec_attempt_id ctx)
             ''executor failed after external execution began; outcome is unknown'' intent now
      else finish_failed gw d c ctx (''executor error: '' @ exn_type) True now)"

definition finish_success ::
  "stdlib \<Rightarrow> gateway \<Rightarrow> tool_descriptor \<Rightarrow> tool_call \<Rightarrow> exec_context \<Rightarrow> pyval \<Rightarrow> side_effect_intent option \<Rightarrow> time
   \<Rightarrow> tool_outcome result \<times> gateway" where
  "finish_success L gw d c ctx res intent now =
     (case json_dumps L True res of
        Inl e \<Rightarrow> (Inl e, gw)
      | Inr text \<Rightarrow>
          (let reference = ''result:'' @ sha256_hex L text in
           sbind (case tc_approval_id c of
                    Some a \<Rightarrow> if td_risk d = EXTERNAL_WRITE
                      then finalize_external gw a intent SE_SUCCEEDED (Some reference) None
                             (Some [(''reference'', VStr reference)]) now
                      else (Inr (), gw)
                  | None \<Rightarrow> (Inr (), gw)) (\<lambda>_ gw'.
             (Inr ((outcome OK_SUCCESS)\<lparr>to_result := res, to_reference_id := Some reference\<rparr>),
              audit_outcome gw' d c ctx ''SUCCEEDED'' reference now))))"

definition record_outcome ::
  "stdlib \<Rightarrow> tool_descriptor \<Rightarrow> tool_call \<Rightarrow> exec_context \<Rightarrow> side_effect_intent option \<Rightarrow> time \<Rightarrow> exec_result \<Rightarrow> gateway
   \<Rightarrow> tool_outcome result \<times> gateway" where
  "record_outcome L d c ctx intent now r gw =
     (let external = (td_risk d = EXTERNAL_WRITE) in
      case r of
        ER_Return raw \<Rightarrow>
          (case checked_result L d raw of
             Inl e \<Rightarrow> finish_other gw d c ctx (exn_name (fst e)) intent now
           | Inr res \<Rightarrow> finish_success L gw d c ctx res intent now)
      | ER_Unknown reference_id message \<Rightarrow> finish_unknown gw d c ctx reference_id message intent now
      | ER_Timeout \<Rightarrow>
          if external
          then finish_unknown gw d c ctx (''unknown:'' @ ec_attempt_id ctx)
                 ''external action timed out after execution began'' intent now
          else finish_failed gw d c ctx
                 (''tool timed out after '' @ format_g L (td_timeout_seconds d) @ '' seconds'') True now
      | ER_UserAction message \<Rightarrow>
          sbind (mark_definitive_external_failure gw c message intent now) (\<lambda>_ gw'.
            (Inr ((outcome OK_USER_ACTION_REQUIRED)\<lparr>to_message := Some message, to_reference_id := Some (ec_attempt_id ctx)\<rparr>),
             audit_outcome gw' d c ctx ''USER_ACTION_REQUIRED'' message now))
      | ER_Unavailable extension_id message \<Rightarrow>
          sbind (mark_definitive_external_failure gw c message intent now) (\<lambda>_ gw'.
            (Inr ((outcome OK_EXTENSION_UNAVAILABLE)\<lparr>to_message := Some message, to_extension_id := Some extension_id,
                    to_reference_id := Some (ec_attempt_id ctx)\<rparr>),
             audit_outcome gw' d c ctx ''EXTENSION_UNAVAILABLE'' message now))
      | ER_Definitive message retryable \<Rightarrow>
          sbind (mark_definitive_external_failure gw c message intent now) (\<lambda>_ gw'.
            finish_failed gw' d c ctx message (retryable \<and> \<not> external) now)
      | ER_Cancelled \<Rightarrow>
          sbind (if external then mark_unknown_external gw c (''unknown:'' @ ec_attempt_id ctx) intent now else (Inr (), gw))
            (\<lambda>_ gw'. (raise CancelledError [], gw'))
      | ER_Other exn_type \<Rightarrow> finish_other gw d c ctx exn_type intent now)"

section \<open>invoke\<close>

definition invoke ::
  "stdlib \<Rightarrow> (tool_descriptor \<Rightarrow> pyval \<Rightarrow> exec_context \<Rightarrow> exec_result) \<Rightarrow> bool \<Rightarrow> bool \<Rightarrow> draws \<Rightarrow> time \<Rightarrow> time
   \<Rightarrow> bool option \<Rightarrow> tool_call \<Rightarrow> gateway \<Rightarrow> tool_outcome result \<times> gateway" where
  "invoke L execute frozen frozen' dr now later notify c gw =
     (case admit L frozen dr now notify c gw of
        (Answered out, gw') \<Rightarrow> (Inr out, gw')
      | (Raised e, gw') \<Rightarrow> (Inl e, gw')
      | (Admitted d ctx intent, gw') \<Rightarrow>
          (case run_executor execute frozen' d c ctx gw' of
             (r, gw'') \<Rightarrow> record_outcome L d c ctx intent later r gw''))"

section \<open>Interleaved calls\<close>

text \<open>
  The gateway with the attempts that were admitted and not yet executed, and those whose executor
  has answered and whose outcome is not yet recorded. Any number of calls may be in each phase;
  between the phases the user decides approvals, and registry and policy change.
\<close>

type_synonym attempt = "tool_descriptor \<times> tool_call \<times> exec_context \<times> side_effect_intent option"

record gw_sys =
  gs_gateway :: gateway
  gs_open :: "attempt list"
  gs_done :: "(attempt \<times> exec_result) list"

inductive gateway_step :: "stdlib \<Rightarrow> gw_sys \<Rightarrow> gw_sys \<Rightarrow> bool" for L where
  refuse_step:
    "admit L frozen dr now notify c (gs_gateway s) = (adm, gw') \<Longrightarrow> \<nexists>d ctx i. adm = Admitted d ctx i \<Longrightarrow>
     gateway_step L s (s\<lparr>gs_gateway := gw'\<rparr>)"
| admit_step:
    "admit L frozen dr now notify c (gs_gateway s) = (Admitted d ctx i, gw') \<Longrightarrow>
     gateway_step L s (s\<lparr>gs_gateway := gw', gs_open := (d, c, ctx, i) # gs_open s\<rparr>)"
| execute_step:
    "gs_open s = xs @ (d, c, ctx, i) # ys \<Longrightarrow> run_executor execute frozen d c ctx (gs_gateway s) = (r, gw') \<Longrightarrow>
     gateway_step L s (s\<lparr>gs_gateway := gw', gs_open := xs @ ys, gs_done := ((d, c, ctx, i), r) # gs_done s\<rparr>)"
| record_step:
    "gs_done s = xs @ ((d, c, ctx, i), r) # ys \<Longrightarrow> record_outcome L d c ctx i now r (gs_gateway s) = (res, gw') \<Longrightarrow>
     gateway_step L s (s\<lparr>gs_gateway := gw', gs_done := xs @ ys\<rparr>)"
| user_step:
    "gateway_step L s (s\<lparr>gs_gateway := (gs_gateway s)\<lparr>gw_approvals :=
       snd (with_record (gw_approvals (gs_gateway s)) j (op_effect L call))\<rparr>\<rparr>)"
| config_step:
    "gateway_step L s (s\<lparr>gs_gateway := (gs_gateway s)\<lparr>gw_snapshot := snap, gw_policy := pol\<rparr>\<rparr>)"

definition gateway_start :: "gateway \<Rightarrow> gw_sys" where
  "gateway_start gw = \<lparr>gs_gateway = gw, gs_open = [], gs_done = []\<rparr>"

definition gateway_reachable :: "stdlib \<Rightarrow> gateway \<Rightarrow> gw_sys \<Rightarrow> bool" where
  "gateway_reachable L gw s = (gateway_step L)\<^sup>*\<^sup>* (gateway_start gw) s"

section \<open>Approval records only move forward\<close>

definition advances :: "approval_repo \<Rightarrow> approval_repo \<Rightarrow> bool" where
  "advances m m' \<longleftrightarrow> keyed m' \<and>
     (\<forall>i c. m i = Some c \<longrightarrow> (\<exists>d. m' i = Some d \<and> approval_rank (ap_state c) \<le> approval_rank (ap_state d) \<and>
        ap_action_fingerprint d = ap_action_fingerprint c))"

lemma advances_refl: "keyed m \<Longrightarrow> advances m m"
  by (simp add: advances_def)

lemma advances_at:
  assumes "advances m m'" "m i = Some c"
  obtains d where "m' i = Some d" "approval_rank (ap_state c) \<le> approval_rank (ap_state d)"
    "ap_action_fingerprint d = ap_action_fingerprint c"
  using assms unfolding advances_def by blast

lemma advances_trans:
  assumes "advances m m'" "advances m' m''"
  shows "advances m m''"
  unfolding advances_def
proof (intro conjI allI impI)
  show "keyed m''" using assms(2) by (simp add: advances_def)
  fix i c
  assume "m i = Some c"
  from advances_at [OF assms(1) this] obtain d where
    d: "m' i = Some d" "approval_rank (ap_state c) \<le> approval_rank (ap_state d)" "ap_action_fingerprint d = ap_action_fingerprint c" .
  from advances_at [OF assms(2) d(1)] obtain e where
    e: "m'' i = Some e" "approval_rank (ap_state d) \<le> approval_rank (ap_state e)" "ap_action_fingerprint e = ap_action_fingerprint d" .
  with d show "\<exists>e. m'' i = Some e \<and> approval_rank (ap_state c) \<le> approval_rank (ap_state e) \<and>
      ap_action_fingerprint e = ap_action_fingerprint c" by auto
qed

lemma advances_keyed: "advances m m' \<Longrightarrow> keyed m'"
  by (simp add: advances_def)

lemma with_record_advances:
  assumes "keyed m" "\<And>r. legal_effect r (f r)"
  shows "advances m (snd (with_record m i f))"
proof (cases "m i")
  case None
  then show ?thesis by (simp add: with_record_def repo_get_def raise_def advances_refl assms(1))
next
  case (Some r)
  with assms(1) have id: "ap_id r = i" by (simp add: keyed_def)
  obtain res m' where p: "perform m r (f r) = (res, m')" by fastforce
  then have eq: "snd (with_record m i f) = m'" by (simp add: with_record_def repo_get_def Some)
  have k: "keyed m'" using perform_keyed [OF assms(1), of r "f r"] p by simp
  from p show ?thesis
  proof (cases rule: perform_cases)
    case unchanged
    with eq assms(1) show ?thesis by (simp add: advances_refl)
  next
    case (saved w post u)
    with assms(2) [of r] have w: "ap_id w = i" "ap_state w \<in> approval_allowed (ap_state r)"
      "ap_action_fingerprint w = ap_action_fingerprint r" by (simp_all add: id)
    from saved(2) have u: "u = w\<lparr>ap_version := ap_version r + 1\<rparr>" "m' = m(ap_id w \<mapsto> u)" by (simp_all add: repo_save_Inr)
    with w approval_policy.forward [OF w(2)] Some k eq show ?thesis by (auto simp: advances_def)
  qed
qed

lemma op_advances: "keyed m \<Longrightarrow> advances m (snd (with_record m i (op_effect L c)))"
  by (rule with_record_advances [OF _ op_effect_legal])

lemma op_effect_eta:
  "op_effect L (Op_Get now b) = get_effect now b" "op_effect L (Op_Reject now t) = reject_effect now t"
  "op_effect L (Op_Consume now x) = consume_effect L now x"
  "op_effect L (Op_Succeeded now u) = finish_effect AS_SUCCEEDED now (Some u) None"
  "op_effect L (Op_Failed now u) = finish_effect AS_FAILED now None (Some u)"
  "op_effect L (Op_Unknown now u) = finish_effect AS_UNKNOWN now (Some u) None"
  by (simp_all add: fun_eq_iff)

lemma service_advances:
  assumes "keyed m"
  shows "advances m (snd (get_approval m i now b))" "advances m (snd (reject m i now t))"
    "advances m (snd (consume_for_execution L m i x now))"
    "advances m (snd (mark_succeeded m i t' now))" "advances m (snd (mark_failed m i t' now))" "advances m (snd (mark_unknown m i t' now))"
  using op_advances [OF assms, of i L "Op_Get now b"] op_advances [OF assms, of i L "Op_Reject now t"]
    op_advances [OF assms, of i L "Op_Consume now x"] op_advances [OF assms, of i L "Op_Succeeded now t'"]
    op_advances [OF assms, of i L "Op_Failed now t'"] op_advances [OF assms, of i L "Op_Unknown now t'"]
  by (simp_all only: op_effect_eta get_approval_def reject_def consume_for_execution_def mark_succeeded_def mark_failed_def
      mark_unknown_def)

lemma prepare_advances: "keyed m \<Longrightarrow> advances m (snd (prepare L m b now ttl uid nonce))"
  by (auto simp: prepare_def repo_create_def raise_def advances_def keyed_def rbind_eq_Inr
      split: datetime.splits sum.splits)

lemma snd_snd_case:
  "snd (snd (case x of (Inl e, m2) \<Rightarrow> (f e m2, h e m2, m2) | (Inr y, m2) \<Rightarrow> (g y m2, k y m2, m2))) = snd x"
  by (auto split: prod.splits sum.splits)

lemma create_advances:
  assumes "keyed m"
  shows "advances m (snd (snd (create_with_approval_consumption L ob m intent now)))"
proof -
  let ?i = "si_approval_id intent"
  obtain r m1 where g: "get_approval m ?i now True = (r, m1)" by fastforce
  with service_advances(1) [OF assms, of ?i now True] have a: "advances m m1" by simp
  note k = advances_keyed [OF a]
  note facts = advances_refl [OF assms] a advances_trans [OF a service_advances(2) [OF k]]
    advances_trans [OF a service_advances(3) [OF k]]
  show ?thesis
    unfolding create_with_approval_consumption_def g prod.case
    by (simp only: snd_snd_case facts snd_conv if_True if_False split: if_split sum.split) (simp only: simp_thms)
qed

lemma finalize_approval_advances: "keyed m \<Longrightarrow> advances m (snd (finalize_approval m a st rr fr now))"
  by (simp add: finalize_approval_def service_advances)

lemma finalize_external_advances:
  assumes "keyed (gw_approvals gw)"
  shows "advances (gw_approvals gw) (gw_approvals (snd (finalize_external gw a i st rr fr rc now)))"
    "gw_executed (snd (finalize_external gw a i st rr fr rc now)) = gw_executed gw"
  using finalize_approval_advances [OF assms, of a st rr fr now] advances_refl [OF assms]
  by (auto simp: finalize_external_def finalize_def split: option.splits prod.splits sum.splits)

lemma audit_simps [simp]:
  "gw_approvals (audit_outcome gw d c ctx e msg now) = gw_approvals gw"
  "gw_executed (audit_outcome gw d c ctx e msg now) = gw_executed gw"
  "gw_outbox (audit_outcome gw d c ctx e msg now) = gw_outbox gw"
  by (simp_all add: audit_outcome_def append_audit_def)

text \<open>Recording an outcome only moves approvals forward and executes nothing.\<close>

lemma record_advances:
  assumes "keyed (gw_approvals gw)"
  shows "advances (gw_approvals gw) (gw_approvals (snd (record_outcome L d c ctx i now r gw))) \<and>
    gw_executed (snd (record_outcome L d c ctx i now r gw)) = gw_executed gw"
proof -
  define P where "P gw' \<longleftrightarrow> advances (gw_approvals gw) (gw_approvals gw') \<and> gw_executed gw' = gw_executed gw" for gw' :: gateway
  have fin: "P (snd (finalize_external gw a i st rr fr rc now))" for a st rr fr rc
    by (simp add: P_def finalize_external_advances [OF assms])
  have refl: "P gw" by (simp add: P_def advances_refl [OF assms])
  have aud: "P gw' \<Longrightarrow> P (audit_outcome gw' d c ctx e msg now)" for gw' e msg by (simp add: P_def)
  have unk: "P (snd (mark_unknown_external gw c ref i now))" for ref
    by (simp add: mark_unknown_external_def fin refl split: option.split)
  have defi: "P (snd (mark_definitive_external_failure gw c msg i now))" for msg
    by (simp add: mark_definitive_external_failure_def fin refl split: option.split)
  have fu: "P (snd (finish_unknown gw d c ctx ref msg i now))" for ref msg
    unfolding finish_unknown_def by (rule snd_sbind) (simp_all add: unk refl aud)
  have ff: "P (snd (finish_failed gw' d c ctx msg rt now))" if "P gw'" for gw' msg rt
    using that by (simp add: finish_failed_def aud)
  have fo: "P (snd (finish_other gw d c ctx t i now))" for t
    by (simp add: finish_other_def fu ff refl)
  have fs: "P (snd (finish_success L gw d c ctx res i now))" for res
  proof (cases "json_dumps L True res")
    case (Inr t)
    show ?thesis unfolding finish_success_def Inr Let_def sum.case
      by (rule snd_sbind) (simp_all add: fin refl aud split: option.split)
  qed (simp add: finish_success_def refl)
  have "P (snd (record_outcome L d c ctx i now r gw))"
    unfolding record_outcome_def Let_def
    by (cases r; simp only: exec_result.case)
       (simp add: fs fo fu ff refl split: sum.split; fail | rule snd_sbind, simp add: aud ff, simp add: defi unk refl)+
  then show ?thesis by (simp add: P_def)
qed

section \<open>Admission\<close>

lemma preflight_Inr:
  "preflight L gw frozen c = Inr (d, b) \<longleftrightarrow>
     resolve (gw_snapshot gw) (tc_tool_id c) (tc_tool_version c) = Inr d \<and>
     validate_json_schema L (tc_arguments c) (td_input_schema d) ''$'' = Inr () \<and>
     policy_check (gw_policy gw) frozen d c = Inr () \<and> binding_for d c = Inr b"
  by (auto simp: preflight_def rbind_eq_Inr)

lemma binding_for_None: "binding_for d c = Inr None \<longleftrightarrow> td_risk d \<noteq> EXTERNAL_WRITE"
  by (auto simp: binding_for_def rbind_eq_Inr)

lemma binding_for_Some:
  assumes "binding_for d c = Inr (Some b)"
  shows "td_risk d = EXTERNAL_WRITE" "tc_target c \<noteq> VNone" "ab_payload b = tc_arguments c" "ab_target b = tc_target c"
    "ab_tool_id b = td_id d" "ab_tool_version b = td_version d" "ab_task_id b = tc_task_id c"
    "ab_extension_id b = td_extension_id d" "ab_attachments b = tc_attachments c" "ab_form_version b = tc_form_version c"
  using assms by (auto simp: binding_for_def rbind_eq_Inr check_binding_def split: if_splits)

text \<open>The approval that a consumption takes to EXECUTING, whichever way the gateway is configured.\<close>

definition consumes :: "stdlib \<Rightarrow> approval_repo \<Rightarrow> string \<Rightarrow> approval_binding \<Rightarrow> time \<Rightarrow> approval_repo \<Rightarrow> bool" where
  "consumes L m a b now m' \<longleftrightarrow>
     (\<exists>r. m a = Some r \<and> ap_state r = AS_APPROVED \<and> now < ap_expires_at r \<and>
        canonical_sha256 L (envelope b) = Inr (ap_action_fingerprint r) \<and>
        m' = m(a \<mapsto> r\<lparr>ap_state := AS_EXECUTING, ap_consumed_at := Some now, ap_version := ap_version r + 1\<rparr>))"

lemma consume_approval_Inr:
  assumes "keyed (gw_approvals gw)" "tc_approval_id c = Some a" "consume_approval L dr now d c b a gw = (Inr i, gw')"
  shows "consumes L (gw_approvals gw) a b now (gw_approvals gw')" "gw_executed gw' = gw_executed gw"
    "i = None \<longleftrightarrow> gw_outbox gw = None"
    "\<And>x. i = Some x \<Longrightarrow> \<exists>ob. gw_outbox gw' = Some ob \<and> ob_intents ob (si_id x) = Some x"
proof -
  have *: "consumes L (gw_approvals gw) a b now (gw_approvals gw') \<and> gw_executed gw' = gw_executed gw \<and>
    (i = None \<longleftrightarrow> gw_outbox gw = None) \<and>
    (\<forall>x. i = Some x \<longrightarrow> (\<exists>ob. gw_outbox gw' = Some ob \<and> ob_intents ob (si_id x) = Some x))"
  proof (cases "gw_outbox gw")
    case None
    with assms(3) obtain r m where c: "consume_for_execution L (gw_approvals gw) a b now = (Inr r, m)"
      "i = None" "gw' = gw\<lparr>gw_approvals := m\<rparr>"
      by (auto simp: consume_approval_def split: prod.splits sum.splits)
    then have "consume_direct L (gw_approvals gw) a b now = (Inr (), m)" by (simp add: consume_direct_def)
    from direct_gate.consume_ok [OF assms(1) this] c None show ?thesis
      by (auto simp: consumes_def binding_digest_def split: sum.splits)
  next
    case (Some ob)
    with assms(3) obtain x ob' m where x: "intent_for L dr now d c b = Inr x"
      "create_with_approval_consumption L ob (gw_approvals gw) x now = (Inr (), ob', m)"
      "i = Some x" "gw' = gw\<lparr>gw_outbox := Some ob', gw_approvals := m\<rparr>"
      by (auto simp: consume_approval_def split: prod.splits sum.splits)
    from x(1) assms(2) have si: "si_approval_id x = a" "canonical_sha256 L (envelope b) = Inr (si_action_fingerprint x)"
      by (auto simp: intent_for_def rbind_eq_Inr or_default_def split: if_splits)
    from si(1) have "x\<lparr>si_approval_id := a\<rparr> = x" by auto
    with x(2) have "consume_outbox L (ob, gw_approvals gw) a x now = (Inr (), (ob', m))"
      by (simp add: consume_outbox_def)
    from outbox_gate.consume_ok [OF _ this] assms(1) si(2) x(3,4) Some
    have "consumes L (gw_approvals gw) a b now (gw_approvals gw')" by (auto simp: consumes_def)
    moreover from x(2) have "ob_intents ob' (si_id x) = Some x" by (auto simp: create_Inr [OF assms(1)])
    ultimately show ?thesis using x(3,4) Some by simp
  qed
  then show "consumes L (gw_approvals gw) a b now (gw_approvals gw')" "gw_executed gw' = gw_executed gw"
    "i = None \<longleftrightarrow> gw_outbox gw = None"
    "\<And>x. i = Some x \<Longrightarrow> \<exists>ob. gw_outbox gw' = Some ob \<and> ob_intents ob (si_id x) = Some x" by blast+
qed

text \<open>What an admitted call has passed.\<close>

definition permitted :: "stdlib \<Rightarrow> gateway \<Rightarrow> bool \<Rightarrow> tool_descriptor \<Rightarrow> tool_call \<Rightarrow> bool" where
  "permitted L gw frozen d c \<longleftrightarrow>
     resolve (gw_snapshot gw) (tc_tool_id c) (tc_tool_version c) = Inr d \<and>
     validate_json_schema L (tc_arguments c) (td_input_schema d) ''$'' = Inr () \<and>
     td_id d \<in> tc_workflow_allowed_tools c \<and> td_required_capabilities d \<subseteq> tc_granted_capabilities c \<and>
     td_risk d \<noteq> PROHIBITED \<and>
     (td_risk d = EXTERNAL_WRITE \<longrightarrow>
        external_writes_enabled (gw_policy gw) \<and> \<not> (has_frozen_probe (gw_policy gw) \<and> frozen) \<and> tc_target c \<noteq> VNone)"

lemma admit_Admitted:
  assumes "keyed (gw_approvals gw)" "admit L frozen dr now notify c gw = (Admitted d ctx i, gw')"
  shows "permitted L gw frozen d c" "ec_approval_id ctx = tc_approval_id c" "ec_task_id ctx = tc_task_id c"
    "gw_executed gw' = gw_executed gw"
    "td_risk d \<noteq> EXTERNAL_WRITE \<Longrightarrow> gw_approvals gw' = gw_approvals gw"
    "td_risk d = EXTERNAL_WRITE \<Longrightarrow> \<exists>a b. tc_approval_id c = Some a \<and> binding_for d c = Inr (Some b) \<and>
       consumes L (gw_approvals gw) a b now (gw_approvals gw')"
proof -
  from assms(2) obtain b where pre: "preflight L gw frozen c = Inr (d, b)"
    by (auto simp: admit_def domain_failure_def request_approval_def start_attempt_def Let_def
        split: sum.splits prod.splits option.splits if_splits)
  note p = pre [unfolded preflight_Inr policy_check_ok]
  have st: "ctx = ctx' \<and> ec_approval_id ctx = tc_approval_id c \<and> ec_task_id ctx = tc_task_id c \<and> d' = d \<and>
      gw_executed gw2 = gw_executed gw1 \<and> gw_approvals gw2 = gw_approvals gw1"
    if "start_attempt dr now d' c i' gw1 = (Admitted d ctx i, gw2)" "ctx' = ctx" for d' i' gw1 gw2 ctx'
    using that by (auto simp: start_attempt_def append_audit_def Let_def)
  show perm: "permitted L gw frozen d c"
  proof (cases b)
    case None
    with p show ?thesis by (auto simp: permitted_def binding_for_None)
  next
    case (Some x)
    with p binding_for_Some [of d c x] show ?thesis by (auto simp: permitted_def)
  qed
  have *: "ec_approval_id ctx = tc_approval_id c \<and> ec_task_id ctx = tc_task_id c \<and> gw_executed gw' = gw_executed gw \<and>
      (td_risk d \<noteq> EXTERNAL_WRITE \<longrightarrow> gw_approvals gw' = gw_approvals gw) \<and>
      (td_risk d = EXTERNAL_WRITE \<longrightarrow> (\<exists>a b. tc_approval_id c = Some a \<and> binding_for d c = Inr (Some b) \<and>
         consumes L (gw_approvals gw) a b now (gw_approvals gw')))"
  proof (cases b)
    case None
    with assms(2) pre have "start_attempt dr now d c None gw = (Admitted d ctx i, gw')" by (simp add: admit_def)
    from st [OF this refl] p None show ?thesis by (auto simp: binding_for_None)
  next
    case (Some x)
    with p have x: "binding_for d c = Inr (Some x)" by simp
    from assms(2) pre Some obtain a where a: "tc_approval_id c = Some a"
      by (auto simp: admit_def request_approval_def split: option.splits prod.splits sum.splits)
    from assms(2) pre Some a obtain i' gw1 where
      g: "consume_approval L dr now d c x a gw = (Inr i', gw1)" "start_attempt dr now d c i' gw1 = (Admitted d ctx i, gw')"
      by (auto simp: admit_def domain_failure_def split: prod.splits sum.splits if_splits)
    from st [OF g(2) refl] consume_approval_Inr(1,2) [OF assms(1) a g(1)] x a binding_for_Some(1) [OF x]
    show ?thesis by auto
  qed
  then show "ec_approval_id ctx = tc_approval_id c" "ec_task_id ctx = tc_task_id c"
    "gw_executed gw' = gw_executed gw"
    "td_risk d \<noteq> EXTERNAL_WRITE \<Longrightarrow> gw_approvals gw' = gw_approvals gw"
    "td_risk d = EXTERNAL_WRITE \<Longrightarrow> \<exists>a b. tc_approval_id c = Some a \<and> binding_for d c = Inr (Some b) \<and>
       consumes L (gw_approvals gw) a b now (gw_approvals gw')" by blast+
qed

lemma consume_approval_advances:
  assumes "keyed (gw_approvals gw)"
  shows "advances (gw_approvals gw) (gw_approvals (snd (consume_approval L dr now d c b a gw)))"
    "gw_executed (snd (consume_approval L dr now d c b a gw)) = gw_executed gw"
proof -
  have "advances (gw_approvals gw) m" if "create_with_approval_consumption L ob (gw_approvals gw) x now = (r, ob', m)" for ob x r ob' m
    using create_advances [OF assms, of L ob x now] that by simp
  moreover have "advances (gw_approvals gw) m" if "consume_for_execution L (gw_approvals gw) a b now = (r, m)" for r m
    using service_advances(3) [OF assms, of L a b now] that by simp
  ultimately show "advances (gw_approvals gw) (gw_approvals (snd (consume_approval L dr now d c b a gw)))"
    using advances_refl [OF assms]
    by (auto simp: consume_approval_def split: option.splits sum.splits prod.splits)
  show "gw_executed (snd (consume_approval L dr now d c b a gw)) = gw_executed gw"
    by (auto simp: consume_approval_def split: option.splits sum.splits prod.splits)
qed

lemma admit_advances:
  assumes "keyed (gw_approvals gw)"
  shows "advances (gw_approvals gw) (gw_approvals (snd (admit L frozen dr now notify c gw))) \<and>
    gw_executed (snd (admit L frozen dr now notify c gw)) = gw_executed gw"
proof -
  define P where "P gw' \<longleftrightarrow> advances (gw_approvals gw) (gw_approvals gw') \<and> gw_executed gw' = gw_executed gw" for gw' :: gateway
  have refl: "P gw" by (simp add: P_def advances_refl [OF assms])
  have st: "P gw' \<Longrightarrow> P (snd (start_attempt dr now d c i gw'))" for gw' d i
    by (simp add: P_def start_attempt_def append_audit_def Let_def)
  have req: "P (snd (request_approval L dr now notify b gw))" for b
    using prepare_advances [OF assms, of L b "Aware now" MAX_APPROVAL_TTL "dr_approval_id dr" "dr_nonce dr"]
    by (auto simp: P_def request_approval_def split: prod.splits sum.splits)
  have con: "P gw'" if "consume_approval L dr now d c b a gw = (r, gw')" for d b a r gw'
    using consume_approval_advances [OF assms, of L dr now d c b a] that by (simp add: P_def)
  have "P (snd (admit L frozen dr now notify c gw))"
    by (auto simp: admit_def refl req st split: sum.splits prod.splits option.splits intro: con st)
  then show ?thesis by (simp add: P_def)
qed

section \<open>Invariant of the interleaved gateway\<close>

type_synonym execution = "tool_descriptor \<times> pyval \<times> exec_context"

definition execution_of :: "attempt \<Rightarrow> execution" where
  "execution_of = (\<lambda>(d, c, ctx, i). (d, tc_arguments c, ctx))"

definition spent :: "gw_sys \<Rightarrow> execution list" where
  "spent s = map execution_of (gs_open s) @ gw_executed (gs_gateway s)"

definition uses_approval :: "string \<Rightarrow> execution \<Rightarrow> bool" where
  "uses_approval a = (\<lambda>(d, args, ctx). td_risk d = EXTERNAL_WRITE \<and> ec_approval_id ctx = Some a)"

definition covered :: "stdlib \<Rightarrow> approval_repo \<Rightarrow> execution \<Rightarrow> bool" where
  "covered L m = (\<lambda>(d, args, ctx). td_risk d = EXTERNAL_WRITE \<longrightarrow>
     (\<exists>a r b. ec_approval_id ctx = Some a \<and> m a = Some r \<and> approval_rank AS_EXECUTING \<le> approval_rank (ap_state r) \<and>
        canonical_sha256 L (envelope b) = Inr (ap_action_fingerprint r) \<and>
        ab_payload b = args \<and> ab_tool_id b = td_id d \<and> ab_tool_version b = td_version d \<and> ab_task_id b = ec_task_id ctx))"

definition gw_inv :: "stdlib \<Rightarrow> gw_sys \<Rightarrow> bool" where
  "gw_inv L s \<longleftrightarrow> keyed (gw_approvals (gs_gateway s)) \<and>
     (\<forall>e\<in>set (spent s). covered L (gw_approvals (gs_gateway s)) e) \<and>
     (\<forall>a. length (filter (uses_approval a) (spent s)) \<le> 1)"

lemma covered_advances: "covered L m e \<Longrightarrow> advances m m' \<Longrightarrow> covered L m' e"
proof -
  assume c: "covered L m e" and adv: "advances m m'"
  obtain d args ctx where e: "e = (d, args, ctx)" by (cases e)
  show "covered L m' e"
    unfolding e covered_def prod.case
  proof
    assume "td_risk d = EXTERNAL_WRITE"
    with c e obtain a r b where a: "ec_approval_id ctx = Some a" "m a = Some r"
      "approval_rank AS_EXECUTING \<le> approval_rank (ap_state r)" "canonical_sha256 L (envelope b) = Inr (ap_action_fingerprint r)"
      "ab_payload b = args \<and> ab_tool_id b = td_id d \<and> ab_tool_version b = td_version d \<and> ab_task_id b = ec_task_id ctx"
      unfolding covered_def prod.case by blast
    from advances_at [OF adv a(2)] obtain r' where r': "m' a = Some r'"
      "approval_rank (ap_state r) \<le> approval_rank (ap_state r')" "ap_action_fingerprint r' = ap_action_fingerprint r" .
    show "\<exists>a r b. ec_approval_id ctx = Some a \<and> m' a = Some r \<and> approval_rank AS_EXECUTING \<le> approval_rank (ap_state r) \<and>
        canonical_sha256 L (envelope b) = Inr (ap_action_fingerprint r) \<and>
        ab_payload b = args \<and> ab_tool_id b = td_id d \<and> ab_tool_version b = td_version d \<and> ab_task_id b = ec_task_id ctx"
      using a r' by (intro exI [of _ a] exI [of _ r'] exI [of _ b]) (simp add: order_trans [OF a(3) r'(2)])
  qed
qed

text \<open>Steps that admit nothing: the repository advances and the list of spent attempts does not grow.\<close>

lemma gw_inv_shrink:
  assumes "gw_inv L s" "advances (gw_approvals (gs_gateway s)) (gw_approvals (gs_gateway s'))"
    and "set (spent s') \<subseteq> set (spent s)" "\<And>a. length (filter (uses_approval a) (spent s')) \<le> length (filter (uses_approval a) (spent s))"
  shows "gw_inv L s'"
  unfolding gw_inv_def
proof (intro conjI ballI allI)
  show "keyed (gw_approvals (gs_gateway s'))" by (rule advances_keyed [OF assms(2)])
  show "covered L (gw_approvals (gs_gateway s')) e" if "e \<in> set (spent s')" for e
    using that assms(1,3) by (intro covered_advances [OF _ assms(2)]) (auto simp: gw_inv_def)
  show "length (filter (uses_approval a) (spent s')) \<le> 1" for a
    using assms(1) assms(4) [of a] by (auto simp: gw_inv_def intro: order_trans)
qed

lemma gw_inv_admit:
  assumes "gw_inv L s" "admit L frozen dr now notify c (gs_gateway s) = (Admitted d ctx i, gw')"
  shows "gw_inv L (s\<lparr>gs_gateway := gw', gs_open := (d, c, ctx, i) # gs_open s\<rparr>)" (is "gw_inv L ?s")
proof -
  from assms(1) have k: "keyed (gw_approvals (gs_gateway s))" by (simp add: gw_inv_def)
  note adm = admit_Admitted [OF k assms(2)]
  from admit_advances [OF k, of L frozen dr now notify c] assms(2)
  have adv: "advances (gw_approvals (gs_gateway s)) (gw_approvals gw')" by simp
  have sp: "spent ?s = (d, tc_arguments c, ctx) # spent s" by (simp add: spent_def execution_of_def adm(4))
  have old: "covered L (gw_approvals gw') e" if "e \<in> set (spent s)" for e
    using that assms(1) by (intro covered_advances [OF _ adv]) (auto simp: gw_inv_def)
  have new: "covered L (gw_approvals gw') (d, tc_arguments c, ctx) \<and>
      (\<forall>a. uses_approval a (d, tc_arguments c, ctx) \<longrightarrow> filter (uses_approval a) (spent s) = [])"
  proof (cases "td_risk d = EXTERNAL_WRITE")
    case False
    then show ?thesis by (simp add: covered_def uses_approval_def)
  next
    case True
    from adm(6) [OF this] obtain a b r where a: "tc_approval_id c = Some a" "binding_for d c = Inr (Some b)"
      "gw_approvals (gs_gateway s) a = Some r" "ap_state r = AS_APPROVED"
      "canonical_sha256 L (envelope b) = Inr (ap_action_fingerprint r)"
      "gw_approvals gw' = (gw_approvals (gs_gateway s))(a \<mapsto>
         r\<lparr>ap_state := AS_EXECUTING, ap_consumed_at := Some now, ap_version := ap_version r + 1\<rparr>)"
      unfolding consumes_def by blast
    have "covered L (gw_approvals gw') (d, tc_arguments c, ctx)"
      using a adm(2,3) binding_for_Some [OF a(2)] by (auto simp: covered_def intro!: exI [of _ b])
    moreover have "\<not> uses_approval a e" if "e \<in> set (spent s)" for e
    proof
      assume "uses_approval a e"
      moreover from assms(1) that have "covered L (gw_approvals (gs_gateway s)) e" by (simp add: gw_inv_def)
      ultimately show False using a(3,4) by (auto simp: uses_approval_def covered_def)
    qed
    ultimately show ?thesis using a(1) adm(2) by (auto simp: uses_approval_def filter_empty_conv)
  qed
  show ?thesis
    unfolding gw_inv_def sp
  proof (intro conjI ballI allI)
    show "keyed (gw_approvals (gs_gateway ?s))" using advances_keyed [OF adv] by simp
    fix e
    assume "e \<in> set ((d, tc_arguments c, ctx) # spent s)"
    then consider "e = (d, tc_arguments c, ctx)" | "e \<in> set (spent s)" by auto
    then show "covered L (gw_approvals (gs_gateway ?s)) e"
      by cases (simp_all add: conjunct1 [OF new] old)
  next
    show "length (filter (uses_approval a) ((d, tc_arguments c, ctx) # spent s)) \<le> 1" for a
      using new assms(1) by (auto simp: gw_inv_def)
  qed
qed

lemma run_executor_spent:
  assumes "run_executor execute frozen d c ctx gw = (r, gw')"
  shows "gw_approvals gw' = gw_approvals gw"
    "gw_executed gw' = gw_executed gw \<or> gw_executed gw' = gw_executed gw @ [(d, tc_arguments c, ctx)]"
  using assms by (auto simp: run_executor_def split: sum.splits)

lemma gw_inv_step:
  assumes "gateway_step L s s'" "gw_inv L s"
  shows "gw_inv L s'"
proof -
  from assms(2) have k: "keyed (gw_approvals (gs_gateway s))" by (simp add: gw_inv_def)
  from assms(1) show ?thesis
  proof cases
    case (refuse_step frozen dr now notify c adm gw')
    with admit_advances [OF k, of L frozen dr now notify c] show ?thesis
      by (intro gw_inv_shrink [OF assms(2)]) (simp_all add: spent_def)
  next
    case (admit_step frozen dr now notify c d ctx i gw')
    with gw_inv_admit [OF assms(2)] show ?thesis by simp
  next
    case (execute_step xs d c ctx i ys execute frozen r gw')
    have "execution_of (d, c, ctx, i) = (d, tc_arguments c, ctx)" by (simp add: execution_of_def)
    with execute_step run_executor_spent [OF execute_step(3)] advances_refl [OF k] show ?thesis
      by (intro gw_inv_shrink [OF assms(2)]) (auto simp: spent_def)
  next
    case (record_step xs d c ctx i r ys now res gw')
    with record_advances [OF k, of L d c ctx i now r] show ?thesis
      by (intro gw_inv_shrink [OF assms(2)]) (simp_all add: spent_def)
  next
    case (user_step j call)
    with op_advances [OF k] show ?thesis
      by (intro gw_inv_shrink [OF assms(2)]) (simp_all add: spent_def)
  next
    case (config_step snap pol)
    with advances_refl [OF k] show ?thesis
      by (intro gw_inv_shrink [OF assms(2)]) (simp_all add: spent_def)
  qed
qed

lemma gateway_reachable_inv:
  assumes "gateway_reachable L gw s" "keyed (gw_approvals gw)" "gw_executed gw = []"
  shows "gw_inv L s"
proof -
  have "gw_inv L (gateway_start gw)" using assms(2,3) by (simp add: gw_inv_def gateway_start_def spent_def)
  with assms(1) [unfolded gateway_reachable_def] show ?thesis
    by (induction rule: rtranclp_induct) (auto intro: gw_inv_step)
qed

section \<open>Outcomes of external calls\<close>

lemma finish_Inr:
  assumes "keyed m" "m a = Some r" "ap_state r = AS_EXECUTING" "st \<in> {AS_SUCCEEDED, AS_FAILED, AS_UNKNOWN}"
  shows "with_record m a (finish_effect st now rr fr) =
    (let u = r\<lparr>ap_state := st, ap_completed_at := Some now, ap_result_reference := rr, ap_failure_reason := fr,
       ap_version := ap_version r + 1\<rparr> in (Inr u, m(a \<mapsto> u)))"
  using assms by (auto simp: finish_effect_def service_defs keyed_def)

definition recorded :: "gateway \<Rightarrow> side_effect_intent option \<Rightarrow> bool" where
  "recorded gw i = (case i of None \<Rightarrow> True | Some x \<Rightarrow>
     (case gw_outbox gw of None \<Rightarrow> False | Some ob \<Rightarrow> ob_intents ob (si_id x) \<noteq> None))"

definition intent_in :: "gateway \<Rightarrow> side_effect_intent option \<Rightarrow> side_effect_state \<Rightarrow> bool" where
  "intent_in gw i st = (case i of None \<Rightarrow> True | Some x \<Rightarrow>
     (case gw_outbox gw of None \<Rightarrow> False
      | Some ob \<Rightarrow> (case ob_intents ob (si_id x) of None \<Rightarrow> False | Some y \<Rightarrow> si_state y = st)))"

definition approval_in :: "gateway \<Rightarrow> string \<Rightarrow> approval_state \<Rightarrow> bool" where
  "approval_in gw a st = (case gw_approvals gw a of None \<Rightarrow> False | Some r \<Rightarrow> ap_state r = st)"

fun approval_end :: "side_effect_state \<Rightarrow> approval_state" where
  "approval_end SE_SUCCEEDED = AS_SUCCEEDED"
| "approval_end SE_FAILED = AS_FAILED"
| "approval_end _ = AS_UNKNOWN"

lemma audit_in [simp]:
  "approval_in (audit_outcome gw d c ctx e msg now) a st = approval_in gw a st"
  "intent_in (audit_outcome gw d c ctx e msg now) i st' = intent_in gw i st'"
  by (simp_all add: approval_in_def intent_in_def split: option.split)

lemma finalize_external_ok:
  assumes "keyed (gw_approvals gw)" "gw_approvals gw a = Some r" "ap_state r = AS_EXECUTING" "recorded gw i"
  shows "\<exists>gw'. finalize_external gw a i st rr fr rc now = (Inr (), gw') \<and>
    approval_in gw' a (approval_end st) \<and> intent_in gw' i st \<and> gw_audit gw' = gw_audit gw"
proof -
  have "\<exists>u m. finalize_approval (gw_approvals gw) a st rr fr now = (Inr u, m) \<and> (\<exists>d. m a = Some d \<and> ap_state d = approval_end st)"
    by (cases st)
       (simp_all add: finalize_approval_def mark_succeeded_def mark_failed_def mark_unknown_def finish_Inr [OF assms(1-3)] Let_def)
  then obtain u m d where f: "finalize_approval (gw_approvals gw) a st rr fr now = (Inr u, m)" "m a = Some d" "ap_state d = approval_end st"
    by blast
  show ?thesis
  proof (cases i)
    case None
    with f show ?thesis by (simp add: finalize_external_def approval_in_def intent_in_def)
  next
    case (Some x)
    with assms(4) obtain ob y where "gw_outbox gw = Some ob" "ob_intents ob (si_id x) = Some y"
      by (auto simp: recorded_def split: option.splits)
    with Some f show ?thesis
      by (simp add: finalize_external_def finalize_def finish_intent_def approval_in_def intent_in_def)
  qed
qed

definition ambiguous :: "stdlib \<Rightarrow> tool_descriptor \<Rightarrow> exec_result \<Rightarrow> bool" where
  "ambiguous L d r =
     (case r of
        ER_Timeout \<Rightarrow> True
      | ER_Unknown _ _ \<Rightarrow> True
      | ER_Other _ \<Rightarrow> True
      | ER_Return raw \<Rightarrow> \<not> is_ok (checked_result L d raw)
      | _ \<Rightarrow> False)"

lemma finish_unknown_ok:
  assumes "keyed (gw_approvals gw)" "td_risk d = EXTERNAL_WRITE" "tc_approval_id c = Some a"
    and "gw_approvals gw a = Some r" "ap_state r = AS_EXECUTING" "recorded gw i"
  shows "\<exists>out gw'. finish_unknown gw d c ctx ref msg i now = (Inr out, gw') \<and> to_kind out = OK_OUTCOME_UNKNOWN \<and>
    \<not> to_retryable out \<and> approval_in gw' a AS_UNKNOWN \<and> intent_in gw' i SE_UNKNOWN \<and>
    (\<exists>ev. gw_audit gw' = gw_audit gw @ [ev] \<and> au_event_type ev = ''OUTCOME_UNKNOWN'')"
proof -
  from finalize_external_ok [OF assms(1,4-6), of SE_UNKNOWN "Some ref" None None now] obtain gw1 where
    "finalize_external gw a i SE_UNKNOWN (Some ref) None None now = (Inr (), gw1)"
    "approval_in gw1 a AS_UNKNOWN" "intent_in gw1 i SE_UNKNOWN" "gw_audit gw1 = gw_audit gw" by auto
  then show ?thesis
    by (simp add: finish_unknown_def assms(2,3) mark_unknown_external_def outcome_unknown_def outcome_def)
       (simp add: audit_outcome_def append_audit_def)
qed

lemma record_retryable:
  assumes "record_outcome L d c ctx i now r gw = (Inr out, gw')" "to_retryable out"
  shows "td_risk d \<noteq> EXTERNAL_WRITE"
proof
  assume ext: "td_risk d = EXTERNAL_WRITE"
  have unk: "finish_unknown gw d c ctx ref msg i now \<noteq> (Inr out, gw')" for ref msg
    using assms(2) by (auto simp: finish_unknown_def sbind_eq_Inr outcome_unknown_def outcome_def)
  have suc: "finish_success L gw d c ctx res i now \<noteq> (Inr out, gw')" for res
    using assms(2) by (auto simp: finish_success_def sbind_eq_Inr outcome_def Let_def split: sum.splits)
  show False
    using assms ext unk suc
    by (cases r) (auto simp: record_outcome_def sbind_eq_Inr finish_other_def finish_failed_def outcome_failed_def
        outcome_def split: sum.splits)
qed

lemma domain_failure_outcome: "domain_failure e = Answered out \<Longrightarrow> \<not> to_retryable out"
  by (auto simp: domain_failure_def outcome_failed_def outcome_def split: if_splits)

lemma request_outcome: "request_approval L dr now notify b gw = (Answered out, gw') \<Longrightarrow> \<not> to_retryable out"
  by (auto simp: request_approval_def outcome_def split: prod.splits sum.splits)

lemma start_not_answered: "start_attempt dr now d c i gw \<noteq> (Answered out, gw')"
  by (simp add: start_attempt_def Let_def)

lemma admit_outcome: "admit L frozen dr now notify c gw = (Answered out, gw') \<Longrightarrow> \<not> to_retryable out"
  by (auto simp: admit_def start_not_answered dest: domain_failure_outcome request_outcome
      split: sum.splits prod.splits option.splits)

section \<open>One whole call\<close>

lemma invoke_executes:
  assumes "keyed (gw_approvals gw)" "invoke L execute frozen frozen' dr now later notify c gw = (res, gw')"
    and "gw_executed gw' \<noteq> gw_executed gw"
  shows "\<exists>d ctx. gw_executed gw' = gw_executed gw @ [(d, tc_arguments c, ctx)] \<and> permitted L gw frozen d c \<and>
    (td_risk d = EXTERNAL_WRITE \<longrightarrow> \<not> (has_frozen_probe (gw_policy gw) \<and> frozen') \<and>
       (\<exists>a b r. tc_approval_id c = Some a \<and> binding_for d c = Inr (Some b) \<and> gw_approvals gw a = Some r \<and>
          ap_state r = AS_APPROVED \<and> now < ap_expires_at r \<and>
          canonical_sha256 L (envelope b) = Inr (ap_action_fingerprint r)))"
proof -
  obtain adm gw1 where adm: "admit L frozen dr now notify c gw = (adm, gw1)" by fastforce
  with admit_advances [OF assms(1), of L frozen dr now notify c] have ex1: "gw_executed gw1 = gw_executed gw"
    and k1: "keyed (gw_approvals gw1)" by (auto dest: advances_keyed)
  from adm assms(2,3) ex1 obtain d ctx i where a: "adm = Admitted d ctx i"
    by (auto simp: invoke_def split: admission.splits)
  obtain r gw2 where run: "run_executor execute frozen' d c ctx gw1 = (r, gw2)" by fastforce
  note A = admit_Admitted [OF assms(1) adm [unfolded a]]
  from run_executor_spent(1) [OF run] k1 have k2: "keyed (gw_approvals gw2)" by simp
  from assms(2) adm a run have "record_outcome L d c ctx i later r gw2 = (res, gw')" by (simp add: invoke_def)
  with record_advances [OF k2, of L d c ctx i later r] have "gw_executed gw' = gw_executed gw2" by simp
  with assms(3) ex1 run_executor_spent(2) [OF run] have ex: "gw_executed gw' = gw_executed gw @ [(d, tc_arguments c, ctx)]"
    by auto
  have "gw_policy gw1 = gw_policy gw"
    using adm by (auto simp: admit_def start_attempt_def append_audit_def request_approval_def consume_approval_def Let_def
        split: sum.splits prod.splits option.splits)
  with run ex ex1 \<open>gw_executed gw' = gw_executed gw2\<close> have "policy_check (gw_policy gw) frozen' d c = Inr ()"
    by (auto simp: run_executor_def split: sum.splits)
  then have "td_risk d = EXTERNAL_WRITE \<longrightarrow> \<not> (has_frozen_probe (gw_policy gw) \<and> frozen')"
    by (simp add: policy_check_ok)
  moreover have "td_risk d = EXTERNAL_WRITE \<longrightarrow> (\<exists>a b r. tc_approval_id c = Some a \<and> binding_for d c = Inr (Some b) \<and>
      gw_approvals gw a = Some r \<and> ap_state r = AS_APPROVED \<and> now < ap_expires_at r \<and>
      canonical_sha256 L (envelope b) = Inr (ap_action_fingerprint r))"
    using A(6) unfolding consumes_def by blast
  ultimately show ?thesis using ex A(1) by blast
qed

lemma invoke_keyed:
  assumes "keyed (gw_approvals gw)"
  shows "keyed (gw_approvals (snd (invoke L execute frozen frozen' dr now later notify c gw)))"
proof -
  obtain adm gw1 where adm: "admit L frozen dr now notify c gw = (adm, gw1)" by fastforce
  with admit_advances [OF assms, of L frozen dr now notify c] have k1: "keyed (gw_approvals gw1)"
    by (auto dest: advances_keyed)
  have "keyed (gw_approvals (snd (record_outcome L d c ctx i later r gw2)))"
    if "run_executor execute frozen' d c ctx gw1 = (r, gw2)" for d ctx i r gw2
    using record_advances [of gw2 L d c ctx i later r] run_executor_spent(1) [OF that] k1 by (auto dest: advances_keyed)
  with adm k1 show ?thesis by (auto simp: invoke_def split: admission.splits prod.splits)
qed

section \<open>A concrete gateway\<close>

definition send_tool :: tool_descriptor where
  "send_tool = \<lparr>td_id = ''mail.send'', td_version = ''1'', td_extension_id = ''mail'',
     td_input_schema = VDict [], td_output_schema = VDict [], td_risk = EXTERNAL_WRITE, td_extension_version = Some ''1'',
     td_required_capabilities = {''mail''}, td_timeout_seconds = 30, td_retry_policy = RETRY_NONE,
     td_data_classes_in = {}, td_data_classes_out = {}\<rparr>"

definition read_tool :: tool_descriptor where
  "read_tool = send_tool\<lparr>td_id := ''mail.read'', td_risk := READ\<rparr>"

definition send_call :: tool_call where
  "send_call = \<lparr>tc_tool_id = ''mail.send'', tc_tool_version = ''1'', tc_arguments = ab_payload (mail_binding ''hi''),
     tc_task_id = ''t1'', tc_target = VStr ''bob'', tc_attachments = [], tc_granted_capabilities = {''mail''},
     tc_workflow_allowed_tools = {''mail.send'', ''mail.read''}, tc_approval_id = Some ''a1'', tc_idempotency_key = None,
     tc_form_version = None\<rparr>"

definition sample_draws :: draws where
  "sample_draws = \<lparr>dr_approval_id = ''a9'', dr_nonce = ''n9'', dr_intent_id = ''i9'', dr_key = ''k9'', dr_attempt_id = ''x9''\<rparr>"

definition mail_gateway :: gateway where
  "mail_gateway = \<lparr>gw_snapshot = snd (publish empty_snapshot [send_tool, read_tool]),
     gw_policy = \<lparr>external_writes_enabled = True, has_frozen_probe = False\<rparr>,
     gw_approvals = sys_repo run_approved, gw_outbox = None, gw_audit = [], gw_executed = []\<rparr>"

definition send_ctx :: exec_context where
  "send_ctx = \<lparr>ec_attempt_id = ''x9'', ec_task_id = ''t1'', ec_idempotency_key = ''a1'', ec_approval_id = Some ''a1''\<rparr>"

definition sent_tool :: tool_descriptor where
  "sent_tool = send_tool\<lparr>td_input_schema := VProxy [], td_output_schema := VProxy []\<rparr>"

definition admit_send :: "gateway \<Rightarrow> admission \<times> gateway" where
  "admit_send = admit sample_lib False sample_draws 20 None send_call"

text \<open>The call is admitted, executed, and repeated with the same approval.\<close>

definition mail_admitted :: gw_sys where
  "mail_admitted = \<lparr>gs_gateway = snd (admit_send mail_gateway), gs_open = [(sent_tool, send_call, send_ctx, None)], gs_done = []\<rparr>"

definition mail_executed :: gw_sys where
  "mail_executed = \<lparr>gs_gateway = snd (run_executor (\<lambda>_ _ _. ER_Timeout) False sent_tool send_call send_ctx (gs_gateway mail_admitted)),
     gs_open = [], gs_done = [((sent_tool, send_call, send_ctx, None), ER_Timeout)]\<rparr>"

definition mail_repeated :: gw_sys where
  "mail_repeated = mail_executed\<lparr>gs_gateway := snd (admit_send (gs_gateway mail_executed))\<rparr>"

lemma mail_gateway_ok: "keyed (gw_approvals mail_gateway)" "gw_executed mail_gateway = []"
  by (simp_all add: mail_gateway_def run_approved_keyed)

lemma mail_admit: "admit_send mail_gateway = (Admitted sent_tool send_ctx None, gs_gateway mail_admitted)"
proof (rule prod_eqI)
  show "fst (admit_send mail_gateway) = fst (Admitted sent_tool send_ctx None, gs_gateway mail_admitted)" by code_simp
qed (simp add: mail_admitted_def)

lemma mail_executed_reachable: "gateway_reachable sample_lib mail_gateway mail_executed"
proof -
  have "gateway_step sample_lib (gateway_start mail_gateway) mail_admitted"
    using gateway_step.admit_step [of sample_lib False sample_draws 20 None send_call "gateway_start mail_gateway"]
      mail_admit by (simp add: gateway_start_def admit_send_def mail_admitted_def)
  moreover have "gateway_step sample_lib mail_admitted mail_executed"
  proof -
    have "fst (run_executor (\<lambda>_ _ _. ER_Timeout) False sent_tool send_call send_ctx (gs_gateway mail_admitted)) = ER_Timeout"
      by code_simp
    then have "run_executor (\<lambda>_ _ _. ER_Timeout) False sent_tool send_call send_ctx (gs_gateway mail_admitted) =
        (ER_Timeout, gs_gateway mail_executed)" by (simp add: mail_executed_def prod_eq_iff)
    from gateway_step.execute_step [of mail_admitted "[]", OF _ this, of None "[]" sample_lib]
    show ?thesis by (simp add: mail_admitted_def mail_executed_def)
  qed
  ultimately show ?thesis unfolding gateway_reachable_def by auto
qed

lemma mail_reachable: "gateway_reachable sample_lib mail_gateway mail_repeated"
proof -
  have "gateway_step sample_lib mail_executed mail_repeated"
  proof -
    have "case fst (admit_send (gs_gateway mail_executed)) of Admitted _ _ _ \<Rightarrow> False | _ \<Rightarrow> True" by code_simp
    then have "\<nexists>d ctx i. fst (admit_send (gs_gateway mail_executed)) = Admitted d ctx i" by auto
    then show ?thesis
      unfolding mail_repeated_def admit_send_def by (intro gateway_step.refuse_step) (auto simp: prod_eq_iff)
  qed
  with mail_executed_reachable show ?thesis unfolding gateway_reachable_def by auto
qed

section \<open>Properties\<close>

text \<open>
  C1. Whatever the interleaving of tool calls, user decisions on approvals and changes of registry and
  policy, the executor receives at most one external write per approval; and what it received is the
  approved action: the fingerprint of the approval is that of a binding with the executed arguments,
  tool, version and task, and the approval has left APPROVED for good.
\<close>

theorem external_executed_once:
  assumes "gateway_reachable L gw s" "keyed (gw_approvals gw)" "gw_executed gw = []"
  shows "length (filter (uses_approval a) (gw_executed (gs_gateway s))) \<le> 1 \<and>
    list_all (covered L (gw_approvals (gs_gateway s))) (gw_executed (gs_gateway s))"
proof -
  note inv = gateway_reachable_inv [OF assms]
  then have "length (filter (uses_approval a) (spent s)) \<le> 1" by (simp add: gw_inv_def)
  moreover have "\<forall>e\<in>set (spent s). covered L (gw_approvals (gs_gateway s)) e" using inv by (simp add: gw_inv_def)
  ultimately show ?thesis by (simp add: spent_def list_all_iff)
qed

theorem external_executed_once_witness:
  "gateway_reachable sample_lib mail_gateway mail_repeated \<and>
   map fst (filter (uses_approval ''a1'') (gw_executed (gs_gateway mail_repeated))) = [sent_tool] \<and>
   length (filter (uses_approval ''a1'') (gw_executed (gs_gateway mail_repeated))) \<le> 1"
proof (intro conjI)
  show "gateway_reachable sample_lib mail_gateway mail_repeated" by (rule mail_reachable)
  show "map fst (filter (uses_approval ''a1'') (gw_executed (gs_gateway mail_repeated))) = [sent_tool]" by code_simp
  show "length (filter (uses_approval ''a1'') (gw_executed (gs_gateway mail_repeated))) \<le> 1"
    using external_executed_once [OF mail_reachable mail_gateway_ok] by blast
qed

text \<open>
  C6. A call reaches the executor only if its tool is registered, its arguments satisfy the input
  schema, the workflow allows the tool, every required capability is granted and the tool is not
  prohibited; an external write moreover needs the switch to be on at both checks, an explicit target
  and an approved, unexpired approval for exactly this binding. Even then the executor is called once.
\<close>

theorem invoke_permitted:
  assumes "keyed (gw_approvals gw)" "invoke L execute frozen frozen' dr now later notify c gw = (res, gw')"
    and "gw_executed gw' \<noteq> gw_executed gw"
  shows "\<exists>d ctx. gw_executed gw' = gw_executed gw @ [(d, tc_arguments c, ctx)] \<and> permitted L gw frozen d c \<and>
    (td_risk d = EXTERNAL_WRITE \<longrightarrow> \<not> (has_frozen_probe (gw_policy gw) \<and> frozen') \<and>
       (\<exists>a b r. tc_approval_id c = Some a \<and> binding_for d c = Inr (Some b) \<and> gw_approvals gw a = Some r \<and>
          ap_state r = AS_APPROVED \<and> now < ap_expires_at r \<and>
          canonical_sha256 L (envelope b) = Inr (ap_action_fingerprint r)))"
  using assms by (rule invoke_executes)

definition mail_invoked :: "tool_outcome result \<times> gateway" where
  "mail_invoked = invoke sample_lib (\<lambda>_ _ _. ER_Timeout) False False sample_draws 20 30 None send_call mail_gateway"

theorem invoke_permitted_witness:
  "gw_executed (snd mail_invoked) \<noteq> [] \<and>
   (\<exists>d ctx. gw_executed (snd mail_invoked) = [(d, tc_arguments send_call, ctx)] \<and> permitted sample_lib mail_gateway False d send_call)"
proof -
  have ne: "gw_executed (snd mail_invoked) \<noteq> gw_executed mail_gateway" by code_simp
  from invoke_permitted [OF mail_gateway_ok(1) _ ne, of sample_lib "\<lambda>_ _ _. ER_Timeout" False False sample_draws 20 30 None send_call "fst mail_invoked"]
    ne mail_gateway_ok(2) show ?thesis by (auto simp: mail_invoked_def)
qed



text \<open>
  C37. No answer of the gateway to a call of an external write is marked retryable: a retryable outcome
  comes from a registered tool of another risk level.
\<close>

theorem external_never_retryable:
  assumes "keyed (gw_approvals gw)" "invoke L execute frozen frozen' dr now later notify c gw = (Inr out, gw')" "to_retryable out"
  shows "\<exists>d. resolve (gw_snapshot gw) (tc_tool_id c) (tc_tool_version c) = Inr d \<and> td_risk d \<noteq> EXTERNAL_WRITE"
proof -
  obtain adm gw1 where adm: "admit L frozen dr now notify c gw = (adm, gw1)" by fastforce
  from adm assms(2,3) admit_outcome [of L frozen dr now notify c gw] obtain d ctx i where a: "adm = Admitted d ctx i"
    by (auto simp: invoke_def split: admission.splits)
  obtain r gw2 where run: "run_executor execute frozen' d c ctx gw1 = (r, gw2)" by fastforce
  from assms(2) adm a run have "record_outcome L d c ctx i later r gw2 = (Inr out, gw')" by (simp add: invoke_def)
  from record_retryable [OF this assms(3)] admit_Admitted(1) [OF assms(1) adm [unfolded a]] show ?thesis
    by (auto simp: permitted_def)
qed

definition read_call :: tool_call where
  "read_call = send_call\<lparr>tc_tool_id := ''mail.read'', tc_target := VNone\<rparr>"

theorem external_never_retryable_witness:
  "\<exists>out gw' d. invoke sample_lib (\<lambda>_ _ _. ER_Timeout) False False sample_draws 20 30 None read_call mail_gateway = (Inr out, gw') \<and>
     to_retryable out \<and> resolve (gw_snapshot mail_gateway) ''mail.read'' ''1'' = Inr d \<and> td_risk d = READ"
proof -
  define x where "x = invoke sample_lib (\<lambda>_ _ _. ER_Timeout) False False sample_draws 20 30 None read_call mail_gateway"
  define out where "out = projr (fst x)"
  have x: "fst x = Inr out" "to_retryable out" unfolding out_def x_def by code_simp+
  then have eq: "invoke sample_lib (\<lambda>_ _ _. ER_Timeout) False False sample_draws 20 30 None read_call mail_gateway = (Inr out, snd x)"
    by (simp add: x_def [symmetric] prod_eq_iff)
  have id: "tc_tool_id read_call = ''mail.read''" "tc_tool_version read_call = ''1''"
    by (simp_all add: read_call_def send_call_def)
  have "case resolve (gw_snapshot mail_gateway) ''mail.read'' ''1'' of Inl _ \<Rightarrow> False | Inr d \<Rightarrow> td_risk d = READ" by code_simp
  with external_never_retryable [OF mail_gateway_ok(1) eq x(2)] eq x(2) show ?thesis unfolding id by auto
qed

text \<open>
  C39. A call of a tool that writes nothing outside may carry an approval identifier, which the
  preflight ignores. When its executor reports a definitive failure, the gateway still finishes that
  approval: an approval another call is executing becomes FAILED although nothing about it failed.
\<close>

theorem foreign_failure_fails_approval:
  assumes "keyed (gw_approvals gw)" "td_risk d \<noteq> EXTERNAL_WRITE" "tc_approval_id c = Some a"
    and "gw_approvals gw a = Some r" "ap_state r = AS_EXECUTING"
  shows "\<exists>out gw'. record_outcome L d c ctx None now (ER_Definitive msg retry) gw = (Inr out, gw') \<and>
    to_kind out = OK_FAILED \<and> approval_in gw' a AS_FAILED"
proof -
  from finalize_external_ok [OF assms(1,4,5), of None SE_FAILED None "Some msg" None now] obtain gw1 where
    "finalize_external gw a None SE_FAILED None (Some msg) None now = (Inr (), gw1)" "approval_in gw1 a AS_FAILED"
    by (auto simp: recorded_def)
  then show ?thesis
    by (simp add: record_outcome_def mark_definitive_external_failure_def assms(3) finish_failed_def outcome_failed_def
        outcome_def approval_in_def)
qed

theorem foreign_failure_fails_approval_witness:
  "\<exists>out gw'. record_outcome sample_lib read_tool read_call send_ctx None 30 (ER_Definitive ''offline'' False) (gs_gateway mail_executed) = (Inr out, gw') \<and>
     approval_in (gs_gateway mail_executed) ''a1'' AS_EXECUTING \<and> approval_in gw' ''a1'' AS_FAILED"
proof -
  define r where "r = the (gw_approvals (gs_gateway mail_executed) ''a1'')"
  have r: "gw_approvals (gs_gateway mail_executed) ''a1'' = Some r" "ap_state r = AS_EXECUTING" unfolding r_def by code_simp+
  have k: "keyed (gw_approvals (gs_gateway mail_executed))"
    using gateway_reachable_inv [OF mail_executed_reachable mail_gateway_ok] by (simp add: gw_inv_def)
  have "td_risk read_tool \<noteq> EXTERNAL_WRITE" "tc_approval_id read_call = Some ''a1''" by code_simp+
  from foreign_failure_fails_approval [OF k this r, of sample_lib send_ctx 30 "''offline''" False] r show ?thesis
    by (auto simp: approval_in_def)
qed

end
