(* ===== verification/PA_Jobs.thy ===== *)
theory PA_Jobs
  imports PA_Stores PA_Domain
begin

text \<open>
  \<open>core/jobs/queue.py\<close>, \<open>lease.py\<close>, \<open>scheduler.py\<close> and the reference queue
  \<open>infrastructure/memory/job_queue.py\<close>: enqueue by idempotency key, claim under a lease, and the
  operations of the lease owner. Every method holds the queue's lock for its whole body, so a
  method is one step; \<open>now\<close> is the clock reading of that step.
\<close>

section \<open>Jobs (queue.py)\<close>

datatype job_state =
    JS_READY | JS_LEASED | JS_SUCCEEDED | JS_FAILED | JS_DEAD_LETTER | JS_WAITING_RECONCILIATION

record job =
  job_id :: string
  job_kind :: string
  job_payload :: "(string \<times> pyval) list"
  job_idempotency_key :: string
  job_created_at :: time
  job_available_at :: time
  job_state :: job_state
  job_attempts :: int
  job_max_attempts :: int
  job_lease_owner :: "string option"
  job_lease_until :: "time option"
  job_result :: "(string \<times> pyval) list option"
  job_error_code :: "string option"
  job_version :: int

definition new_job :: "string \<Rightarrow> string \<Rightarrow> (string \<times> pyval) list \<Rightarrow> string \<Rightarrow> time \<Rightarrow> time \<Rightarrow> int \<Rightarrow> job" where
  "new_job i kind payload key created available max_attempts =
     \<lparr>job_id = i, job_kind = kind, job_payload = payload, job_idempotency_key = key,
      job_created_at = created, job_available_at = available, job_state = JS_READY, job_attempts = 0,
      job_max_attempts = max_attempts, job_lease_owner = None, job_lease_until = None,
      job_result = None, job_error_code = None, job_version = 0\<rparr>"

section \<open>InMemoryJobQueue (memory/job\_queue.py)\<close>

record job_queue =
  jq_jobs :: "(string \<times> job) list"
  jq_idempotency :: "(string \<times> string) \<rightharpoonup> string"

definition empty_queue :: job_queue where
  "empty_queue = \<lparr>jq_jobs = [], jq_idempotency = Map.empty\<rparr>"

definition put_job :: "job_queue \<Rightarrow> job \<Rightarrow> job_queue" where
  "put_job q j = q\<lparr>jq_jobs := dset (job_id j) j (jq_jobs q)\<rparr>"

text \<open>\<open>uid\<close> is the fresh \<open>uuid4().hex\<close>.\<close>

definition enqueue ::
  "job_queue \<Rightarrow> time \<Rightarrow> string \<Rightarrow> string \<Rightarrow> (string \<times> pyval) list \<Rightarrow> string \<Rightarrow> time option \<Rightarrow> int
   \<Rightarrow> job result \<times> job_queue" where
  "enqueue q now uid kind payload key available_at max_attempts =
     (if blank key then (raise ValueError ''idempotency_key is required'', q)
      else if max_attempts < 1 then (raise ValueError ''max_attempts must be positive'', q)
      else case jq_idempotency q (kind, key) of
        Some existing_id \<Rightarrow>
          (case dget (jq_jobs q) existing_id of
             None \<Rightarrow> (raise KeyError existing_id, q)
           | Some existing \<Rightarrow>
               if \<not> py_eq (VDict (job_payload existing)) (VDict payload)
               then (raise ValueError ''idempotency key was reused with a different job payload'', q)
               else (Inr existing, q))
      | None \<Rightarrow>
          (let j = new_job (''job_'' @ uid) kind payload key now
                     (case available_at of None \<Rightarrow> now | Some t \<Rightarrow> t) max_attempts
           in (Inr j, (put_job q j)\<lparr>jq_idempotency := (jq_idempotency q)((kind, key) \<mapsto> job_id j)\<rparr>)))"

definition requeue_expired :: "time \<Rightarrow> job \<Rightarrow> job" where
  "requeue_expired now j =
     (if job_state j = JS_LEASED \<and> (case job_lease_until j of None \<Rightarrow> False | Some u \<Rightarrow> u \<le> now)
      then j\<lparr>job_state := JS_READY, job_lease_owner := None, job_lease_until := None\<rparr> else j)"

definition job_due :: "time \<Rightarrow> job \<Rightarrow> bool" where
  "job_due now j = (job_state j = JS_READY \<and> job_available_at j \<le> now)"

definition job_before :: "job \<Rightarrow> job \<Rightarrow> bool" where
  "job_before a b =
     (job_available_at a < job_available_at b \<or>
      job_available_at a = job_available_at b \<and>
        (job_created_at a < job_created_at b \<or> job_created_at a = job_created_at b \<and> job_id a < job_id b))"

text \<open>\<open>min(candidates, key=...)\<close>: the first of the least elements.\<close>

fun min_job :: "job \<Rightarrow> job list \<Rightarrow> job" where
  "min_job j [] = j"
| "min_job j (k # ks) = min_job (if job_before k j then k else j) ks"

definition claim :: "job_queue \<Rightarrow> time \<Rightarrow> string \<Rightarrow> int \<Rightarrow> job option result \<times> job_queue" where
  "claim q now worker_id lease_seconds =
     (if lease_seconds < 1 then (raise ValueError ''lease_seconds must be positive'', q)
      else
        let q' = q\<lparr>jq_jobs := map (\<lambda>(i, j). (i, requeue_expired now j)) (jq_jobs q)\<rparr> in
        case filter (job_due now) (map snd (jq_jobs q')) of
          [] \<Rightarrow> (Inr None, q')
        | c # cs \<Rightarrow>
            (let j = min_job c cs;
                 k = j\<lparr>job_state := JS_LEASED, job_lease_owner := Some worker_id,
                       job_lease_until := Some (now + seconds lease_seconds),
                       job_attempts := job_attempts j + 1, job_version := job_version j + 1\<rparr>
             in (Inr (Some k), put_job q' k)))"

definition require_lease :: "job_queue \<Rightarrow> time \<Rightarrow> string \<Rightarrow> string \<Rightarrow> job result" where
  "require_lease q now i worker_id =
     (case dget (jq_jobs q) i of
        None \<Rightarrow> raise KeyError i
      | Some j \<Rightarrow>
          if job_state j \<noteq> JS_LEASED \<or> job_lease_owner j \<noteq> Some worker_id \<or>
             (case job_lease_until j of None \<Rightarrow> True | Some u \<Rightarrow> u \<le> now)
          then raise LeaseConflict (''worker '' @ py_repr worker_id @ '' does not own job '' @ py_repr i)
          else Inr j)"

definition release_lease :: "job \<Rightarrow> job" where
  "release_lease j = j\<lparr>job_lease_owner := None, job_lease_until := None, job_version := job_version j + 1\<rparr>"

definition with_lease ::
  "job_queue \<Rightarrow> time \<Rightarrow> string \<Rightarrow> string \<Rightarrow> (job \<Rightarrow> job) \<Rightarrow> job result \<times> job_queue" where
  "with_lease q now i worker_id f =
     (case require_lease q now i worker_id of
        Inl e \<Rightarrow> (Inl e, q)
      | Inr j \<Rightarrow> (Inr (f j), put_job q (f j)))"

definition heartbeat :: "job_queue \<Rightarrow> time \<Rightarrow> string \<Rightarrow> string \<Rightarrow> int \<Rightarrow> job result \<times> job_queue" where
  "heartbeat q now i worker_id lease_seconds =
     with_lease q now i worker_id
       (\<lambda>j. j\<lparr>job_lease_until := Some (now + seconds lease_seconds), job_version := job_version j + 1\<rparr>)"

definition complete ::
  "job_queue \<Rightarrow> time \<Rightarrow> string \<Rightarrow> string \<Rightarrow> (string \<times> pyval) list \<Rightarrow> job result \<times> job_queue" where
  "complete q now i worker_id res =
     with_lease q now i worker_id
       (\<lambda>j. release_lease (j\<lparr>job_state := JS_SUCCEEDED, job_result := Some res\<rparr>))"

definition release :: "job_queue \<Rightarrow> time \<Rightarrow> string \<Rightarrow> string \<Rightarrow> job result \<times> job_queue" where
  "release q now i worker_id =
     with_lease q now i worker_id
       (\<lambda>j. release_lease (j\<lparr>job_state := JS_READY, job_available_at := now\<rparr>))"

definition fail ::
  "job_queue \<Rightarrow> time \<Rightarrow> string \<Rightarrow> string \<Rightarrow> string \<Rightarrow> bool \<Rightarrow> time option \<Rightarrow> job result \<times> job_queue" where
  "fail q now i worker_id error_code retryable retry_at =
     with_lease q now i worker_id
       (\<lambda>j. release_lease
          (if retryable \<and> job_attempts j < job_max_attempts j
           then j\<lparr>job_error_code := Some error_code, job_state := JS_READY,
                  job_available_at := (case retry_at of None \<Rightarrow> now | Some t \<Rightarrow> t)\<rparr>
           else j\<lparr>job_error_code := Some error_code,
                  job_state := (if retryable then JS_DEAD_LETTER else JS_FAILED)\<rparr>))"

definition mark_unknown_job :: "job_queue \<Rightarrow> time \<Rightarrow> string \<Rightarrow> string \<Rightarrow> string \<Rightarrow> job result \<times> job_queue" where
  "mark_unknown_job q now i worker_id diagnostic_code =
     with_lease q now i worker_id
       (\<lambda>j. release_lease (j\<lparr>job_state := JS_WAITING_RECONCILIATION, job_error_code := Some diagnostic_code\<rparr>))"

definition get_job :: "job_queue \<Rightarrow> string \<Rightarrow> job option" where
  "get_job q i = dget (jq_jobs q) i"

section \<open>LeaseKeepalive (lease.py)\<close>

text \<open>The constructor: the heartbeat interval, in seconds, must be shorter than the lease.\<close>

definition keepalive_interval :: "int \<Rightarrow> rat option \<Rightarrow> rat result" where
  "keepalive_interval lease_seconds heartbeat_seconds =
     (let h = (case heartbeat_seconds of
                 Some h \<Rightarrow> if h = 0 then max 1 (of_int lease_seconds / 3) else h
               | None \<Rightarrow> max 1 (of_int lease_seconds / 3))
      in if of_int lease_seconds \<le> h
         then raise ValueError ''heartbeat interval must be shorter than the lease'' else Inr h)"

text \<open>
  The background task: one heartbeat at each of the instants at which the wait timed out. It
  stops at the first failure, which it keeps.
\<close>

fun keepalive_run :: "job_queue \<Rightarrow> string \<Rightarrow> string \<Rightarrow> int \<Rightarrow> time list \<Rightarrow> exn option \<times> job_queue" where
  "keepalive_run q i worker_id lease_seconds [] = (None, q)"
| "keepalive_run q i worker_id lease_seconds (t # ts) =
     (case heartbeat q t i worker_id lease_seconds of
        (Inl e, q') \<Rightarrow> (Some e, q')
      | (Inr _, q') \<Rightarrow> keepalive_run q' i worker_id lease_seconds ts)"

definition ensure_owned :: "string \<Rightarrow> exn option \<Rightarrow> unit result" where
  "ensure_owned i failure =
     (case failure of None \<Rightarrow> Inr () | Some _ \<Rightarrow> raise LeaseLost (''lease renewal failed for '' @ i))"

text \<open>\<open>__aexit__\<close>: release, ignoring only a lost lease, then report a failed renewal unless the body raised.\<close>

definition keepalive_exit ::
  "job_queue \<Rightarrow> time \<Rightarrow> string \<Rightarrow> string \<Rightarrow> exn option \<Rightarrow> bool \<Rightarrow> unit result \<times> job_queue" where
  "keepalive_exit q now i worker_id failure body_raised =
     (case release q now i worker_id of
        (Inl e, q') \<Rightarrow>
          if fst e \<noteq> LeaseConflict then (Inl e, q')
          else (if body_raised then Inr () else ensure_owned i failure, q')
      | (Inr _, q') \<Rightarrow> (if body_raised then Inr () else ensure_owned i failure, q'))"

section \<open>Missed fire times (scheduler.py)\<close>

datatype misfire_policy = SKIP | COALESCE | CATCH_UP

record interval_schedule =
  is_id :: string
  is_extension_id :: string
  is_interval :: time
  is_timezone :: string
  is_misfire_policy :: misfire_policy
  is_max_catch_up :: int

definition check_interval_schedule :: "interval_schedule \<Rightarrow> interval_schedule result" where
  "check_interval_schedule s =
     ensure (0 < is_interval s) ValueError ''interval must be positive''
      (ensure (0 \<le> is_max_catch_up s) ValueError ''max_catch_up cannot be negative'' (Inr s))"

text \<open>\<open>xs[-n:]\<close> for a positive \<open>n\<close>.\<close>

definition last_n :: "nat \<Rightarrow> 'a list \<Rightarrow> 'a list" where
  "last_n n xs = drop (length xs - n) xs"

definition missed_fire_times :: "interval_schedule \<Rightarrow> time \<Rightarrow> time \<Rightarrow> time list" where
  "missed_fire_times s last_fire_at now =
     (if now \<le> last_fire_at then []
      else let count = (now - last_fire_at) div is_interval s in
        if count < 1 then []
        else let due = map (\<lambda>i. last_fire_at + is_interval s * i) [1..count] in
          (case is_misfire_policy s of
             SKIP \<Rightarrow> []
           | COALESCE \<Rightarrow> [last due]
           | CATCH_UP \<Rightarrow> if is_max_catch_up s \<noteq> 0 then last_n (nat (is_max_catch_up s)) due else []))"

section \<open>Sequences of queue calls\<close>

datatype queue_op =
    Q_Enqueue string string "(string \<times> pyval) list" string "time option" int
  | Q_Claim string int
  | Q_Heartbeat string string int
  | Q_Complete string string "(string \<times> pyval) list"
  | Q_Release string string
  | Q_Fail string string string bool "time option"
  | Q_Unknown string string string

fun queue_apply :: "time \<Rightarrow> queue_op \<Rightarrow> job_queue \<Rightarrow> job_queue" where
  "queue_apply now (Q_Enqueue uid kind payload key avail mx) q = snd (enqueue q now uid kind payload key avail mx)"
| "queue_apply now (Q_Claim w ls) q = snd (claim q now w ls)"
| "queue_apply now (Q_Heartbeat i w ls) q = snd (heartbeat q now i w ls)"
| "queue_apply now (Q_Complete i w res) q = snd (complete q now i w res)"
| "queue_apply now (Q_Release i w) q = snd (release q now i w)"
| "queue_apply now (Q_Fail i w code retryable retry_at) q = snd (fail q now i w code retryable retry_at)"
| "queue_apply now (Q_Unknown i w code) q = snd (mark_unknown_job q now i w code)"

text \<open>The worker and the job of a call that needs a lease.\<close>

fun queue_actor :: "queue_op \<Rightarrow> (string \<times> string) option" where
  "queue_actor (Q_Enqueue _ _ _ _ _ _) = None"
| "queue_actor (Q_Claim _ _) = None"
| "queue_actor (Q_Heartbeat i w _) = Some (w, i)"
| "queue_actor (Q_Complete i w _) = Some (w, i)"
| "queue_actor (Q_Release i w) = Some (w, i)"
| "queue_actor (Q_Fail i w _ _ _) = Some (w, i)"
| "queue_actor (Q_Unknown i w _) = Some (w, i)"

text \<open>The identifiers drawn for new jobs are fresh.\<close>

fun queue_fresh :: "job_queue \<Rightarrow> queue_op \<Rightarrow> bool" where
  "queue_fresh q (Q_Enqueue uid _ _ _ _ _) = (get_job q (''job_'' @ uid) = None)"
| "queue_fresh q _ = True"

definition job_holder :: "job \<Rightarrow> (string \<times> time) option" where
  "job_holder j =
     (if job_state j \<noteq> JS_LEASED then None
      else case (job_lease_owner j, job_lease_until j) of (Some w, Some u) \<Rightarrow> Some (w, u) | _ \<Rightarrow> None)"

definition job_settled :: "job \<Rightarrow> bool" where
  "job_settled j = (job_state j \<in> {JS_SUCCEEDED, JS_FAILED, JS_DEAD_LETTER, JS_WAITING_RECONCILIATION})"

definition job_ok :: "job \<Rightarrow> bool" where
  "job_ok j \<longleftrightarrow> (job_state j = JS_LEASED \<longleftrightarrow> job_lease_owner j \<noteq> None) \<and>
     (job_state j = JS_LEASED \<longleftrightarrow> job_lease_until j \<noteq> None) \<and> 0 \<le> job_attempts j \<and> 1 \<le> job_max_attempts j"

definition queue_inv :: "job_queue \<Rightarrow> bool" where
  "queue_inv q \<longleftrightarrow> wf_dict (jq_jobs q) \<and>
     (\<forall>i j. get_job q i = Some j \<longrightarrow> job_id j = i \<and> job_ok j) \<and>
     (\<forall>k i. jq_idempotency q k = Some i \<longrightarrow>
        (\<exists>j. get_job q i = Some j \<and> (job_kind j, job_idempotency_key j) = k))"

section \<open>Lemmas on single calls\<close>

lemma get_put [simp]: "get_job (put_job q j) i = (if i = job_id j then Some j else get_job q i)"
  by (simp add: get_job_def put_job_def)

lemma put_simps [simp]: "jq_idempotency (put_job q j) = jq_idempotency q"
  "wf_dict (jq_jobs q) \<Longrightarrow> wf_dict (jq_jobs (put_job q j))"
  by (simp_all add: put_job_def)

lemma get_job_idem [simp]: "get_job (q\<lparr>jq_idempotency := f\<rparr>) i = get_job q i"
  by (simp add: get_job_def)

lemma empty_inv: "queue_inv empty_queue"
  by (simp add: queue_inv_def empty_queue_def get_job_def)

lemma require_lease_Inr:
  "require_lease q now i w = Inr j \<longleftrightarrow>
     get_job q i = Some j \<and> (\<exists>u. job_holder j = Some (w, u) \<and> now < u)"
  by (auto simp: require_lease_def get_job_def job_holder_def raise_def split: option.splits if_splits)

text \<open>A call under a lease succeeds exactly for the holder of a running lease, and changes only its job.\<close>

lemma with_lease_cases:
  assumes "with_lease q now i w f = (res, q')"
  obtains (no) e where "res = Inl e" "q' = q" "\<nexists>j u. get_job q i = Some j \<and> job_holder j = Some (w, u) \<and> now < u"
  | (yes) j u where "get_job q i = Some j" "job_holder j = Some (w, u)" "now < u" "res = Inr (f j)" "q' = put_job q (f j)"
proof (cases "require_lease q now i w")
  case (Inl e)
  then have "\<nexists>j u. get_job q i = Some j \<and> job_holder j = Some (w, u) \<and> now < u"
    using require_lease_Inr [of q now i w] by fastforce
  with Inl assms show ?thesis by (intro no [of e]) (auto simp: with_lease_def)
next
  case (Inr j)
  with assms show ?thesis
    by (auto simp: with_lease_def require_lease_Inr [THEN iffD1] intro: yes dest!: require_lease_Inr [THEN iffD1])
qed

lemma min_job_in: "min_job j js \<in> set (j # js)"
  by (induction j js rule: min_job.induct) (auto split: if_splits)

lemma job_before_trans: "job_before a b \<Longrightarrow> job_before b c \<Longrightarrow> job_before a c"
  by (auto simp: job_before_def)

lemma job_before_total: "\<not> job_before a b \<Longrightarrow> \<not> job_before c a \<Longrightarrow> job_before c b \<Longrightarrow> False"
  by (auto simp: job_before_def)

lemma min_job_least: "k \<in> set (j # js) \<Longrightarrow> \<not> job_before k (min_job j js)"
proof (induction j js arbitrary: k rule: min_job.induct)
  case (1 j)
  then show ?case by (auto simp: job_before_def)
next
  case (2 j x js)
  define b where "b = (if job_before x j then x else j)"
  have "\<not> job_before b (min_job b js)" using "2.IH" [of b] by (simp add: b_def)
  moreover have "\<not> job_before j b" "\<not> job_before x b" by (auto simp: b_def job_before_def)
  ultimately have "\<not> job_before j (min_job b js)" "\<not> job_before x (min_job b js)"
    using job_before_total by blast+
  moreover have "\<not> job_before k (min_job b js)" if "k \<in> set js" using "2.IH" [of k] that by (simp add: b_def)
  ultimately show ?case using "2.prems" by (auto simp: b_def)
qed

lemma requeue_ok: "job_ok j \<Longrightarrow> job_ok (requeue_expired now j)"
  "job_id (requeue_expired now j) = job_id j" "job_kind (requeue_expired now j) = job_kind j"
  "job_idempotency_key (requeue_expired now j) = job_idempotency_key j"
  by (auto simp: requeue_expired_def job_ok_def)

lemma requeue_running: "job_holder j = Some (w, u) \<Longrightarrow> now < u \<Longrightarrow> requeue_expired now j = j"
  by (auto simp: requeue_expired_def job_holder_def split: if_splits option.splits)

lemma requeue_settled: "job_settled j \<Longrightarrow> requeue_expired now j = j"
  by (auto simp: requeue_expired_def job_settled_def)

definition requeued :: "time \<Rightarrow> job_queue \<Rightarrow> job_queue" where
  "requeued now q = q\<lparr>jq_jobs := map (\<lambda>(i, j). (i, requeue_expired now j)) (jq_jobs q)\<rparr>"

lemma get_requeued [simp]: "get_job (requeued now q) i = map_option (requeue_expired now) (get_job q i)"
  by (simp add: requeued_def get_job_def map_of_map)

lemma requeued_simps [simp]: "jq_idempotency (requeued now q) = jq_idempotency q"
  "wf_dict (jq_jobs (requeued now q)) = wf_dict (jq_jobs q)"
  by (simp_all add: requeued_def wf_dict_def o_def case_prod_beta')

definition leased_to :: "time \<Rightarrow> string \<Rightarrow> int \<Rightarrow> job \<Rightarrow> job" where
  "leased_to now w lease_seconds j =
     j\<lparr>job_state := JS_LEASED, job_lease_owner := Some w, job_lease_until := Some (now + seconds lease_seconds),
       job_attempts := job_attempts j + 1, job_version := job_version j + 1\<rparr>"

lemma claim_cases:
  assumes "claim q now w ls = (res, q')" "queue_inv q"
  obtains (bad) e where "res = Inl e" "q' = q" "ls < 1"
  | (none) "res = Inr None" "q' = requeued now q" "1 \<le> ls"
      "\<And>i j. get_job q i = Some j \<Longrightarrow> \<not> job_due now (requeue_expired now j)"
  | (some) i j where "get_job q i = Some j" "job_due now (requeue_expired now j)" "1 \<le> ls"
      "res = Inr (Some (leased_to now w ls (requeue_expired now j)))"
      "q' = put_job (requeued now q) (leased_to now w ls (requeue_expired now j))"
      "\<And>k j'. get_job q k = Some j' \<Longrightarrow> job_due now (requeue_expired now j') \<Longrightarrow>
         \<not> job_before (requeue_expired now j') (requeue_expired now j)"
proof (cases "ls < 1")
  case True
  with assms show ?thesis by (intro bad) (auto simp: claim_def raise_def)
next
  case False
  let ?q = "requeued now q"
  let ?cs = "filter (job_due now) (map snd (jq_jobs ?q))"
  have wf: "wf_dict (jq_jobs ?q)" using assms(2) by (simp add: queue_inv_def)
  have mem: "j \<in> set ?cs \<longleftrightarrow> job_due now j \<and> (\<exists>i j'. get_job q i = Some j' \<and> j = requeue_expired now j')" for j
  proof -
    have "j \<in> snd ` set (jq_jobs ?q) \<longleftrightarrow> (\<exists>i. get_job ?q i = Some j)"
      using wf by (force simp: get_job_def wf_dict_def)
    then show ?thesis by (simp add: conj_commute) blast
  qed
  have claim: "claim q now w ls = (case ?cs of [] \<Rightarrow> (Inr None, ?q)
      | c # cs \<Rightarrow> (Inr (Some (leased_to now w ls (min_job c cs))), put_job ?q (leased_to now w ls (min_job c cs))))"
    using False by (simp add: claim_def requeued_def leased_to_def Let_def split: list.splits)
  show ?thesis
  proof (cases ?cs)
    case Nil
    have "\<not> job_due now (requeue_expired now j)" if "get_job q i = Some j" for i j
      using mem [of "requeue_expired now j"] that Nil by auto
    with Nil claim assms(1) False show ?thesis by (intro none) auto
  next
    case (Cons c cs)
    from min_job_in [of c cs] mem [of "min_job c cs"] obtain i j where
      ij: "get_job q i = Some j" "min_job c cs = requeue_expired now j" "job_due now (requeue_expired now j)"
      unfolding Cons by auto
    have least: "\<not> job_before (requeue_expired now j') (requeue_expired now j)"
      if "get_job q k = Some j'" "job_due now (requeue_expired now j')" for k j'
      using min_job_least [of "requeue_expired now j'" c cs] mem [of "requeue_expired now j'"] that ij
      unfolding Cons by auto
    from claim Cons assms(1) ij False least show ?thesis by (intro some [of i j]) auto
  qed
qed

lemma enqueue_cases:
  assumes "enqueue q now uid kind payload key avail mx = (res, q')"
  obtains (unchanged) "q' = q"
  | (added) j where "res = Inr j" "jq_idempotency q (kind, key) = None" "1 \<le> mx"
      "j = new_job (''job_'' @ uid) kind payload key now (case avail of None \<Rightarrow> now | Some t \<Rightarrow> t) mx"
      "q' = (put_job q j)\<lparr>jq_idempotency := (jq_idempotency q)((kind, key) \<mapsto> job_id j)\<rparr>"
proof (cases "\<not> blank key \<and> 1 \<le> mx \<and> jq_idempotency q (kind, key) = None")
  case True
  with assms show ?thesis by (intro added) (auto simp: enqueue_def Let_def)
next
  case False
  with assms have "q' = q"
    by (auto simp: enqueue_def raise_def split: if_splits option.splits)
  then show ?thesis by (rule unchanged)
qed

section \<open>The queue keeps its invariant\<close>

text \<open>What the body of a lease operation does to the job it may change.\<close>

definition lease_update :: "(job \<Rightarrow> job) \<Rightarrow> bool" where
  "lease_update f \<longleftrightarrow> (\<forall>j. job_id (f j) = job_id j \<and> job_kind (f j) = job_kind j \<and>
     job_idempotency_key (f j) = job_idempotency_key j \<and> (job_ok j \<longrightarrow> job_state j = JS_LEASED \<longrightarrow> job_ok (f j)))"

lemma holder_leased: "job_holder j = Some (w, u) \<Longrightarrow> job_state j = JS_LEASED"
  by (simp add: job_holder_def split: if_splits)

lemma queue_apply_lease:
  assumes "queue_actor c = Some (w, i)"
  obtains f where "lease_update f" "\<And>q. queue_apply now c q = snd (with_lease q now i w f)"
proof (cases c)
  case (Q_Heartbeat i' w' ls)
  with assms show ?thesis
    by (intro that [of "\<lambda>j. j\<lparr>job_lease_until := Some (now + seconds ls), job_version := job_version j + 1\<rparr>"])
       (auto simp: heartbeat_def lease_update_def job_ok_def)
next
  case (Q_Complete i' w' r)
  with assms show ?thesis
    by (intro that [of "\<lambda>j. release_lease (j\<lparr>job_state := JS_SUCCEEDED, job_result := Some r\<rparr>)"])
       (auto simp: complete_def lease_update_def job_ok_def release_lease_def)
next
  case (Q_Release i' w')
  with assms show ?thesis
    by (intro that [of "\<lambda>j. release_lease (j\<lparr>job_state := JS_READY, job_available_at := now\<rparr>)"])
       (auto simp: release_def lease_update_def job_ok_def release_lease_def)
next
  case (Q_Fail i' w' code retryable retry_at)
  with assms show ?thesis
    by (intro that) (auto simp: fail_def lease_update_def job_ok_def release_lease_def)
next
  case (Q_Unknown i' w' code)
  with assms show ?thesis
    by (intro that [of "\<lambda>j. release_lease (j\<lparr>job_state := JS_WAITING_RECONCILIATION, job_error_code := Some code\<rparr>)"])
       (auto simp: mark_unknown_job_def lease_update_def job_ok_def release_lease_def)
qed (use assms in auto)

lemma queue_inv_intro:
  assumes "wf_dict (jq_jobs q)" "\<And>i j. get_job q i = Some j \<Longrightarrow> job_id j = i \<and> job_ok j"
    "\<And>k i. jq_idempotency q k = Some i \<Longrightarrow> \<exists>j. get_job q i = Some j \<and> (job_kind j, job_idempotency_key j) = k"
  shows "queue_inv q"
  using assms by (simp add: queue_inv_def)

lemma queue_invD:
  assumes "queue_inv q"
  shows "wf_dict (jq_jobs q)" "get_job q i = Some j \<Longrightarrow> job_id j = i" "get_job q i = Some j \<Longrightarrow> job_ok j"
    "jq_idempotency q k = Some i \<Longrightarrow> \<exists>j. get_job q i = Some j \<and> (job_kind j, job_idempotency_key j) = k"
  using assms unfolding queue_inv_def by blast+

lemma queue_inv_put:
  assumes "queue_inv q" "get_job q i = Some j" "job_id k = i" "job_kind k = job_kind j"
    "job_idempotency_key k = job_idempotency_key j" "job_ok k"
  shows "queue_inv (put_job q k)"
proof (rule queue_inv_intro)
  fix x l assume "jq_idempotency (put_job q k) x = Some l"
  then have "\<exists>j. get_job q l = Some j \<and> (job_kind j, job_idempotency_key j) = x"
    using queue_invD(4) [OF assms(1)] by simp
  with assms show "\<exists>j. get_job (put_job q k) l = Some j \<and> (job_kind j, job_idempotency_key j) = x"
    by (cases "l = i") auto
next
  fix l x assume "get_job (put_job q k) l = Some x"
  then have "l = job_id k \<and> x = k \<or> get_job q l = Some x" by (auto split: if_splits)
  with assms queue_invD(2,3) [OF assms(1), of l x] show "job_id x = l \<and> job_ok x" by metis
qed (use queue_invD(1) [OF assms(1)] in simp)

lemma queue_inv_requeued:
  assumes "queue_inv q"
  shows "queue_inv (requeued now q)"
proof (rule queue_inv_intro)
  fix x l assume "jq_idempotency (requeued now q) x = Some l"
  then have "\<exists>j. get_job q l = Some j \<and> (job_kind j, job_idempotency_key j) = x"
    using queue_invD(4) [OF assms] by simp
  then show "\<exists>j. get_job (requeued now q) l = Some j \<and> (job_kind j, job_idempotency_key j) = x"
    by (auto simp: requeue_ok)
next
  fix l x assume "get_job (requeued now q) l = Some x"
  then obtain y where "get_job q l = Some y" "x = requeue_expired now y" by auto
  with queue_invD(2,3) [OF assms this(1)] show "job_id x = l \<and> job_ok x" by (simp add: requeue_ok)
qed (use queue_invD(1) [OF assms] in simp)

lemma queue_inv_add:
  assumes "queue_inv q" "get_job q (job_id j) = None" "job_ok j"
  shows "queue_inv ((put_job q j)\<lparr>jq_idempotency := (jq_idempotency q)((job_kind j, job_idempotency_key j) \<mapsto> job_id j)\<rparr>)"
    (is "queue_inv ?q")
proof (rule queue_inv_intro)
  fix x l assume "jq_idempotency ?q x = Some l"
  then consider "x = (job_kind j, job_idempotency_key j)" "l = job_id j" | "jq_idempotency q x = Some l"
    by (cases "x = (job_kind j, job_idempotency_key j)") simp_all
  then show "\<exists>j. get_job ?q l = Some j \<and> (job_kind j, job_idempotency_key j) = x"
  proof cases
    case 2
    from queue_invD(4) [OF assms(1) this] assms(2) show ?thesis by auto
  qed auto
next
  fix l x assume "get_job (?q) l = Some x"
  then have "l = job_id j \<and> x = j \<or> get_job q l = Some x" by (cases "l = job_id j") simp_all
  with assms queue_invD(2,3) [OF assms(1), of l x] show "job_id x = l \<and> job_ok x" by metis
qed (use queue_invD(1) [OF assms(1)] in simp)

lemma queue_inv_apply:
  assumes "queue_inv q" "queue_fresh q c"
  shows "queue_inv (queue_apply now c q)"
proof (cases "queue_actor c")
  case (Some wi)
  obtain w i where wi: "wi = (w, i)" by fastforce
  with Some queue_apply_lease obtain f where f: "lease_update f" "\<And>q. queue_apply now c q = snd (with_lease q now i w f)"
    by metis
  obtain res q' where r: "with_lease q now i w f = (res, q')" by fastforce
  from r show ?thesis
  proof (cases rule: with_lease_cases)
    case (no e)
    with f r assms show ?thesis by simp
  next
    case (yes j u)
    with assms have "job_id j = i" "job_ok j" by (auto simp: queue_inv_def)
    with f(1) yes(2) have "job_id (f j) = i" "job_kind (f j) = job_kind j"
      "job_idempotency_key (f j) = job_idempotency_key j" "job_ok (f j)"
      by (auto simp: lease_update_def dest: holder_leased)
    with queue_inv_put [OF assms(1) yes(1)] f r yes show ?thesis by simp
  qed
next
  case None
  show ?thesis
  proof (cases c)
    case (Q_Enqueue uid kind payload key avail mx)
    obtain res q' where r: "enqueue q now uid kind payload key avail mx = (res, q')" by fastforce
    from r show ?thesis
    proof (cases rule: enqueue_cases)
      case unchanged
      with r Q_Enqueue assms show ?thesis by simp
    next
      case (added j)
      have "job_ok j" "job_id j = ''job_'' @ uid" "job_kind j = kind" "job_idempotency_key j = key"
        using added by (simp_all add: new_job_def job_ok_def)
      with queue_inv_add [OF assms(1), of j] assms(2) added(5) r Q_Enqueue show ?thesis by simp
    qed
  next
    case (Q_Claim w ls)
    obtain res q' where r: "claim q now w ls = (res, q')" by fastforce
    from r assms(1) show ?thesis
    proof (cases rule: claim_cases)
      case (some i j)
      then have "get_job (requeued now q) i = Some (requeue_expired now j)" by simp
      moreover have "job_id (requeue_expired now j) = i" "job_ok (requeue_expired now j)"
        using some(1) assms(1) by (auto simp: queue_inv_def requeue_ok)
      ultimately have "queue_inv (put_job (requeued now q) (leased_to now w ls (requeue_expired now j)))"
        by (intro queue_inv_put [OF queue_inv_requeued [OF assms(1)]]) (auto simp: leased_to_def job_ok_def)
      with some r Q_Claim show ?thesis by simp
    next
      case (bad e)
      with r Q_Claim assms(1) show ?thesis by simp
    next
      case none
      with r Q_Claim queue_inv_requeued [OF assms(1)] show ?thesis by simp
    qed
  qed (use None in auto)
qed

section \<open>Interfaces\<close>

lemma untouched_step:
  assumes "queue_inv q" "queue_fresh q c" "get_job q i = Some j"
    and "job_settled j \<or> (\<exists>w u. job_holder j = Some (w, u) \<and> t < u \<and> queue_actor c \<noteq> Some (w, i))"
  shows "get_job (queue_apply t c q) i = Some j"
proof (cases "queue_actor c")
  case (Some wi)
  obtain w' i' where wi: "wi = (w', i')" by fastforce
  with Some queue_apply_lease obtain f where f: "lease_update f" "\<And>q. queue_apply t c q = snd (with_lease q t i' w' f)"
    by metis
  obtain res q' where r: "with_lease q t i' w' f = (res, q')" by fastforce
  from r show ?thesis
  proof (cases rule: with_lease_cases)
    case (no e)
    with f r assms show ?thesis by simp
  next
    case (yes j' u)
    have "job_id (f j') = i'"
      using f(1) queue_invD(2) [OF assms(1) yes(1)] by (simp add: lease_update_def)
    moreover have "i' \<noteq> i"
      using yes assms(3,4) Some wi by (auto simp: job_settled_def dest: holder_leased)
    ultimately show ?thesis using f r yes assms(3) by simp
  qed
next
  case None
  have keep: "requeue_expired t j = j"
    using assms(4) requeue_running requeue_settled by blast
  show ?thesis
  proof (cases c)
    case (Q_Enqueue uid kind payload key avail mx)
    obtain res q' where r: "enqueue q t uid kind payload key avail mx = (res, q')" by fastforce
    from r show ?thesis
      by (cases rule: enqueue_cases) (use r Q_Enqueue assms in \<open>auto simp: new_job_def\<close>)
  next
    case (Q_Claim w ls)
    obtain res q' where r: "claim q t w ls = (res, q')" by fastforce
    from r assms(1) show ?thesis
    proof (cases rule: claim_cases)
      case (some i' j')
      have "job_id j' = i'" using queue_invD(2) [OF assms(1) some(1)] .
      moreover have "i' \<noteq> i"
        using some(1,2) assms(3,4) keep by (auto simp: job_due_def job_settled_def dest: holder_leased)
      ultimately show ?thesis using some r Q_Claim assms(3) keep by (simp add: leased_to_def requeue_ok)
    next
      case (bad e)
      with r Q_Claim assms(3) show ?thesis by simp
    next
      case none
      with r Q_Claim assms(3) keep show ?thesis by simp
    qed
  qed (use None in auto)
qed

interpretation queue_leases: lease_table queue_inv queue_fresh queue_apply get_job job_holder queue_actor job_settled
  by unfold_locales (use queue_inv_apply untouched_step in blast)+

text \<open>The receipts of \<open>enqueue\<close>: the payload and the id of the job made for a kind and key.\<close>

definition enqueue_receipt :: "job_queue \<Rightarrow> string \<times> string \<Rightarrow> ((string \<times> pyval) list \<times> string) option" where
  "enqueue_receipt q k =
     (case jq_idempotency q k of None \<Rightarrow> None
      | Some i \<Rightarrow> map_option (\<lambda>j. (job_payload j, i)) (get_job q i))"

type_synonym enqueue_args = "time \<times> string \<times> (string \<times> pyval) list \<times> time option \<times> int"

definition args_payload :: "enqueue_args \<Rightarrow> (string \<times> pyval) list" where
  "args_payload a = fst (snd (snd a))"

definition enqueue_cmd :: "job_queue \<Rightarrow> string \<times> string \<Rightarrow> enqueue_args \<Rightarrow> job result \<times> job_queue" where
  "enqueue_cmd q k a = (case (k, a) of ((kind, key), (now, uid, payload, avail, mx)) \<Rightarrow>
     enqueue q now uid kind payload key avail mx)"

definition enqueue_valid :: "string \<times> string \<Rightarrow> enqueue_args \<Rightarrow> bool" where
  "enqueue_valid k a = (\<not> blank (snd k) \<and> 1 \<le> snd (snd (snd (snd a))))"

interpretation enqueue_log: command_log queue_inv enqueue_receipt args_payload
  "\<lambda>f a. py_eq (VDict f) (VDict (args_payload a))" enqueue_valid job_id enqueue_cmd
proof
  fix q k j q' and a :: enqueue_args
  assume *: "queue_inv q" "enqueue_receipt q k = None" "enqueue_cmd q k a = (Inr j, q')"
  obtain kind key now uid payload avail mx where k: "k = (kind, key)" and a: "a = (now, uid, payload, avail, mx)"
    by (metis prod.collapse)
  have none: "jq_idempotency q k = None"
    using *(1,2) queue_invD(4) [OF *(1), of k] by (fastforce simp: enqueue_receipt_def split: option.splits)
  from *(3) k a have "enqueue q now uid kind payload key avail mx = (Inr j, q')" by (simp add: enqueue_cmd_def)
  then show "enqueue_receipt q' k = Some (args_payload a, job_id j)"
    using none k a
    by (auto simp: enqueue_def enqueue_receipt_def raise_def Let_def new_job_def args_payload_def split: if_splits)
next
  fix q k f i and a :: enqueue_args
  assume *: "queue_inv q" "enqueue_receipt q k = Some (f, i)"
  obtain kind key now uid payload avail mx where k: "k = (kind, key)" and a: "a = (now, uid, payload, avail, mx)"
    by (metis prod.collapse)
  from *(2) obtain j where j: "jq_idempotency q (kind, key) = Some i" "get_job q i = Some j" "f = job_payload j"
    by (auto simp: enqueue_receipt_def k split: option.splits)
  have "job_id j = i" using queue_invD(2) [OF *(1) j(2)] .
  { assume "py_eq (VDict f) (VDict (args_payload a))" "enqueue_valid k a"
    with j k a \<open>job_id j = i\<close> show "\<exists>b. enqueue_cmd q k a = (Inr b, q) \<and> job_id b = i"
      by (auto simp: enqueue_cmd_def enqueue_def args_payload_def enqueue_valid_def get_job_def) }
  { assume "\<not> py_eq (VDict f) (VDict (args_payload a))"
    with j k a show "\<exists>e. enqueue_cmd q k a = (Inl e, q)"
      by (auto simp: enqueue_cmd_def enqueue_def args_payload_def get_job_def raise_def) }
qed

section \<open>Properties\<close>

lemma queue_run_inv:
  "lease_run_ok queue_fresh queue_apply cs empty_queue \<Longrightarrow> queue_inv (lease_run queue_apply cs empty_queue)"
  by (rule queue_leases.inv_run [OF empty_inv])

text \<open>
  C9. Leases are exclusive: in a queue built by any sequence of calls, while the lease of a worker on
  a job runs, no sequence of calls by others (enqueue, claim by anyone, or lease operations of other
  workers or on other jobs) changes that job in any field. In particular nobody else can claim,
  complete, fail or release it.
\<close>

theorem lease_exclusive:
  assumes "q = lease_run queue_apply past empty_queue"
    and "lease_run_ok queue_fresh queue_apply past empty_queue" "lease_run_ok queue_fresh queue_apply cs q"
    and "get_job q i = Some j" "job_holder j = Some (w, u)"
    and "\<forall>(t, c)\<in>set cs. t < u \<and> queue_actor c \<noteq> Some (w, i)"
  shows "get_job (lease_run queue_apply cs q) i = Some j"
  using queue_leases.exclusive [OF queue_run_inv [OF assms(2), folded assms(1)] assms(3,4,5)] assms(6) by blast

definition sample_calls :: "(time \<times> queue_op) list" where
  "sample_calls = [(0, Q_Enqueue ''1'' ''mail'' [(''n'', VInt 1)] ''k1'' None 5), (1, Q_Claim ''w1'' 30)]"

theorem lease_exclusive_witness:
  "\<exists>j. get_job (lease_run queue_apply sample_calls empty_queue) ''job_1'' = Some j \<and> job_holder j = Some (''w1'', 30000001) \<and>
     get_job (lease_run queue_apply [(2, Q_Claim ''w2'' 30), (3, Q_Complete ''job_1'' ''w2'' []), (30000000, Q_Claim ''w2'' 30)]
       (lease_run queue_apply sample_calls empty_queue)) ''job_1'' = Some j"
proof -
  define j where "j = the (get_job (lease_run queue_apply sample_calls empty_queue) ''job_1'')"
  have "get_job (lease_run queue_apply sample_calls empty_queue) ''job_1'' = Some j" "job_holder j = Some (''w1'', 30000001)"
    unfolding j_def by code_simp+
  moreover have "lease_run_ok queue_fresh queue_apply sample_calls empty_queue"
    "lease_run_ok queue_fresh queue_apply [(2, Q_Claim ''w2'' 30), (3, Q_Complete ''job_1'' ''w2'' []), (30000000, Q_Claim ''w2'' 30)]
       (lease_run queue_apply sample_calls empty_queue)"
    by code_simp+
  ultimately show ?thesis
    using lease_exclusive [OF refl, where past = sample_calls and cs = "[(2, Q_Claim ''w2'' 30), (3, Q_Complete ''job_1'' ''w2'' []), (30000000, Q_Claim ''w2'' 30)]"
        and i = "''job_1''" and w = "''w1''" and u = 30000001]
    by simp
qed

text \<open>
  C29. A settled job never runs again: once a job has succeeded, failed, been dead-lettered or been
  marked as of unknown outcome, no later sequence of calls changes it. An unknown outcome is never
  retried automatically.
\<close>

theorem settled_never_reruns:
  assumes "q = lease_run queue_apply past empty_queue"
    and "lease_run_ok queue_fresh queue_apply past empty_queue" "lease_run_ok queue_fresh queue_apply cs q"
    and "get_job q i = Some j" "job_settled j"
  shows "get_job (lease_run queue_apply cs q) i = Some j"
  using queue_leases.settled_forever [OF queue_run_inv [OF assms(2), folded assms(1)] assms(3,4,5)] .

theorem settled_never_reruns_witness:
  "\<exists>j. get_job (lease_run queue_apply (sample_calls @ [(2, Q_Unknown ''job_1'' ''w1'' ''timeout'')]) empty_queue) ''job_1'' = Some j \<and>
     job_state j = JS_WAITING_RECONCILIATION \<and>
     get_job (lease_run queue_apply [(90000000, Q_Claim ''w2'' 30)]
       (lease_run queue_apply (sample_calls @ [(2, Q_Unknown ''job_1'' ''w1'' ''timeout'')]) empty_queue)) ''job_1'' = Some j"
proof -
  define past where "past = sample_calls @ [(2, Q_Unknown ''job_1'' ''w1'' ''timeout'')]"
  define j where "j = the (get_job (lease_run queue_apply past empty_queue) ''job_1'')"
  have "get_job (lease_run queue_apply past empty_queue) ''job_1'' = Some j" "job_settled j" "job_state j = JS_WAITING_RECONCILIATION"
    "lease_run_ok queue_fresh queue_apply past empty_queue"
    "lease_run_ok queue_fresh queue_apply [(90000000, Q_Claim ''w2'' 30)] (lease_run queue_apply past empty_queue)"
    unfolding j_def past_def by code_simp+
  with settled_never_reruns [OF refl, of past "[(90000000, Q_Claim ''w2'' 30)]" "''job_1''" j] show ?thesis
    unfolding past_def by blast
qed

text \<open>
  C31. \<open>enqueue\<close> is idempotent by kind and key: after a first success, sending the same payload again
  (at any time, with any other options that are valid) returns the same job and changes nothing,
  and another payload under the key is refused without a change.
\<close>

theorem enqueue_idempotent:
  assumes "queue_inv q" "queue_fresh q (Q_Enqueue uid kind payload key avail mx)"
    and "jq_idempotency q (kind, key) = None" "enqueue q now uid kind payload key avail mx = (Inr j, q')"
    and "1 \<le> mx'"
  shows "if py_eq (VDict payload) (VDict payload')
    then \<exists>b. enqueue q' now' uid' kind payload' key avail' mx' = (Inr b, q') \<and> job_id b = job_id j
    else \<exists>e. enqueue q' now' uid' kind payload' key avail' mx' = (Inl e, q')"
proof -
  have inv: "queue_inv q'"
    using queue_inv_apply [OF assms(1,2), of now] assms(4) by simp
  have cmd: "enqueue_receipt q (kind, key) = None" "enqueue_cmd q (kind, key) (now, uid, payload, avail, mx) = (Inr j, q')"
    using assms(3,4) by (simp_all add: enqueue_receipt_def enqueue_cmd_def)
  have "\<not> blank key" using assms(4) by (auto simp: enqueue_def raise_def)
  then have "enqueue_valid (kind, key) (now', uid', payload', avail', mx')"
    using assms(5) by (simp add: enqueue_valid_def)
  then show ?thesis
    using enqueue_log.resend [OF assms(1) inv cmd, of "(now', uid', payload', avail', mx')"]
      enqueue_log.reuse_refused [OF assms(1) inv cmd, of "(now', uid', payload', avail', mx')"]
    by (auto simp: enqueue_cmd_def args_payload_def)
qed

theorem enqueue_idempotent_witness:
  "\<exists>j q'. enqueue empty_queue 0 ''1'' ''mail'' [(''n'', VInt 1)] ''k1'' None 5 = (Inr j, q') \<and>
     (\<exists>b. enqueue q' 9 ''2'' ''mail'' [(''n'', VInt 1)] ''k1'' None 1 = (Inr b, q') \<and> job_id b = job_id j) \<and>
     (\<exists>e. enqueue q' 9 ''2'' ''mail'' [(''n'', VInt 2)] ''k1'' None 1 = (Inl e, q'))"
proof -
  obtain r q' where r: "enqueue empty_queue 0 ''1'' ''mail'' [(''n'', VInt 1)] ''k1'' None 5 = (r, q')" by fastforce
  have "is_ok (fst (enqueue empty_queue 0 ''1'' ''mail'' [(''n'', VInt 1)] ''k1'' None 5))" by code_simp
  with r obtain j where j: "r = Inr j" by (auto simp: is_ok_iff)
  have e: "py_eq (VDict [(''n'', VInt 1)]) (VDict [(''n'', VInt 1)])" "\<not> py_eq (VDict [(''n'', VInt 1)]) (VDict [(''n'', VInt 2)])"
    by code_simp+
  have "queue_fresh empty_queue (Q_Enqueue ''1'' ''mail'' [(''n'', VInt 1)] ''k1'' None 5)"
    "jq_idempotency empty_queue (''mail'', ''k1'') = None"
    by (simp_all add: empty_queue_def get_job_def)
  note idem = enqueue_idempotent [OF empty_inv this r [unfolded j], of 1]
  from idem [of "[(''n'', VInt 1)]" 9 "''2''" None] idem [of "[(''n'', VInt 2)]" 9 "''2''" None] e r j show ?thesis
    by auto
qed

definition claimable :: "time \<Rightarrow> job \<Rightarrow> bool" where
  "claimable now j \<longleftrightarrow> job_available_at j \<le> now \<and>
     (job_state j = JS_READY \<or> job_state j = JS_LEASED \<and> (\<exists>u. job_lease_until j = Some u \<and> u \<le> now))"

lemma claimable_due: "claimable now j \<longleftrightarrow> job_due now (requeue_expired now j)"
  by (auto simp: claimable_def job_due_def requeue_expired_def split: option.splits)

lemma job_before_requeue: "job_before (requeue_expired now a) (requeue_expired now b) = job_before a b"
  by (simp add: job_before_def requeue_expired_def)

text \<open>
  C30. \<open>claim\<close> answers None only if no job is claimable (ready and due, or leased with the lease run
  out). Otherwise it leases to the caller, until now plus the lease time, the claimable job that is
  first by availability, creation and id, counts the attempt, and leaves every other job alone
  except that run-out leases become ready.
\<close>

theorem claim_first_due:
  assumes "queue_inv q" "1 \<le> lease_seconds" "claim q now w lease_seconds = (res, q')"
  shows "(res = Inr None \<and> (\<forall>i j. get_job q i = Some j \<longrightarrow> \<not> claimable now j)) \<or>
    (\<exists>i j k. get_job q i = Some j \<and> claimable now j \<and>
       (\<forall>i' j'. get_job q i' = Some j' \<longrightarrow> claimable now j' \<longrightarrow> \<not> job_before j' j) \<and>
       res = Inr (Some k) \<and> get_job q' i = Some k \<and> job_holder k = Some (w, now + seconds lease_seconds) \<and>
       job_attempts k = job_attempts j + 1 \<and> job_payload k = job_payload j \<and>
       (\<forall>i'. i' \<noteq> i \<longrightarrow> get_job q' i' = map_option (requeue_expired now) (get_job q i')))"
  using assms(3,1)
proof (cases rule: claim_cases)
  case (bad e)
  with assms(2) show ?thesis by simp
next
  case none
  then show ?thesis by (simp add: claimable_due)
next
  case (some i j)
  let ?k = "leased_to now w lease_seconds (requeue_expired now j)"
  have k: "job_id ?k = i" "job_holder ?k = Some (w, now + seconds lease_seconds)"
    "job_attempts ?k = job_attempts j + 1" "job_payload ?k = job_payload j"
    using queue_invD(2) [OF assms(1) some(1)] by (simp_all add: leased_to_def requeue_expired_def job_holder_def)
  have first: "\<not> job_before j' j" if "get_job q i' = Some j'" "claimable now j'" for i' j'
    using some(6) [OF that(1)] that(2) by (simp add: claimable_due job_before_requeue)
  have "get_job q' i = Some ?k" "\<And>i'. i' \<noteq> i \<Longrightarrow> get_job q' i' = map_option (requeue_expired now) (get_job q i')"
    using some(5) k(1) by simp_all
  with some(1,2,4) k first show ?thesis
    by (intro disjI2 exI [of _ i] exI [of _ j] exI [of _ ?k]) (simp add: claimable_due)
qed

theorem claim_first_due_witness:
  "\<exists>k q'. claim (lease_run queue_apply sample_calls empty_queue) 90000000 ''w2'' 30 = (Inr (Some k), q') \<and>
     job_holder k = Some (''w2'', 90000000 + seconds 30) \<and> job_attempts k = 2"
proof -
  define q where "q = lease_run queue_apply sample_calls empty_queue"
  have inv: "queue_inv q" unfolding q_def by (rule queue_run_inv) code_simp
  obtain res q' where r: "claim q 90000000 ''w2'' 30 = (res, q')" by fastforce
  define j where "j = the (get_job q ''job_1'')"
  have j: "get_job q ''job_1'' = Some j" "claimable 90000000 j" "job_attempts j = 1"
    unfolding j_def q_def claimable_due by code_simp+
  have "map fst (jq_jobs q) = [''job_1'']" unfolding q_def by code_simp
  then have "fst ` set (jq_jobs q) = {''job_1''}" by (metis list.set(1,2) set_map)
  then have "i = ''job_1''" if "get_job q i = Some k" for i k
    using that unfolding get_job_def by (metis domI dom_map_of_conv_image_fst singletonD)
  with j have one: "job_attempts k = 1" if "get_job q i = Some k" for i k using that by fastforce
  have "(1::int) \<le> 30" by simp
  from claim_first_due [OF inv this r] show ?thesis
  proof (elim disjE exE conjE)
    assume "\<forall>i j. get_job q i = Some j \<longrightarrow> \<not> claimable 90000000 j"
    with j show ?thesis by blast
  next
    fix i k l
    assume "get_job q i = Some k" "res = Inr (Some l)" "job_holder l = Some (''w2'', 90000000 + seconds 30)"
      "job_attempts l = job_attempts k + 1"
    with r one show ?thesis unfolding q_def by (intro exI [of _ l] exI [of _ q']) simp
  qed
qed

text \<open>The heartbeats come one after the other, the first before the lease ends, each before the last renewal runs out.\<close>

fun beats_in_time :: "time \<Rightarrow> time \<Rightarrow> time list \<Rightarrow> bool" where
  "beats_in_time u len [] = True"
| "beats_in_time u len (t # ts) = (t < u \<and> beats_in_time (t + len) len ts)"

text \<open>
  A keepalive whose heartbeats come in time never loses its lease: every renewal succeeds, the
  job stays leased to the worker, and on exit the job is handed back ready for another worker
  with no renewal failure reported.
\<close>

theorem keepalive_keeps_lease:
  assumes "queue_inv q" "get_job q i = Some j" "job_holder j = Some (w, u)" "beats_in_time u (seconds lease_seconds) ts"
    and "keepalive_run q i w lease_seconds ts = (failure, q')"
    and "end < (if ts = [] then u else last ts + seconds lease_seconds)"
  shows "failure = None \<and>
    (\<exists>k. get_job q' i = Some k \<and> job_holder k = Some (w, if ts = [] then u else last ts + seconds lease_seconds) \<and>
       job_payload k = job_payload j \<and> job_attempts k = job_attempts j) \<and>
    (\<exists>q'' k. keepalive_exit q' end i w failure False = (Inr (), q'') \<and> get_job q'' i = Some k \<and>
       job_state k = JS_READY \<and> job_available_at k = end \<and> job_lease_owner k = None)"
  using assms
proof (induction ts arbitrary: q j u)
  case Nil
  then have q': "q' = q" "failure = None" by auto
  from Nil have "require_lease q end i w = Inr j" by (auto simp: require_lease_Inr)
  moreover have "job_id j = i" using queue_invD(2) [OF Nil(1,2)] .
  ultimately show ?case
    using Nil q' by (auto simp: keepalive_exit_def release_def with_lease_def release_lease_def ensure_owned_def)
next
  case (Cons t ts)
  let ?k = "j\<lparr>job_lease_until := Some (t + seconds lease_seconds), job_version := job_version j + 1\<rparr>"
  have id: "job_id j = i" using queue_invD(2) [OF Cons(2,3)] .
  from Cons have "require_lease q t i w = Inr j" by (auto simp: require_lease_Inr)
  then have hb: "heartbeat q t i w lease_seconds = (Inr ?k, put_job q ?k)" by (simp add: heartbeat_def with_lease_def)
  have inv: "queue_inv (put_job q ?k)"
    using queue_inv_apply [OF Cons(2), of "Q_Heartbeat i w lease_seconds" t] hb by simp
  have "get_job (put_job q ?k) i = Some ?k" using id by simp
  moreover have "job_holder ?k = Some (w, t + seconds lease_seconds)"
    using Cons(4) by (auto simp: job_holder_def split: if_splits option.splits)
  ultimately show ?case
    using Cons.IH [OF inv, of ?k "t + seconds lease_seconds"] Cons.prems hb by (auto split: if_splits)
qed

theorem keepalive_keeps_lease_witness:
  "fst (keepalive_run (lease_run queue_apply sample_calls empty_queue) ''job_1'' ''w1'' 30 [10000000, 20000000, 49000000]) = None"
proof -
  define q where "q = lease_run queue_apply sample_calls empty_queue"
  define j where "j = the (get_job q ''job_1'')"
  have inv: "queue_inv q" unfolding q_def by (rule queue_run_inv) code_simp
  have j: "get_job q ''job_1'' = Some j" "job_holder j = Some (''w1'', 30000001)"
    unfolding j_def q_def by code_simp+
  obtain f q' where r: "keepalive_run q ''job_1'' ''w1'' 30 [10000000, 20000000, 49000000] = (f, q')" by fastforce
  from keepalive_keeps_lease [OF inv j _ r, of 50000000] r show ?thesis
    unfolding q_def by (simp add: time_units)
qed

lemma upto_sorted: "sorted_wrt (<) (map (\<lambda>i. a + d * i) [1..n])" if "0 < d" for a d n :: int
  using that by (auto simp: sorted_wrt_map intro: sorted_wrt_mono_rel [OF _ sorted_wrt_upto])

lemma last_n_subset: "set (last_n n xs) \<subseteq> set xs"
  by (auto simp: last_n_def dest: in_set_dropD)

lemma last_n_length: "length (last_n n xs) \<le> n"
  by (simp add: last_n_def)

lemma last_n_sorted: "sorted_wrt P xs \<Longrightarrow> sorted_wrt P (last_n n xs)"
  by (simp add: last_n_def sorted_wrt_drop)

lemma last_n_last: "0 < n \<Longrightarrow> xs \<noteq> [] \<Longrightarrow> last_n n xs \<noteq> [] \<and> last (last_n n xs) = last xs"
  by (cases xs) (simp_all add: last_n_def)

lemma due_in_window:
  assumes "0 < d" "t \<in> set (map (\<lambda>i. a + d * i) [1..(now - a) div d])"
  shows "a < t \<and> t \<le> now \<and> (t - a) mod d = 0"
proof -
  from assms(2) obtain i where i: "i \<in> set [1..(now - a) div d]" "t = a + d * i" by (auto simp del: set_upto)
  then have "1 \<le> i" "i \<le> (now - a) div d" by simp_all
  from mult_left_mono [OF this(2), of d] assms(1) have "d * i \<le> d * ((now - a) div d)" by simp
  also have "\<dots> \<le> now - a" using assms(1) pos_mod_sign [of d "now - a"] mult_div_mod_eq [of d "now - a"] by linarith
  finally have "d * i \<le> now - a" .
  moreover have "0 < d * i" using assms(1) \<open>1 \<le> i\<close> by simp
  ultimately show ?thesis using i(2) by simp
qed

text \<open>
  Missed fire times: for every policy the times returned are strictly increasing multiples of the
  interval after the last fire, within (last fire, now]. SKIP returns none, COALESCE at most one,
  CATCH\_UP at most \<open>max_catch_up\<close>; and COALESCE, or CATCH\_UP with a positive bound, ends with the
  latest due time whenever one is due.
\<close>

theorem missed_fire_times_bounded:
  assumes "check_interval_schedule s = Inr s" "ts = missed_fire_times s last_fire_at now"
  shows "sorted_wrt (<) ts \<and>
    (\<forall>t\<in>set ts. last_fire_at < t \<and> t \<le> now \<and> (t - last_fire_at) mod is_interval s = 0) \<and>
    int (length ts) \<le> (case is_misfire_policy s of SKIP \<Rightarrow> 0 | COALESCE \<Rightarrow> 1 | CATCH_UP \<Rightarrow> is_max_catch_up s) \<and>
    (last_fire_at + is_interval s \<le> now \<and> is_misfire_policy s \<noteq> SKIP \<and> 0 < is_max_catch_up s \<longrightarrow>
       ts \<noteq> [] \<and> now < last ts + is_interval s)"
proof -
  let ?d = "is_interval s" and ?n = "(now - last_fire_at) div is_interval s"
  define due where "due = map (\<lambda>i. last_fire_at + ?d * i) [1..?n]"
  have pos: "0 < ?d" "0 \<le> is_max_catch_up s"
    using assms(1) by (auto simp: check_interval_schedule_def ensure_def raise_def split: if_splits)
  have sorted: "sorted_wrt (<) due" unfolding due_def by (rule upto_sorted [OF pos(1)])
  have window: "\<forall>t\<in>set due. last_fire_at < t \<and> t \<le> now \<and> (t - last_fire_at) mod ?d = 0"
    unfolding due_def using due_in_window [OF pos(1)] by blast
  show ?thesis
  proof (cases "now \<le> last_fire_at \<or> ?n < 1")
    case True
    then have "ts = []" by (auto simp: assms(2) missed_fire_times_def)
    moreover have "\<not> last_fire_at + ?d \<le> now"
      using True pos(1) zdiv_mono1 [of ?d "now - last_fire_at" ?d] by auto
    ultimately show ?thesis using pos by (simp split: misfire_policy.splits)
  next
    case False
    then have "[1..?n] = [1..?n - 1] @ [?n]" by (intro upto_rec2) simp
    then have ne: "due \<noteq> []" and last: "last due = last_fire_at + ?d * ?n"
      by (simp_all add: due_def)
    have "(now - last_fire_at) mod ?d < ?d" using pos(1) by simp
    then have late: "now < last due + ?d"
      unfolding last using mult_div_mod_eq [of ?d "now - last_fire_at"] by linarith
    have ts: "ts = (case is_misfire_policy s of SKIP \<Rightarrow> [] | COALESCE \<Rightarrow> [last due]
        | CATCH_UP \<Rightarrow> if is_max_catch_up s \<noteq> 0 then last_n (nat (is_max_catch_up s)) due else [])"
      unfolding assms(2) missed_fire_times_def Let_def due_def [symmetric] using False by simp
    show ?thesis
    proof (cases "is_misfire_policy s")
      case COALESCE
      then have "ts = [last due]" by (simp add: ts)
      moreover have "last_fire_at < last due \<and> last due \<le> now \<and> (last due - last_fire_at) mod ?d = 0"
        using window last_in_set [OF ne] by blast
      ultimately show ?thesis using late COALESCE by simp
    next
      case CATCH_UP
      have tail: "\<forall>t\<in>set (last_n m due). last_fire_at < t \<and> t \<le> now \<and> (t - last_fire_at) mod ?d = 0" for m
        using bspec [OF window] subsetD [OF last_n_subset [of m due]] by simp
      have len: "int (length (last_n (nat (is_max_catch_up s)) due)) \<le> is_max_catch_up s"
        using last_n_length [of "nat (is_max_catch_up s)" due] pos(2) by linarith
      show ?thesis
      proof (cases "is_max_catch_up s = 0")
        case True
        then have "ts = []" by (simp add: ts CATCH_UP)
        with True CATCH_UP show ?thesis by simp
      next
        case False
        then have "ts = last_n (nat (is_max_catch_up s)) due" by (simp add: ts CATCH_UP)
        moreover have "0 < nat (is_max_catch_up s)" using False pos(2) by simp
        note last_n_last [OF this ne]
        ultimately show ?thesis
          using CATCH_UP late tail [of "nat (is_max_catch_up s)"] len last_n_sorted [OF sorted, of "nat (is_max_catch_up s)"]
          by (intro conjI impI) simp_all
      qed
    qed (use ts in simp)
  qed
qed

theorem missed_fire_times_bounded_witness:
  "missed_fire_times \<lparr>is_id = ''s'', is_extension_id = ''e'', is_interval = 10, is_timezone = ''UTC'',
     is_misfire_policy = CATCH_UP, is_max_catch_up = 2\<rparr> 5 47 = [35, 45] \<and> (47::int) < last [35, 45] + 10"
proof -
  let ?s = "\<lparr>is_id = ''s'', is_extension_id = ''e'', is_interval = 10, is_timezone = ''UTC'',
     is_misfire_policy = CATCH_UP, is_max_catch_up = 2\<rparr>"
  have s: "check_interval_schedule ?s = Inr ?s" "missed_fire_times ?s 5 47 = [35, 45]" by code_simp+
  with missed_fire_times_bounded [OF s(1) refl, of 5 47] show ?thesis by simp
qed

end
