(* ===== verification/PA_Tasks.thy ===== *)
theory PA_Tasks
  imports PA_Jobs "HOL-Library.Product_Lexorder"
begin

text \<open>
  \<open>core/tasks/service.py\<close> with its in-memory collaborator \<open>infrastructure/memory/tasks.py\<close> (tasks,
  messages and the event stream) and the audit writer. A repository method runs under
  its lock and is one step. A service method is a sequence of such steps; \<open>scope\<close> is the optional unit of
  work around them, which keeps all of them or none.
\<close>

section \<open>Task repository\<close>

record task_message =
  tm_id :: string
  tm_task_id :: string
  tm_actor :: string
  tm_content :: string
  tm_created_at :: time

record task_repo =
  tr_tasks :: "(string \<times> task) list"
  tr_messages :: "string \<rightharpoonup> task_message list"
  tr_idempotency :: "string \<rightharpoonup> string \<times> string"
  tr_message_commands :: "string \<rightharpoonup> string \<times> string \<times> string"
  tr_cancel_commands :: "string \<rightharpoonup> string"

definition empty_task_repo :: task_repo where
  "empty_task_repo = \<lparr>tr_tasks = [], tr_messages = Map.empty, tr_idempotency = Map.empty,
     tr_message_commands = Map.empty, tr_cancel_commands = Map.empty\<rparr>"

definition stored_task :: "task_repo \<Rightarrow> string \<Rightarrow> task result" where
  "stored_task r i = (case dget (tr_tasks r) i of None \<Rightarrow> raise KeyError (py_repr i) | Some t \<Rightarrow> Inr t)"

definition tasks_create :: "task_repo \<Rightarrow> task \<Rightarrow> string \<Rightarrow> task result \<times> task_repo" where
  "tasks_create r t key =
     (case tr_idempotency r key of
        Some (existing_id, original_objective) \<Rightarrow>
          if original_objective \<noteq> task_objective t
          then (raise ConcurrentModificationError ''idempotency key was reused with a different task objective'', r)
          else (stored_task r existing_id, r)
      | None \<Rightarrow>
          if dget (tr_tasks r) (task_id t) \<noteq> None
          then (raise AlreadyExistsError (''task already exists: '' @ task_id t), r)
          else (Inr t, r\<lparr>tr_tasks := dset (task_id t) t (tr_tasks r), tr_messages := (tr_messages r)(task_id t \<mapsto> []),
                         tr_idempotency := (tr_idempotency r)(key \<mapsto> (task_id t, task_objective t))\<rparr>))"

definition tasks_get :: "task_repo \<Rightarrow> string \<Rightarrow> task result" where
  "tasks_get r i = (case dget (tr_tasks r) i of None \<Rightarrow> raise NotFoundError (''task not found: '' @ i) | Some t \<Rightarrow> Inr t)"

definition task_age :: "task \<Rightarrow> int \<times> string" where
  "task_age t = (task_created_at t, task_id t)"

text \<open>\<open>sorted(..., reverse=True)\<close> keeps the order of equal elements.\<close>

definition newest_first :: "task list \<Rightarrow> task list" where
  "newest_first ts = rev (sort_key task_age (rev ts))"

definition tasks_list_recent :: "task_repo \<Rightarrow> nat \<Rightarrow> string option \<Rightarrow> task list result" where
  "tasks_list_recent r limit before =
     (let ts = newest_first (map snd (tr_tasks r)) in
      case before of
        None \<Rightarrow> Inr (take limit ts)
      | Some b \<Rightarrow>
          (case dget (tr_tasks r) b of
             None \<Rightarrow> raise NotFoundError (''task not found: '' @ b)
           | Some cursor \<Rightarrow> Inr (take limit (filter (\<lambda>t. task_age t < task_age cursor) ts))))"

definition tasks_save :: "task_repo \<Rightarrow> task \<Rightarrow> int \<Rightarrow> task result \<times> task_repo" where
  "tasks_save r t expected =
     (case dget (tr_tasks r) (task_id t) of
        None \<Rightarrow> (raise NotFoundError (''task not found: '' @ task_id t), r)
      | Some current \<Rightarrow>
          if task_version current \<noteq> expected \<or> task_version t \<le> expected
          then (raise ConcurrentModificationError (''task '' @ task_id t @ '' expected version '' @ int_str expected @
                  '', found '' @ int_str (task_version current)), r)
          else (Inr t, r\<lparr>tr_tasks := dset (task_id t) t (tr_tasks r)\<rparr>))"

definition tasks_add_message ::
  "task_repo \<Rightarrow> task_message \<Rightarrow> int \<Rightarrow> string \<Rightarrow> (task \<times> task_message) result \<times> task_repo" where
  "tasks_add_message r m expected key =
     (case tr_message_commands r key of
        Some (replay_task, replay_message, original_content) \<Rightarrow>
          if replay_task \<noteq> tm_task_id m \<or> original_content \<noteq> tm_content m
          then (raise ConcurrentModificationError ''idempotency key was reused with a different message'', r)
          else (case tr_messages r replay_task of
                  None \<Rightarrow> (raise KeyError (py_repr replay_task), r)
                | Some ms \<Rightarrow>
                    (case find (\<lambda>item. tm_id item = replay_message) ms of
                       None \<Rightarrow> (raise RuntimeError ''coroutine raised StopIteration'', r)
                     | Some existing \<Rightarrow> (rbind (stored_task r replay_task) (\<lambda>t. Inr (t, existing)), r)))
      | None \<Rightarrow>
          (case dget (tr_tasks r) (tm_task_id m) of
             None \<Rightarrow> (raise NotFoundError (''task not found: '' @ tm_task_id m), r)
           | Some current \<Rightarrow>
               if task_version current \<noteq> expected then (raise ConcurrentModificationError ''task version changed'', r)
               else (case tr_messages r (tm_task_id m) of
                       None \<Rightarrow> (raise KeyError (py_repr (tm_task_id m)), r)
                     | Some ms \<Rightarrow>
                         (let updated = current\<lparr>task_version := task_version current + 1\<rparr> in
                          (Inr (updated, m),
                           r\<lparr>tr_messages := (tr_messages r)(tm_task_id m \<mapsto> ms @ [m]),
                             tr_tasks := dset (tm_task_id m) updated (tr_tasks r),
                             tr_message_commands := (tr_message_commands r)(key \<mapsto> (tm_task_id m, tm_id m, tm_content m))\<rparr>)))))"

definition tasks_cancel :: "task_repo \<Rightarrow> string \<Rightarrow> int \<Rightarrow> string \<Rightarrow> task result \<times> task_repo" where
  "tasks_cancel r i expected key =
     (case tr_cancel_commands r key of
        Some replay_id \<Rightarrow>
          if replay_id \<noteq> i
          then (raise ConcurrentModificationError ''idempotency key was reused for a different task cancellation'', r)
          else (stored_task r replay_id, r)
      | None \<Rightarrow>
          (case dget (tr_tasks r) i of
             None \<Rightarrow> (raise NotFoundError (''task not found: '' @ i), r)
           | Some current \<Rightarrow>
               if task_version current \<noteq> expected then (raise ConcurrentModificationError ''task version changed'', r)
               else if task_terminal (task_state current)
               then (raise ValidationError ''terminal task cannot be cancelled'', r)
               else (let updated = current\<lparr>task_state := TS_CANCELLED, task_version := task_version current + 1\<rparr> in
                     (Inr updated, r\<lparr>tr_tasks := dset i updated (tr_tasks r),
                                     tr_cancel_commands := (tr_cancel_commands r)(key \<mapsto> i)\<rparr>))))"

definition tasks_messages :: "task_repo \<Rightarrow> string \<Rightarrow> task_message list result" where
  "tasks_messages r i =
     (if dget (tr_tasks r) i = None then raise NotFoundError (''task not found: '' @ i)
      else case tr_messages r i of None \<Rightarrow> raise KeyError (py_repr i) | Some ms \<Rightarrow> Inr ms)"

section \<open>Event stream\<close>

record task_event =
  ev_sequence :: nat
  ev_type :: string
  ev_task_id :: string
  ev_data :: "(string \<times> pyval) list"
  ev_occurred_at :: time

definition publish_event ::
  "task_event list \<Rightarrow> time \<Rightarrow> string \<Rightarrow> string \<Rightarrow> (string \<times> pyval) list \<Rightarrow> task_event list" where
  "publish_event es now event_type i data =
     es @ [\<lparr>ev_sequence = length es + 1, ev_type = event_type, ev_task_id = i, ev_data = data, ev_occurred_at = now\<rparr>]"

definition events_after :: "task_event list \<Rightarrow> nat \<Rightarrow> task_event list" where
  "events_after es sequence = filter (\<lambda>e. sequence < ev_sequence e) es"

text \<open>\<open>woken\<close> is the stream when the condition was notified, or None if the wait timed out.\<close>

definition events_wait_after :: "task_event list \<Rightarrow> task_event list option \<Rightarrow> nat \<Rightarrow> task_event list" where
  "events_wait_after es woken sequence =
     (let existing = events_after es sequence in
      if existing \<noteq> [] then existing
      else case woken of None \<Rightarrow> [] | Some es' \<Rightarrow> events_after es' sequence)"

section \<open>TaskService\<close>

record task_world =
  tw_repo :: task_repo
  tw_queue :: job_queue
  tw_events :: "task_event list"
  tw_audit :: "audit_entry list"

definition in_repo :: "(task_repo \<Rightarrow> 'a result \<times> task_repo) \<Rightarrow> task_world \<Rightarrow> 'a result \<times> task_world" where
  "in_repo f w = (case f (tw_repo w) of (res, r) \<Rightarrow> (res, w\<lparr>tw_repo := r\<rparr>))"

definition in_queue :: "(job_queue \<Rightarrow> 'a result \<times> job_queue) \<Rightarrow> task_world \<Rightarrow> 'a result \<times> task_world" where
  "in_queue f w = (case f (tw_queue w) of (res, q) \<Rightarrow> (res, w\<lparr>tw_queue := q\<rparr>))"

definition publish_task :: "time \<Rightarrow> string \<Rightarrow> string \<Rightarrow> (string \<times> pyval) list \<Rightarrow> task_world \<Rightarrow> task_world" where
  "publish_task now event_type i data w = w\<lparr>tw_events := publish_event (tw_events w) now event_type i data\<rparr>"

definition audit_task :: "time \<Rightarrow> string \<Rightarrow> string \<Rightarrow> string \<Rightarrow> (string \<times> pyval) list \<Rightarrow> task_world \<Rightarrow> task_world" where
  "audit_task now event_type actor i data w =
     w\<lparr>tw_audit := audit_append (tw_audit w)
       \<lparr>ae_event_type = event_type, ae_actor = actor, ae_resource_type = ''task'', ae_resource_id = i,
        ae_data = VDict data, ae_occurred_at = now\<rparr>\<rparr>"

definition scope :: "bool \<Rightarrow> ('s \<Rightarrow> 'a result \<times> 's) \<Rightarrow> 's \<Rightarrow> 'a result \<times> 's" where
  "scope unit_of_work f w =
     (case f w of (Inl e, w') \<Rightarrow> (Inl e, if unit_of_work then w else w') | (Inr x, w') \<Rightarrow> (Inr x, w'))"

definition start_task :: "time \<Rightarrow> string \<Rightarrow> string \<Rightarrow> task \<Rightarrow> task_world \<Rightarrow> task result \<times> task_world" where
  "start_task now job_uid actor t w =
     (if task_state t \<noteq> TS_CREATED then (Inr t, w)
      else
        sbind (in_queue (\<lambda>q. enqueue q now job_uid ''agent.start'' [(''task_id'', VStr (task_id t))]
                 (''task-start:'' @ task_id t) None 5) w) (\<lambda>_ w.
        case check_task (t\<lparr>task_state := TS_QUEUED, task_version := task_version t + 1\<rparr>) of
          Inl e \<Rightarrow> (Inl e, w)
        | Inr queued \<Rightarrow>
            sbind (in_repo (\<lambda>r. tasks_save r queued (task_version t)) w) (\<lambda>t' w.
              (Inr t',
               audit_task now ''task.created'' actor (task_id t') [(''state'', VStr (task_state_value (task_state t')))]
                (publish_task now ''task.queued'' (task_id t') [(''state'', VStr (task_state_value (task_state t')))] w)))))"

definition create_task ::
  "bool \<Rightarrow> time \<Rightarrow> string \<Rightarrow> string \<Rightarrow> string \<Rightarrow> string \<Rightarrow> string \<Rightarrow> task_world \<Rightarrow> task result \<times> task_world" where
  "create_task uow now uid job_uid objective key actor w =
     (if blank objective then (raise ValidationError ''objective is required'', w)
      else if blank key then (raise ValidationError ''Idempotency-Key is required'', w)
      else case check_task \<lparr>task_id = ''task_'' @ uid, task_objective = strip objective, task_state = TS_CREATED,
                            task_version = 0, task_created_at = now\<rparr> of
        Inl e \<Rightarrow> (Inl e, w)
      | Inr candidate \<Rightarrow>
          scope uow (\<lambda>w. sbind (in_repo (\<lambda>r. tasks_create r candidate key) w) (start_task now job_uid actor)) w)"

definition list_recent :: "task_world \<Rightarrow> int \<Rightarrow> string option \<Rightarrow> task list result" where
  "list_recent w limit before =
     ensure (1 \<le> limit \<and> limit \<le> 101) ValidationError ''task page size must be between 1 and 101''
       (tasks_list_recent (tw_repo w) (nat limit) before)"

definition add_message ::
  "bool \<Rightarrow> time \<Rightarrow> string \<Rightarrow> string \<Rightarrow> string \<Rightarrow> int \<Rightarrow> string \<Rightarrow> string \<Rightarrow> task_world
   \<Rightarrow> (task \<times> task_message) result \<times> task_world" where
  "add_message uow now uid i content expected actor key w =
     (if blank content then (raise ValidationError ''message content is required'', w)
      else
        let m = \<lparr>tm_id = ''msg_'' @ uid, tm_task_id = i, tm_actor = actor, tm_content = strip content, tm_created_at = now\<rparr> in
        scope uow (\<lambda>w. sbind (in_repo (\<lambda>r. tasks_add_message r m expected key) w) (\<lambda>(t, m') w.
          (Inr (t, m'), publish_task now ''task.message_added'' (task_id t) [(''message_id'', VStr (tm_id m'))] w))) w)"

text \<open>\<open>project\<close> decides on the task it read and saves with the version it read.\<close>

definition project_decide :: "task_state \<Rightarrow> task \<Rightarrow> task option" where
  "project_decide st t =
     (if task_state t \<in> {TS_CANCELLED, TS_SUCCEEDED, TS_FAILED} then None
      else if task_state t = st then None
      else Some (t\<lparr>task_state := st, task_version := task_version t + 1\<rparr>))"

definition project_commit :: "time \<Rightarrow> task \<Rightarrow> task \<Rightarrow> task_world \<Rightarrow> task result \<times> task_world" where
  "project_commit now t new w =
     (case check_task new of
        Inl e \<Rightarrow> (Inl e, w)
      | Inr new \<Rightarrow>
          sbind (in_repo (\<lambda>r. tasks_save r new (task_version t)) w) (\<lambda>saved w.
            (Inr saved, publish_task now ''task.state_changed'' (task_id t) [(''state'', VStr (task_state_value (task_state new)))] w)))"

definition project_task :: "time \<Rightarrow> string \<Rightarrow> task_state \<Rightarrow> task_world \<Rightarrow> task result \<times> task_world" where
  "project_task now i st w =
     (case tasks_get (tw_repo w) i of
        Inl e \<Rightarrow> (Inl e, w)
      | Inr t \<Rightarrow> (case project_decide st t of None \<Rightarrow> (Inr t, w) | Some new \<Rightarrow> project_commit now t new w))"

definition assistant_message ::
  "bool \<Rightarrow> time \<Rightarrow> string \<Rightarrow> string \<Rightarrow> string \<Rightarrow> string \<Rightarrow> task_world \<Rightarrow> unit result \<times> task_world" where
  "assistant_message uow now uid i content key w =
     (case tasks_get (tw_repo w) i of
        Inl e \<Rightarrow> (Inl e, w)
      | Inr t \<Rightarrow> sbind (add_message uow now uid i content (task_version t) ''assistant'' key w) (\<lambda>_ w. (Inr (), w)))"

definition cancel_task ::
  "bool \<Rightarrow> time \<Rightarrow> string \<Rightarrow> int \<Rightarrow> string \<Rightarrow> string \<Rightarrow> task_world \<Rightarrow> task result \<times> task_world" where
  "cancel_task uow now i expected actor key w =
     scope uow (\<lambda>w. sbind (in_repo (\<lambda>r. tasks_cancel r i expected key) w) (\<lambda>saved w.
       (Inr saved,
        audit_task now ''task.cancelled'' actor (task_id saved) []
         (publish_task now ''task.cancelled'' (task_id saved) [(''state'', VStr (task_state_value (task_state saved)))] w)))) w"

section \<open>The repository as a compare-and-swap store\<close>

abbreviation tget :: "task_repo \<Rightarrow> string \<Rightarrow> task option" where
  "tget r i \<equiv> dget (tr_tasks r) i"

interpretation task_store: cas_store tget task_id task_version tasks_save
  by unfold_locales
    (auto simp: tasks_save_def raise_def split: option.splits if_splits)

section \<open>Invariant of the repository\<close>

definition task_inv :: "task_repo \<Rightarrow> bool" where
  "task_inv r \<longleftrightarrow> wf_dict (tr_tasks r) \<and>
     (\<forall>i t. tget r i = Some t \<longrightarrow> task_id t = i \<and> check_task t = Inr t \<and> tr_messages r i \<noteq> None) \<and>
     (\<forall>k i ob. tr_idempotency r k = Some (i, ob) \<longrightarrow> (\<exists>t. tget r i = Some t \<and> task_objective t = ob)) \<and>
     (\<forall>k i m c. tr_message_commands r k = Some (i, m, c) \<longrightarrow>
        tget r i \<noteq> None \<and> (\<exists>ms. tr_messages r i = Some ms \<and> (\<exists>x\<in>set ms. tm_id x = m))) \<and>
     (\<forall>k i. tr_cancel_commands r k = Some i \<longrightarrow> (\<exists>t. tget r i = Some t \<and> task_state t = TS_CANCELLED))"

lemma task_invD:
  assumes "task_inv r"
  shows "wf_dict (tr_tasks r)" "tget r i = Some t \<Longrightarrow> task_id t = i" "tget r i = Some t \<Longrightarrow> check_task t = Inr t"
    "tget r i = Some t \<Longrightarrow> tr_messages r i \<noteq> None"
    "tr_idempotency r k = Some (i, ob) \<Longrightarrow> \<exists>t. tget r i = Some t \<and> task_objective t = ob"
    "tr_message_commands r k = Some (i, m, c) \<Longrightarrow>
       tget r i \<noteq> None \<and> (\<exists>ms. tr_messages r i = Some ms \<and> (\<exists>x\<in>set ms. tm_id x = m))"
    "tr_cancel_commands r k = Some i \<Longrightarrow> \<exists>t. tget r i = Some t \<and> task_state t = TS_CANCELLED"
  using assms unfolding task_inv_def by blast+

lemma task_inv_empty: "task_inv empty_task_repo"
  by (simp add: task_inv_def empty_task_repo_def)

text \<open>Tasks are never lost, only grow in version, keep objective and age, and keep a terminal state.\<close>

definition succeeds :: "task \<Rightarrow> task \<Rightarrow> bool" where
  "succeeds t t' \<longleftrightarrow> task_version t \<le> task_version t' \<and> (task_version t' = task_version t \<longrightarrow> t' = t) \<and>
     task_objective t' = task_objective t \<and> task_created_at t' = task_created_at t \<and>
     (task_terminal (task_state t) \<longrightarrow> task_state t' = task_state t)"

definition task_le :: "task_repo \<Rightarrow> task_repo \<Rightarrow> bool" where
  "task_le r r' \<longleftrightarrow> (\<forall>i t. tget r i = Some t \<longrightarrow> (\<exists>t'. tget r' i = Some t' \<and> succeeds t t')) \<and>
     tr_idempotency r \<subseteq>\<^sub>m tr_idempotency r'"

lemma succeeds_refl [simp]: "succeeds t t"
  by (simp add: succeeds_def)

lemma succeeds_trans: "succeeds a b \<Longrightarrow> succeeds b c \<Longrightarrow> succeeds a c"
  by (auto simp: succeeds_def)

lemma task_le_refl [simp]: "task_le r r"
  by (simp add: task_le_def)

lemma task_le_at: "task_le r r' \<Longrightarrow> tget r i = Some t \<Longrightarrow> \<exists>t'. tget r' i = Some t' \<and> succeeds t t'"
  by (simp add: task_le_def)

lemma task_le_trans:
  assumes "task_le a b" "task_le b c"
  shows "task_le a c"
  unfolding task_le_def
proof (intro conjI allI impI)
  show "tr_idempotency a \<subseteq>\<^sub>m tr_idempotency c"
    using assms map_le_trans [of "tr_idempotency a" "tr_idempotency b" "tr_idempotency c"] by (simp add: task_le_def)
  fix i t
  assume "tget a i = Some t"
  with task_le_at [OF assms(1)] obtain t' where t': "tget b i = Some t'" "succeeds t t'" by blast
  from task_le_at [OF assms(2) t'(1)] t'(2) show "\<exists>t'. tget c i = Some t' \<and> succeeds t t'"
    by (blast intro: succeeds_trans)
qed

text \<open>Replacing one stored task by a successor that stays cancelled if it was.\<close>

lemma task_inv_put:
  assumes "task_inv r" "tget r i = Some t" "task_id t' = i" "check_task t' = Inr t'" "succeeds t t'"
  shows "task_inv (r\<lparr>tr_tasks := dset i t' (tr_tasks r)\<rparr>)" "task_le r (r\<lparr>tr_tasks := dset i t' (tr_tasks r)\<rparr>)"
proof -
  have keep: "task_state t = TS_CANCELLED \<Longrightarrow> task_state t' = TS_CANCELLED" "task_objective t' = task_objective t"
    using assms(5) by (auto simp: succeeds_def task_terminal_def)
  show "task_le r (r\<lparr>tr_tasks := dset i t' (tr_tasks r)\<rparr>)"
    using assms by (auto simp: task_le_def)
  show "task_inv (r\<lparr>tr_tasks := dset i t' (tr_tasks r)\<rparr>)"
    unfolding task_inv_def
  proof (intro conjI allI impI)
    show "wf_dict (tr_tasks (r\<lparr>tr_tasks := dset i t' (tr_tasks r)\<rparr>))" using task_invD(1) [OF assms(1)] by simp
    fix k l assume "tget (r\<lparr>tr_tasks := dset i t' (tr_tasks r)\<rparr>) k = Some l"
    then show "task_id l = k" "check_task l = Inr l" "tr_messages (r\<lparr>tr_tasks := dset i t' (tr_tasks r)\<rparr>) k \<noteq> None"
      using task_invD(2,3,4) [OF assms(1), of k] assms(2-4) by (cases "k = i"; simp)+
  next
    fix k j ob assume "tr_idempotency (r\<lparr>tr_tasks := dset i t' (tr_tasks r)\<rparr>) k = Some (j, ob)"
    with task_invD(5) [OF assms(1), of k j ob] assms(2) keep(2)
    show "\<exists>t. tget (r\<lparr>tr_tasks := dset i t' (tr_tasks r)\<rparr>) j = Some t \<and> task_objective t = ob" by auto
  next
    fix k j m c assume "tr_message_commands (r\<lparr>tr_tasks := dset i t' (tr_tasks r)\<rparr>) k = Some (j, m, c)"
    with task_invD(6) [OF assms(1), of k j m c]
    show "tget (r\<lparr>tr_tasks := dset i t' (tr_tasks r)\<rparr>) j \<noteq> None"
      "\<exists>ms. tr_messages (r\<lparr>tr_tasks := dset i t' (tr_tasks r)\<rparr>) j = Some ms \<and> (\<exists>x\<in>set ms. tm_id x = m)" by auto
  next
    fix k j assume "tr_cancel_commands (r\<lparr>tr_tasks := dset i t' (tr_tasks r)\<rparr>) k = Some j"
    with task_invD(7) [OF assms(1), of k j] assms(2) keep(1)
    show "\<exists>t. tget (r\<lparr>tr_tasks := dset i t' (tr_tasks r)\<rparr>) j = Some t \<and> task_state t = TS_CANCELLED" by auto
  qed
qed

lemma check_task_eq: "check_task t = Inr u \<longleftrightarrow> u = t \<and> task_id t \<noteq> [] \<and> \<not> blank (task_objective t) \<and> 0 \<le> task_version t"
  by (auto simp: check_task_def)

lemma tasks_create_ok:
  assumes "task_inv r" "check_task t = Inr t" "tasks_create r t key = (res, r')"
  shows "task_inv r' \<and> task_le r r'"
proof (cases "tr_idempotency r key = None \<and> tget r (task_id t) = None")
  case False
  with assms(3) have "r' = r" by (auto simp: tasks_create_def split: option.splits prod.splits if_splits)
  with assms(1) show ?thesis by simp
next
  case True
  with assms(3) have r': "r' = r\<lparr>tr_tasks := dset (task_id t) t (tr_tasks r), tr_messages := (tr_messages r)(task_id t \<mapsto> []),
      tr_idempotency := (tr_idempotency r)(key \<mapsto> (task_id t, task_objective t))\<rparr>" by (simp add: tasks_create_def)
  note D = task_invD [OF assms(1)]
  have "task_inv r'"
    unfolding task_inv_def r'
  proof (intro conjI allI impI, goal_cases)
    case 1 then show ?case using D(1) by simp
  next
    case (2 i u) then show ?case using D(2) by (auto split: if_splits)
  next
    case (3 i u) then show ?case using D(3) assms(2) by (auto split: if_splits)
  next
    case (4 i u) then show ?case using D(4) by (auto split: if_splits)
  next
    case (5 k i ob) then show ?case using D(5) [of k i ob] True by (auto split: if_splits)
  next
    case (6 k i m c) then show ?case using D(6) [of k i m c] by auto
  next
    case (7 k i m c) then show ?case using D(6) [of k i m c] True by auto
  next
    case (8 k i) then show ?case using D(7) [of k i] True by auto
  qed
  moreover have "task_le r r'" using True by (auto simp: task_le_def r' map_le_def)
  ultimately show ?thesis by blast
qed

lemma tasks_add_message_ok:
  assumes "task_inv r" "tasks_add_message r m expected key = (res, r')"
  shows "task_inv r' \<and> task_le r r'"
proof (cases "r' = r")
  case False
  with assms(2) obtain t ms where t: "tget r (tm_task_id m) = Some t" "tr_messages r (tm_task_id m) = Some ms"
    "r' = r\<lparr>tr_messages := (tr_messages r)(tm_task_id m \<mapsto> ms @ [m]),
       tr_tasks := dset (tm_task_id m) (t\<lparr>task_version := task_version t + 1\<rparr>) (tr_tasks r),
       tr_message_commands := (tr_message_commands r)(key \<mapsto> (tm_task_id m, tm_id m, tm_content m))\<rparr>"
    by (auto simp: tasks_add_message_def raise_def Let_def split: option.splits if_splits prod.splits)
  let ?t = "t\<lparr>task_version := task_version t + 1\<rparr>"
  note D = task_invD [OF assms(1)]
  have c: "check_task ?t = Inr ?t" using D(3) [OF t(1)] by (simp add: check_task_eq)
  note put = task_inv_put [OF assms(1) t(1) _ c, simplified, OF D(2) [OF t(1)]]
  have s: "succeeds t ?t" by (simp add: succeeds_def)
  note P = task_invD [OF put(1) [OF s]]
  have "task_inv r'"
    unfolding task_inv_def t(3)
  proof (intro conjI allI impI, goal_cases)
    case 1 then show ?case using P(1) by simp
  next
    case (2 i u) then show ?case using P(2) [of i u] by simp
  next
    case (3 i u) then show ?case using P(3) [of i u] by simp
  next
    case (4 i u) then show ?case using P(4) [of i u] by auto
  next
    case (5 k i ob) then show ?case using P(5) [of k i ob] by simp
  next
    case (6 k i m c) then show ?case using P(6) [of k i m c] by (auto split: if_splits)
  next
    case (7 k i m c) then show ?case using P(6) [of k i m c] t(2) by (auto split: if_splits)
  next
    case (8 k i) then show ?case using P(7) [of k i] by simp
  qed
  moreover have "task_le r r'" using put(2) [OF s] by (simp add: task_le_def t(3))
  ultimately show ?thesis by blast
qed (use assms in simp)

lemma tasks_cancel_ok:
  assumes "task_inv r" "tasks_cancel r i expected key = (res, r')"
  shows "task_inv r' \<and> task_le r r'"
proof (cases "r' = r")
  case False
  with assms(2) obtain t where t: "tget r i = Some t" "\<not> task_terminal (task_state t)"
    "r' = r\<lparr>tr_tasks := dset i (t\<lparr>task_state := TS_CANCELLED, task_version := task_version t + 1\<rparr>) (tr_tasks r),
       tr_cancel_commands := (tr_cancel_commands r)(key \<mapsto> i)\<rparr>"
    by (auto simp: tasks_cancel_def raise_def Let_def split: option.splits if_splits prod.splits)
  let ?t = "t\<lparr>task_state := TS_CANCELLED, task_version := task_version t + 1\<rparr>"
  note D = task_invD [OF assms(1)]
  have c: "check_task ?t = Inr ?t" using D(3) [OF t(1)] by (simp add: check_task_eq)
  note put = task_inv_put [OF assms(1) t(1) _ c, simplified, OF D(2) [OF t(1)]]
  have s: "succeeds t ?t" using t(2) by (simp add: succeeds_def)
  note P = task_invD [OF put(1) [OF s]]
  have "task_inv r'"
    unfolding task_inv_def t(3)
  proof (intro conjI allI impI, goal_cases)
    case 1 then show ?case using P(1) by simp
  next
    case (2 i u) then show ?case using P(2) [of i u] by simp
  next
    case (3 i u) then show ?case using P(3) [of i u] by simp
  next
    case (4 i u) then show ?case using P(4) [of i u] by auto
  next
    case (5 k i ob) then show ?case using P(5) [of k i ob] by simp
  next
    case (6 k i m c) then show ?case using P(6) [of k i m c] by auto
  next
    case (7 k i m c) then show ?case using P(6) [of k i m c] by auto
  next
    case (8 k j) then show ?case using P(7) [of k j] by (auto split: if_splits)
  qed
  moreover have "task_le r r'" using put(2) [OF s] by (simp add: task_le_def t(3))
  ultimately show ?thesis by blast
qed (use assms in simp)

text \<open>A save of a task read earlier: it succeeds only while that task is still the stored one.\<close>

lemma tasks_save_ok:
  assumes "task_inv r" "seen tget task_id task_version r t" "task_id new = task_id t" "check_task new = Inr new"
    and "succeeds t new" "tasks_save r new (task_version t) = (res, r')"
  shows "task_inv r' \<and> task_le r r'"
proof (cases res)
  case (Inl e)
  from task_store.save_err [OF assms(6) [unfolded Inl]] assms(1) show ?thesis by simp
next
  case (Inr u)
  note save = assms(6) [unfolded Inr]
  from task_store.seen_commit [OF assms(2,3) save] have cur: "tget r (task_id t) = Some t" .
  from save cur assms(3) have "r' = r\<lparr>tr_tasks := dset (task_id t) new (tr_tasks r)\<rparr>"
    by (auto simp: tasks_save_def raise_def split: if_splits)
  with task_inv_put [OF assms(1) cur assms(3-5)] show ?thesis by simp
qed

section \<open>Invariant of the service\<close>

definition numbered :: "task_event list \<Rightarrow> bool" where
  "numbered es \<longleftrightarrow> map ev_sequence es = [1..<Suc (length es)]"

definition world_ok :: "task_world \<Rightarrow> bool" where
  "world_ok w \<longleftrightarrow> task_inv (tw_repo w) \<and> queue_inv (tw_queue w) \<and> numbered (tw_events w)"

definition world_le :: "task_world \<Rightarrow> task_world \<Rightarrow> bool" where
  "world_le w w' \<longleftrightarrow> world_ok w' \<and> task_le (tw_repo w) (tw_repo w')"

lemma world_le_refl: "world_ok w \<Longrightarrow> world_le w w"
  by (simp add: world_le_def)

lemma world_le_trans: "world_le a b \<Longrightarrow> world_le b c \<Longrightarrow> world_le a c"
  by (auto simp: world_le_def intro: task_le_trans)

lemma world_leD: "world_le w w' \<Longrightarrow> world_ok w'" "world_le w w' \<Longrightarrow> task_le (tw_repo w) (tw_repo w')"
  by (simp_all add: world_le_def)

lemma numbered_publish: "numbered es \<Longrightarrow> numbered (publish_event es now ty i d)"
  by (simp add: numbered_def publish_event_def)

lemma world_le_note: "world_le w w' \<Longrightarrow> world_le w (publish_task now ty i d w')" "world_le w w' \<Longrightarrow> world_le w (audit_task now ty a i d w')"
  by (simp_all add: world_le_def world_ok_def publish_task_def audit_task_def numbered_publish)

lemma scope_world_le: "world_ok w \<Longrightarrow> world_le w (snd (f w)) \<Longrightarrow> world_le w (snd (scope uow f w))"
  by (auto simp: scope_def world_le_refl split: prod.splits sum.splits)

lemma in_repo_world_le:
  assumes "world_ok w" "\<And>res r. f (tw_repo w) = (res, r) \<Longrightarrow> task_inv r \<and> task_le (tw_repo w) r"
  shows "world_le w (snd (in_repo f w))"
  using assms by (auto simp: in_repo_def world_le_def world_ok_def split: prod.splits)

lemma enqueue_world_le:
  assumes "world_ok w" "get_job (tw_queue w) (''job_'' @ uid) = None"
  shows "world_le w (snd (in_queue (\<lambda>q. enqueue q now uid kind payload key av mx) w))"
proof -
  have "queue_inv (queue_apply now (Q_Enqueue uid kind payload key av mx) (tw_queue w))"
    using assms by (intro queue_inv_apply) (simp_all add: world_ok_def)
  then show ?thesis
    using assms(1) by (auto simp: world_le_def world_ok_def in_queue_def split: prod.splits)
qed

lemma in_queue_repo [simp]: "tw_repo (snd (in_queue f w)) = tw_repo w"
  by (simp add: in_queue_def split: prod.splits)

lemma tasks_create_get:
  assumes "task_inv r" "tasks_create r c key = (Inr t, r')"
  shows "tget r' (task_id t) = Some t" "tr_idempotency r' key = Some (task_id t, task_objective t)"
    "task_objective t = task_objective c"
proof -
  have "tget r' (task_id t) = Some t \<and> tr_idempotency r' key = Some (task_id t, task_objective t) \<and> task_objective t = task_objective c"
  proof (cases "tr_idempotency r key")
    case None
    with assms(2) show ?thesis by (auto simp: tasks_create_def split: if_splits)
  next
    case (Some io)
    obtain i ob where io: "io = (i, ob)" by fastforce
    with Some assms(2) have t: "tget r i = Some t" "r' = r" "ob = task_objective c"
      by (auto simp: tasks_create_def stored_task_def raise_def split: if_splits option.splits)
    with task_invD(2) [OF assms(1) t(1)] task_invD(5) [OF assms(1) Some [unfolded io]] Some io show ?thesis by auto
  qed
  then show "tget r' (task_id t) = Some t" "tr_idempotency r' key = Some (task_id t, task_objective t)"
    "task_objective t = task_objective c" by auto
qed

lemma start_task_world_le:
  assumes "world_ok w" "tget (tw_repo w) (task_id t) = Some t" "get_job (tw_queue w) (''job_'' @ uid) = None"
  shows "world_le w (snd (start_task now uid actor t w))"
proof (cases "task_state t = TS_CREATED")
  case True
  define q where "q = in_queue (\<lambda>q. enqueue q now uid ''agent.start'' [(''task_id'', VStr (task_id t))] (''task-start:'' @ task_id t) None 5) w"
  have q: "world_le w (snd q)" "tw_repo (snd q) = tw_repo w"
    unfolding q_def by (rule enqueue_world_le [OF assms(1,3)]) simp
  let ?t = "t\<lparr>task_state := TS_QUEUED, task_version := task_version t + 1\<rparr>"
  have inv: "task_inv (tw_repo (snd q))" using assms(1) q by (simp add: world_ok_def)
  have c: "check_task ?t = Inr ?t" using task_invD(3) [OF inv, of "task_id t" t] assms(2) q by (simp add: check_task_eq)
  have seen: "seen tget task_id task_version (tw_repo (snd q)) t"
    by (rule task_store.seen_read) (simp add: q assms(2))
  have sv: "task_inv r \<and> task_le (tw_repo (snd q)) r" if "tasks_save (tw_repo (snd q)) ?t (task_version t) = (res, r)" for res r
    using tasks_save_ok [OF inv seen _ c _ that] True by (simp add: succeeds_def task_terminal_def)
  have save: "world_le w (snd (in_repo (\<lambda>r. tasks_save r ?t (task_version t)) (snd q)))"
    by (rule world_le_trans [OF q(1) in_repo_world_le]) (use q(1) sv in \<open>auto simp: world_le_def\<close>)
  have rest: "world_le w (snd (sbind (in_repo (\<lambda>r. tasks_save r ?t (task_version t)) (snd q)) (\<lambda>t' w.
      (Inr t', audit_task now ''task.created'' actor (task_id t') [(''state'', VStr (task_state_value (task_state t')))]
        (publish_task now ''task.queued'' (task_id t') [(''state'', VStr (task_state_value (task_state t')))] w)))))"
    by (rule snd_sbind) (auto intro: world_le_note save)
  show ?thesis
    unfolding start_task_def q_def [symmetric] using True
    by (cases q; cases "fst q") (use q(1) rest c in auto)
qed (simp add: start_task_def world_le_refl [OF assms(1)])

lemma create_task_world_le:
  assumes "world_ok w" "get_job (tw_queue w) (''job_'' @ juid) = None"
  shows "world_le w (snd (create_task uow now uid juid objective key actor w))"
proof -
  let ?c = "\<lparr>task_id = ''task_'' @ uid, task_objective = strip objective, task_state = TS_CREATED, task_version = 0, task_created_at = now\<rparr>"
  have main: "world_le w (snd (sbind (in_repo (\<lambda>r. tasks_create r ?c key) w) (start_task now juid actor)))"
    if c: "check_task ?c = Inr ?c"
  proof -
    obtain res r where cr: "tasks_create (tw_repo w) ?c key = (res, r)" by fastforce
    have inv: "task_inv (tw_repo w)" using assms(1) by (simp add: world_ok_def)
    note ok = tasks_create_ok [OF inv c cr]
    have w1: "world_le w (w\<lparr>tw_repo := r\<rparr>)" using ok assms(1) by (simp add: world_le_def world_ok_def)
    show ?thesis
    proof (cases res)
      case (Inl e)
      with cr w1 show ?thesis by (simp add: in_repo_def)
    next
      case (Inr t)
      have "world_le (w\<lparr>tw_repo := r\<rparr>) (snd (start_task now juid actor t (w\<lparr>tw_repo := r\<rparr>)))"
        using tasks_create_get(1) [OF inv cr [unfolded Inr]] assms(2) world_leD(1) [OF w1]
        by (intro start_task_world_le) simp_all
      from world_le_trans [OF w1 this] cr Inr show ?thesis by (simp add: in_repo_def)
    qed
  qed
  show ?thesis
    unfolding create_task_def
    using main world_le_refl [OF assms(1)] assms(1)
    by (auto simp: check_task_eq intro!: scope_world_le split: sum.splits)
qed

lemma add_message_world_le:
  assumes "world_ok w"
  shows "world_le w (snd (add_message uow now uid i content expected actor key w))"
proof -
  have inv: "task_inv (tw_repo w)" using assms by (simp add: world_ok_def)
  have "world_le w (snd (sbind (in_repo (\<lambda>r. tasks_add_message r m expected key) w) (\<lambda>(t, m') w.
          (Inr (t, m'), publish_task now ''task.message_added'' (task_id t) [(''message_id'', VStr (tm_id m'))] w))))" for m
    by (rule snd_sbind) (auto intro: world_le_note in_repo_world_le [OF assms tasks_add_message_ok [OF inv]])
  with assms show ?thesis by (auto simp: add_message_def world_le_refl Let_def intro!: scope_world_le)
qed

lemma cancel_task_world_le:
  assumes "world_ok w"
  shows "world_le w (snd (cancel_task uow now i expected actor key w))"
proof -
  have inv: "task_inv (tw_repo w)" using assms by (simp add: world_ok_def)
  show ?thesis unfolding cancel_task_def
    by (rule scope_world_le [OF assms], rule snd_sbind)
       (auto intro: world_le_note in_repo_world_le [OF assms tasks_cancel_ok [OF inv]])
qed

lemma project_decideD:
  assumes "project_decide st t = Some new" "check_task t = Inr t"
  shows "task_id new = task_id t" "check_task new = Inr new" "succeeds t new"
  using assms by (auto simp: project_decide_def check_task_eq succeeds_def task_terminal_def split: if_splits)

lemma project_commit_world_le:
  assumes "world_ok w" "seen tget task_id task_version (tw_repo w) t" "task_id new = task_id t" "check_task new = Inr new" "succeeds t new"
  shows "world_le w (snd (project_commit now t new w))"
proof -
  have inv: "task_inv (tw_repo w)" using assms(1) by (simp add: world_ok_def)
  have "world_le w (snd (sbind (in_repo (\<lambda>r. tasks_save r new (task_version t)) w) (\<lambda>saved w.
      (Inr saved, publish_task now ''task.state_changed'' (task_id t) [(''state'', VStr (task_state_value (task_state new)))] w))))"
    by (rule snd_sbind) (auto intro: world_le_note in_repo_world_le [OF assms(1) tasks_save_ok [OF inv assms(2-5)]])
  then show ?thesis by (simp add: project_commit_def assms(4))
qed

section \<open>Interleaved calls\<close>

record task_sys =
  ts_world :: task_world
  ts_pending :: "(task \<times> task) list"

text \<open>Projections that read the task and have not yet saved are pending; workers use the queue in between.\<close>

inductive task_step :: "task_sys \<Rightarrow> task_sys \<Rightarrow> bool" where
  create_step:
    "get_job (tw_queue (ts_world s)) (''job_'' @ juid) = None \<Longrightarrow>
     task_step s (s\<lparr>ts_world := snd (create_task uow now uid juid objective key actor (ts_world s))\<rparr>)"
| message_step:
    "task_step s (s\<lparr>ts_world := snd (add_message uow now uid i content expected actor key (ts_world s))\<rparr>)"
| cancel_step:
    "task_step s (s\<lparr>ts_world := snd (cancel_task uow now i expected actor key (ts_world s))\<rparr>)"
| project_read_step:
    "tasks_get (tw_repo (ts_world s)) i = Inr t \<Longrightarrow> project_decide st t = Some new \<Longrightarrow>
     task_step s (s\<lparr>ts_pending := (t, new) # ts_pending s\<rparr>)"
| project_write_step:
    "ts_pending s = xs @ (t, new) # ys \<Longrightarrow>
     task_step s (s\<lparr>ts_world := snd (project_commit now t new (ts_world s)), ts_pending := xs @ ys\<rparr>)"
| queue_step:
    "queue_fresh (tw_queue (ts_world s)) c \<Longrightarrow>
     task_step s (s\<lparr>ts_world := (ts_world s)\<lparr>tw_queue := queue_apply now c (tw_queue (ts_world s))\<rparr>\<rparr>)"

definition empty_world :: task_world where
  "empty_world = \<lparr>tw_repo = empty_task_repo, tw_queue = empty_queue, tw_events = [], tw_audit = []\<rparr>"

definition task_sys_init :: task_sys where
  "task_sys_init = \<lparr>ts_world = empty_world, ts_pending = []\<rparr>"

definition task_reachable :: "task_sys \<Rightarrow> bool" where
  "task_reachable s = task_step\<^sup>*\<^sup>* task_sys_init s"

definition task_sys_inv :: "task_sys \<Rightarrow> bool" where
  "task_sys_inv s \<longleftrightarrow> world_ok (ts_world s) \<and>
     (\<forall>(t, new)\<in>set (ts_pending s). seen tget task_id task_version (tw_repo (ts_world s)) t \<and>
        task_id new = task_id t \<and> check_task new = Inr new \<and> succeeds t new)"

lemma seen_task_le:
  assumes "seen tget task_id task_version r t" "task_le r r'"
  shows "seen tget task_id task_version r' t"
proof -
  from assms(1) obtain c where c: "tget r (task_id t) = Some c" "task_version t \<le> task_version c"
    "task_version c = task_version t \<longrightarrow> c = t" by (auto simp: seen_def)
  from task_le_at [OF assms(2) c(1)] obtain c' where "tget r' (task_id t) = Some c'" "succeeds c c'" by blast
  with c show ?thesis by (auto simp: seen_def succeeds_def)
qed

lemma pending_mono:
  assumes "\<forall>(t, new)\<in>P. seen tget task_id task_version r t \<and> task_id new = task_id t \<and> check_task new = Inr new \<and> succeeds t new"
    and "task_le r r'" "Q \<subseteq> P"
  shows "\<forall>(t, new)\<in>Q. seen tget task_id task_version r' t \<and> task_id new = task_id t \<and> check_task new = Inr new \<and> succeeds t new"
  using assms by (auto intro: seen_task_le)

lemma task_sys_inv_world:
  assumes "task_sys_inv s" "world_le (ts_world s) w" "set ps \<subseteq> set (ts_pending s)"
  shows "task_sys_inv (s\<lparr>ts_world := w, ts_pending := ps\<rparr>) \<and> world_le (ts_world s) w"
  using assms pending_mono [OF _ world_leD(2) [OF assms(2)] assms(3)] by (simp add: task_sys_inv_def world_leD(1))

lemma task_sys_step:
  assumes "task_sys_inv s" "task_step s s'"
  shows "task_sys_inv s' \<and> world_le (ts_world s) (ts_world s')"
proof -
  have ok: "world_ok (ts_world s)" using assms(1) by (simp add: task_sys_inv_def)
  have upd: "s\<lparr>ts_world := w\<rparr> = s\<lparr>ts_world := w, ts_pending := ts_pending s\<rparr>" for w by simp
  note stay = task_sys_inv_world [OF assms(1) _ order_refl, folded upd]
  from assms(2) show ?thesis
  proof cases
    case (create_step juid uow now uid objective key actor)
    then show ?thesis using stay [OF create_task_world_le [OF ok]] by simp
  next
    case (message_step uow now uid i content expected actor key)
    then show ?thesis using stay [OF add_message_world_le [OF ok]] by simp
  next
    case (cancel_step uow now i expected actor key)
    then show ?thesis using stay [OF cancel_task_world_le [OF ok]] by simp
  next
    case (project_read_step i t st new)
    from project_read_step(2) have t: "tget (tw_repo (ts_world s)) i = Some t"
      by (auto simp: tasks_get_def raise_def split: option.splits)
    have inv: "task_inv (tw_repo (ts_world s))" using ok by (simp add: world_ok_def)
    have "seen tget task_id task_version (tw_repo (ts_world s)) t"
      using t task_invD(2) [OF inv t] by (auto simp: seen_def)
    with project_decideD [OF project_read_step(3) task_invD(3) [OF inv t]] project_read_step(1) assms(1) show ?thesis
      by (simp add: task_sys_inv_def world_le_refl)
  next
    case (project_write_step xs t new ys now)
    with assms(1) have "seen tget task_id task_version (tw_repo (ts_world s)) t" "task_id new = task_id t"
      "check_task new = Inr new" "succeeds t new" by (auto simp: task_sys_inv_def)
    from task_sys_inv_world [OF assms(1) project_commit_world_le [OF ok this], of "xs @ ys" now] project_write_step
    show ?thesis by auto
  next
    case (queue_step c now)
    have "world_le (ts_world s) ((ts_world s)\<lparr>tw_queue := queue_apply now c (tw_queue (ts_world s))\<rparr>)"
      using ok queue_inv_apply [OF _ queue_step(2)] by (simp add: world_le_def world_ok_def)
    from stay [OF this] queue_step(1) show ?thesis by simp
  qed
qed

lemma task_sys_steps:
  assumes "task_step\<^sup>*\<^sup>* s s'" "task_sys_inv s"
  shows "task_sys_inv s' \<and> world_le (ts_world s) (ts_world s')"
  using assms(1)
proof (induction rule: rtranclp_induct)
  case base
  then show ?case using assms(2) by (simp add: task_sys_inv_def world_le_refl)
next
  case (step y z)
  then show ?case using task_sys_step [OF _ step(2)] world_le_trans by blast
qed

lemma task_reachable_inv: "task_reachable s \<Longrightarrow> task_sys_inv s"
proof -
  have "task_sys_inv task_sys_init"
    by (simp add: task_sys_inv_def task_sys_init_def world_ok_def empty_world_def task_inv_empty empty_inv numbered_def)
  then show "task_reachable s \<Longrightarrow> task_sys_inv s" unfolding task_reachable_def using task_sys_steps by blast
qed

section \<open>Pages and events\<close>

lemma newest_first_sorted: "sorted_wrt (\<ge>) (map task_age (newest_first ts))"
  by (simp add: newest_first_def rev_map [symmetric] sorted_wrt_rev)

lemma newest_first_distinct: "distinct (map task_age (newest_first ts)) = distinct (map task_age ts)"
  by (simp add: newest_first_def distinct_map)

lemma filter_older:
  fixes f :: "'a \<Rightarrow> 'b::linorder"
  assumes "sorted_wrt (\<lambda>a b. f b < f a) (xs @ x # ys)"
  shows "filter (\<lambda>t. f t < f x) (xs @ x # ys) = ys"
proof -
  have "filter (\<lambda>t. f t < f x) xs = []" using assms by (auto simp: sorted_wrt_append filter_empty_conv)
  moreover have "filter (\<lambda>t. f t < f x) ys = ys" using assms by (auto simp: sorted_wrt_append)
  ultimately show ?thesis by simp
qed

lemma strictly_sorted:
  fixes f :: "'a \<Rightarrow> 'b::linorder"
  shows "sorted_wrt (\<ge>) (map f xs) \<Longrightarrow> distinct (map f xs) \<Longrightarrow> sorted_wrt (\<lambda>a b. f b < f a) xs"
  by (induction xs) (auto simp: order_less_le, metis image_eqI)

lemma stored_distinct_ages:
  assumes "task_inv r"
  shows "distinct (map task_age (map snd (tr_tasks r)))"
proof -
  have "map snd (map task_age (map snd (tr_tasks r))) = map fst (tr_tasks r)"
    using task_invD(1,2) [OF assms] by (auto simp: wf_dict_def task_age_def)
  then have "distinct (map snd (map task_age (map snd (tr_tasks r))))"
    using task_invD(1) [OF assms] by (simp only: wf_dict_def)
  then show ?thesis using distinct_map by blast
qed

lemma newest_first_strict:
  assumes "task_inv r"
  shows "sorted_wrt (\<lambda>a b. task_age b < task_age a) (newest_first (map snd (tr_tasks r)))"
proof -
  let ?xs = "newest_first (map snd (tr_tasks r))"
  have "distinct (map task_age ?xs)"
    using stored_distinct_ages [OF assms] by (simp only: newest_first_distinct)
  with newest_first_sorted [of "map snd (tr_tasks r)"] show ?thesis by (rule strictly_sorted)
qed

lemma in_tasks_iff: "task_inv r \<Longrightarrow> t \<in> set (map snd (tr_tasks r)) \<longleftrightarrow> tget r (task_id t) = Some t"
proof -
  assume inv: "task_inv r"
  have d: "distinct (map fst (tr_tasks r))" using task_invD(1) [OF inv] by (simp add: wf_dict_def)
  show ?thesis
  proof
    assume "t \<in> set (map snd (tr_tasks r))"
    then obtain i where "(i, t) \<in> set (tr_tasks r)" by auto
    then have "tget r i = Some t" by (rule map_of_is_SomeI [OF d])
    with task_invD(2) [OF inv this] show "tget r (task_id t) = Some t" by simp
  next
    assume "tget r (task_id t) = Some t"
    from map_of_SomeD [OF this] show "t \<in> set (map snd (tr_tasks r))" by force
  qed
qed

lemma strip_not_blank:
  assumes "\<not> blank s"
  shows "\<not> blank (strip s)"
proof -
  let ?u = "dropWhile is_space (rev (dropWhile is_space s))"
  from assms have "?u \<noteq> []" by (simp add: blank_def strip_def)
  then have "\<not> is_space (hd ?u)" "hd ?u \<in> set ?u" by (rule hd_dropWhile, rule hd_in_set)
  then show ?thesis by (auto simp: blank_iff strip_def)
qed

lemma start_task_result:
  assumes "start_task now juid actor t w = (Inr t', w')"
  shows "task_id t' = task_id t" "task_state t' \<noteq> TS_CREATED" "task_state t \<noteq> TS_CREATED \<Longrightarrow> t' = t \<and> w' = w"
    "tr_idempotency (tw_repo w') = tr_idempotency (tw_repo w)" "task_objective t' = task_objective t"
proof -
  have "task_id t' = task_id t \<and> task_state t' \<noteq> TS_CREATED \<and> (task_state t \<noteq> TS_CREATED \<longrightarrow> t' = t \<and> w' = w) \<and>
      tr_idempotency (tw_repo w') = tr_idempotency (tw_repo w) \<and> task_objective t' = task_objective t"
  proof (cases "task_state t = TS_CREATED")
    case True
    let ?t = "t\<lparr>task_state := TS_QUEUED, task_version := task_version t + 1\<rparr>"
    from assms True obtain x w1 where
      q: "in_queue (\<lambda>q. enqueue q now juid ''agent.start'' [(''task_id'', VStr (task_id t))] (''task-start:'' @ task_id t) None 5) w = (Inr x, w1)"
      and rest: "(case check_task ?t of Inl e \<Rightarrow> (Inl e, w1) | Inr queued \<Rightarrow>
          sbind (in_repo (\<lambda>r. tasks_save r queued (task_version t)) w1) (\<lambda>t' w. (Inr t',
            audit_task now ''task.created'' actor (task_id t') [(''state'', VStr (task_state_value (task_state t')))]
              (publish_task now ''task.queued'' (task_id t') [(''state'', VStr (task_state_value (task_state t')))] w)))) = (Inr t', w')"
      by (simp only: start_task_def simp_thms if_False sbind_eq_Inr) blast
    from rest obtain w2 where w2: "in_repo (\<lambda>r. tasks_save r ?t (task_version t)) w1 = (Inr t', w2)" "tw_repo w' = tw_repo w2"
      by (cases "check_task ?t") (auto simp: sbind_eq_Inr check_task_eq publish_task_def audit_task_def)
    have "tw_repo w1 = tw_repo w" using arg_cong [OF q, of "\<lambda>x. tw_repo (snd x)"] by simp
    note w1 = this w2
    then obtain r where r: "tasks_save (tw_repo w) ?t (task_version t) = (Inr t', r)" "tw_repo w2 = r"
      by (auto simp: in_repo_def split: prod.splits)
    have "t' = ?t \<and> tr_idempotency r = tr_idempotency (tw_repo w)"
      using r(1) by (cases "tget (tw_repo w) (task_id t)") (auto simp: tasks_save_def raise_def split: if_splits)
    with w1 r True show ?thesis by simp
  qed (use assms in \<open>simp add: start_task_def\<close>)
  then show "task_id t' = task_id t" "task_state t' \<noteq> TS_CREATED" "task_state t \<noteq> TS_CREATED \<Longrightarrow> t' = t \<and> w' = w"
    "tr_idempotency (tw_repo w') = tr_idempotency (tw_repo w)" "task_objective t' = task_objective t" by blast+
qed

text \<open>A replayed create starts the stored task, which does nothing unless that was never done.\<close>

lemma create_task_replay:
  assumes "world_ok w" "tr_idempotency (tw_repo w) key = Some (i, strip objective)" "tget (tw_repo w) i = Some t"
    and "\<not> blank objective" "\<not> blank key"
  shows "create_task uow now uid juid objective key actor w = scope uow (start_task now juid actor t) w"
proof -
  have "check_task \<lparr>task_id = ''task_'' @ uid, task_objective = strip objective, task_state = TS_CREATED, task_version = 0,
      task_created_at = now\<rparr> = Inr \<lparr>task_id = ''task_'' @ uid, task_objective = strip objective, task_state = TS_CREATED,
      task_version = 0, task_created_at = now\<rparr>" using strip_not_blank [OF assms(4)] by (simp add: check_task_eq)
  with assms show ?thesis
    by (simp add: create_task_def tasks_create_def stored_task_def in_repo_def scope_def)
qed

lemma create_task_Inr:
  assumes "world_ok w" "create_task uow now uid juid objective key actor w = (Inr t, w')"
  shows "\<not> blank objective" "\<not> blank key" "task_state t \<noteq> TS_CREATED"
    "tr_idempotency (tw_repo w') key = Some (task_id t, strip objective)"
proof -
  let ?c = "\<lparr>task_id = ''task_'' @ uid, task_objective = strip objective, task_state = TS_CREATED, task_version = 0, task_created_at = now\<rparr>"
  from assms(2) show b: "\<not> blank objective" "\<not> blank key"
    by (auto simp: create_task_def raise_def split: if_splits)
  from assms(2) b have "sbind (in_repo (\<lambda>r. tasks_create r ?c key) w) (start_task now juid actor) = (Inr t, w')"
    by (auto simp: create_task_def scope_def check_task_eq split: sum.splits prod.splits)
  then obtain c r where cr: "tasks_create (tw_repo w) ?c key = (Inr c, r)" "start_task now juid actor c (w\<lparr>tw_repo := r\<rparr>) = (Inr t, w')"
    by (auto simp: sbind_eq_Inr in_repo_def split: prod.splits)
  have inv: "task_inv (tw_repo w)" using assms(1) by (simp add: world_ok_def)
  note st = start_task_result [OF cr(2)]
  from tasks_create_get [OF inv cr(1)] st show "task_state t \<noteq> TS_CREATED"
    "tr_idempotency (tw_repo w') key = Some (task_id t, strip objective)" by simp_all
qed

section \<open>A concrete run\<close>

definition demo_create :: "string \<Rightarrow> string \<Rightarrow> task_world \<Rightarrow> task result \<times> task_world" where
  "demo_create uid key = create_task False 10 uid uid '' read mail '' key ''owner''"

definition demo_created :: task_sys where
  "demo_created = task_sys_init\<lparr>ts_world := snd (demo_create ''1'' ''k1'' empty_world)\<rparr>"

definition demo_two :: task_sys where
  "demo_two = demo_created\<lparr>ts_world := snd (demo_create ''2'' ''k2'' (ts_world demo_created))\<rparr>"

definition demo_cancelled :: task_sys where
  "demo_cancelled = demo_two\<lparr>ts_world := snd (cancel_task False 20 ''task_1'' 1 ''owner'' ''c1'' (ts_world demo_two))\<rparr>"

lemma demo_steps:
  "task_reachable demo_created" "task_step demo_created demo_two" "task_step demo_two demo_cancelled"
proof -
  have "task_step task_sys_init demo_created"
    unfolding demo_created_def demo_create_def
    using task_step.create_step [of task_sys_init "''1''" False 10 "''1''" "'' read mail ''" "''k1''" "''owner''"]
    by (simp add: task_sys_init_def empty_world_def get_job_def empty_queue_def)
  then show "task_reachable demo_created" by (simp add: task_reachable_def)
  have "get_job (tw_queue (ts_world demo_created)) ''job_2'' = None" by code_simp
  then show "task_step demo_created demo_two"
    unfolding demo_two_def demo_create_def by (intro task_step.create_step) simp
  show "task_step demo_two demo_cancelled"
    unfolding demo_cancelled_def by (rule task_step.cancel_step)
qed

lemma demo_reachable: "task_reachable demo_two" "task_reachable demo_cancelled"
proof -
  show "task_reachable demo_two" using demo_steps(1,2) by (simp add: task_reachable_def)
  then show "task_reachable demo_cancelled" using demo_steps(3) by (simp add: task_reachable_def)
qed

section \<open>Properties\<close>

text \<open>
  C10. Whatever the interleaving of create, message, cancel and projection calls, in which projections may
  have read a task long before they save it, a stored task is never lost, keeps its objective and age,
  never decreases its version, and once succeeded, failed or cancelled keeps that state for ever.
\<close>

theorem task_history:
  assumes "task_reachable s" "task_step\<^sup>*\<^sup>* s s'" "tget (tw_repo (ts_world s)) i = Some t"
  shows "\<exists>t'. tget (tw_repo (ts_world s')) i = Some t' \<and> task_version t \<le> task_version t' \<and>
    task_objective t' = task_objective t \<and> task_created_at t' = task_created_at t \<and>
    (task_terminal (task_state t) \<longrightarrow> task_state t' = task_state t)"
proof -
  from task_sys_steps [OF assms(2) task_reachable_inv [OF assms(1)]]
  have "task_le (tw_repo (ts_world s)) (tw_repo (ts_world s'))" by (simp add: world_le_def)
  from task_le_at [OF this assms(3)] show ?thesis by (auto simp: succeeds_def)
qed

theorem task_history_witness:
  "\<exists>t. tget (tw_repo (ts_world demo_cancelled)) ''task_1'' = Some t \<and> task_version t = 2 \<and> task_objective t = ''read mail''"
proof -
  define t where "t = the (tget (tw_repo (ts_world demo_created)) ''task_1'')"
  have t: "tget (tw_repo (ts_world demo_created)) ''task_1'' = Some t" "task_objective t = ''read mail''"
    unfolding t_def by code_simp+
  have "task_step\<^sup>*\<^sup>* demo_created demo_cancelled" using demo_steps(2,3) by auto
  from task_history [OF demo_steps(1) this t(1)] t(2) obtain t' where
    t': "tget (tw_repo (ts_world demo_cancelled)) ''task_1'' = Some t'" "task_objective t' = ''read mail''" by auto
  have "map_option task_version (tget (tw_repo (ts_world demo_cancelled)) ''task_1'') = Some 2" by code_simp
  with t' show ?thesis by auto
qed

text \<open>
  C32. Creating a task is idempotent per key: after a create succeeded, and whatever happened since, the
  same request under the same key answers the same task; unless that task was put back to CREATED it
  changes nothing, so there is no second job, event or audit entry.
\<close>

theorem create_exactly_once:
  assumes "task_reachable s" "get_job (tw_queue (ts_world s)) (''job_'' @ juid) = None"
    and "create_task uow now uid juid objective key actor (ts_world s) = (Inr t, w)"
    and "task_step\<^sup>*\<^sup>* (s\<lparr>ts_world := w\<rparr>) s'" "strip objective' = strip objective"
  shows "\<exists>t'. tget (tw_repo (ts_world s')) (task_id t) = Some t' \<and>
    (task_state t' \<noteq> TS_CREATED \<longrightarrow>
       create_task uow' now' uid' juid' objective' key actor' (ts_world s') = (Inr t', ts_world s'))"
proof -
  from task_reachable_inv [OF assms(1)] have ok: "world_ok (ts_world s)" by (simp add: task_sys_inv_def)
  note C = create_task_Inr [OF ok assms(3)]
  have "task_step s (s\<lparr>ts_world := w\<rparr>)"
    using task_step.create_step [where s = s, OF assms(2), of uow now uid objective key actor] assms(3) by simp
  with assms(1) have reach: "task_reachable (s\<lparr>ts_world := w\<rparr>)" by (simp add: task_reachable_def)
  from task_sys_steps [OF assms(4) task_reachable_inv [OF this]]
  have ok': "world_ok (ts_world s')" and le: "task_le (tw_repo w) (tw_repo (ts_world s'))" by (simp_all add: world_le_def)
  have "key \<in> dom (tr_idempotency (tw_repo w))" using C(4) by blast
  with le have key: "tr_idempotency (tw_repo (ts_world s')) key = Some (task_id t, strip objective')"
    by (simp add: task_le_def map_le_def assms(5) C(4) flip: C(4))
  with ok' task_invD(5) [of "tw_repo (ts_world s')" key "task_id t"] obtain t' where
    t': "tget (tw_repo (ts_world s')) (task_id t) = Some t'" by (auto simp: world_ok_def)
  have "\<not> blank objective'" using C(1) assms(5) by (simp add: blank_def)
  from create_task_replay [OF ok' key t' this C(2), of uow' now' uid' juid' actor'] t' show ?thesis
    by (auto simp: scope_def start_task_def)
qed

theorem create_exactly_once_witness:
  "\<exists>t'. create_task True 99 ''9'' ''9'' ''read mail'' ''k1'' ''owner'' (ts_world demo_cancelled) = (Inr t', ts_world demo_cancelled) \<and>
     tget (tw_repo (ts_world demo_cancelled)) ''task_1'' = Some t'"
proof -
  define x where "x = demo_create ''1'' ''k1'' empty_world"
  define t where "t = projr (fst x)"
  have x: "fst x = Inr t" "task_id t = ''task_1''" "strip ''read mail'' = strip '' read mail ''"
    unfolding t_def x_def by code_simp+
  have "create_task False 10 ''1'' ''1'' '' read mail '' ''k1'' ''owner'' (ts_world task_sys_init) = (Inr t, snd x)"
    using x(1) by (simp add: x_def demo_create_def task_sys_init_def prod_eq_iff)
  moreover have "task_sys_init\<lparr>ts_world := snd x\<rparr> = demo_created" by (simp add: demo_created_def x_def)
  then have "task_step\<^sup>*\<^sup>* (task_sys_init\<lparr>ts_world := snd x\<rparr>) demo_cancelled" using demo_steps(2,3) by auto
  moreover have "task_reachable task_sys_init" "get_job (tw_queue (ts_world task_sys_init)) (''job_'' @ ''1'') = None"
    by (simp_all add: task_reachable_def task_sys_init_def empty_world_def get_job_def empty_queue_def)
  ultimately obtain t' where t': "tget (tw_repo (ts_world demo_cancelled)) ''task_1'' = Some t'"
    "task_state t' \<noteq> TS_CREATED \<longrightarrow>
       create_task True 99 ''9'' ''9'' ''read mail'' ''k1'' ''owner'' (ts_world demo_cancelled) = (Inr t', ts_world demo_cancelled)"
    using create_exactly_once [where objective' = "''read mail''", OF _ _ _ _ x(3), of task_sys_init "''1''" False 10 "''1''" "''k1''" "''owner''" t
        "snd x" demo_cancelled True 99 "''9''" "''9''" "''owner''"] x(2) by auto
  have "map_option task_state (tget (tw_repo (ts_world demo_cancelled)) ''task_1'') = Some TS_CANCELLED" by code_simp
  with t' show ?thesis by auto
qed


definition half_created :: task_world where
  "half_created = empty_world\<lparr>tw_repo := snd (tasks_create empty_task_repo
     \<lparr>task_id = ''task_1'', task_objective = ''read mail'', task_state = TS_CREATED, task_version = 0, task_created_at = 10\<rparr> ''k1'')\<rparr>"


text \<open>
  The event stream can be resumed: a client that has read the first n events and asks for what
  comes after sequence number n gets exactly the remaining events, in order.
\<close>

theorem event_resume:
  assumes "task_reachable s"
  shows "events_after (tw_events (ts_world s)) n = drop n (tw_events (ts_world s))"
proof -
  let ?es = "tw_events (ts_world s)"
  have seq: "map ev_sequence ?es = [1..<Suc (length ?es)]"
    using task_reachable_inv [OF assms] by (simp add: task_sys_inv_def world_ok_def numbered_def)
  have nth: "ev_sequence (?es ! k) = Suc k" if "k < length ?es" for k
    using arg_cong [OF seq, of "\<lambda>l. l ! k"] that by (simp del: upt_Suc)
  have take: "filter (\<lambda>e. n < ev_sequence e) (take n ?es) = []"
    using nth by (auto simp: filter_empty_conv in_set_conv_nth)
  have drop: "filter (\<lambda>e. n < ev_sequence e) (drop n ?es) = drop n ?es"
    using nth by (auto simp: filter_id_conv in_set_conv_nth)
  have "events_after ?es n = filter (\<lambda>e. n < ev_sequence e) (take n ?es @ drop n ?es)" by (simp add: events_after_def)
  then show ?thesis using take drop by (simp only: filter_append append_Nil)
qed

theorem event_resume_witness:
  "map ev_type (events_after (tw_events (ts_world demo_cancelled)) 2) = [''task.cancelled''] \<and>
   events_after (tw_events (ts_world demo_cancelled)) 2 = drop 2 (tw_events (ts_world demo_cancelled))"
  using event_resume [OF demo_reachable(2), of 2] by (intro conjI) (code_simp, simp)

text \<open>
  Paging through the recent tasks is complete: all tasks have a strict order, newest first; the first
  page is its beginning and the page before the n-th task is what follows that task, so pages neither
  repeat nor skip a task.
\<close>

theorem list_recent_pages:
  assumes "task_reachable s" "1 \<le> limit" "limit \<le> 101"
  shows "\<exists>ts. sorted_wrt (\<lambda>a b. task_age b < task_age a) ts \<and>
    set ts = {t. tget (tw_repo (ts_world s)) (task_id t) = Some t} \<and>
    list_recent (ts_world s) limit None = Inr (take (nat limit) ts) \<and>
    (\<forall>n < length ts. list_recent (ts_world s) limit (Some (task_id (ts ! n))) = Inr (take (nat limit) (drop (Suc n) ts)))"
proof -
  let ?r = "tw_repo (ts_world s)"
  let ?ts = "newest_first (map snd (tr_tasks ?r))"
  have inv: "task_inv ?r" using task_reachable_inv [OF assms(1)] by (simp add: task_sys_inv_def world_ok_def)
  note strict = newest_first_strict [OF inv]
  have set: "set ?ts = {t. tget ?r (task_id t) = Some t}"
    using in_tasks_iff [OF inv] by (auto simp: newest_first_def)
  have page: "list_recent (ts_world s) limit (Some (task_id (?ts ! n))) = Inr (take (nat limit) (drop (Suc n) ?ts))"
    if n: "n < length ?ts" for n
  proof -
    have "?ts ! n \<in> set ?ts" using n by simp
    then have "tget ?r (task_id (?ts ! n)) = Some (?ts ! n)" using set by blast
    moreover have "filter (\<lambda>t. task_age t < task_age (?ts ! n)) ?ts = drop (Suc n) ?ts"
      using filter_older [of task_age "take n ?ts" "?ts ! n" "drop (Suc n) ?ts"] strict n by (simp add: Cons_nth_drop_Suc)
    ultimately show ?thesis using assms(2,3) by (simp add: list_recent_def tasks_list_recent_def Let_def)
  qed
  show ?thesis
    using strict set page assms(2,3)
    by (intro exI [of _ ?ts]) (simp add: list_recent_def tasks_list_recent_def Let_def)
qed

theorem list_recent_pages_witness:
  "\<exists>ts. list_recent (ts_world demo_two) 1 None = Inr (take 1 ts) \<and> map task_id (take 1 ts) = [''task_2''] \<and>
     list_recent (ts_world demo_two) 1 (Some ''task_2'') = Inr (take 1 (drop 1 ts)) \<and> map task_id (take 1 (drop 1 ts)) = [''task_1'']"
proof -
  from list_recent_pages [OF demo_reachable(1), of 1] obtain ts where
    ts: "list_recent (ts_world demo_two) 1 None = Inr (take 1 ts)"
    "\<And>n. n < length ts \<Longrightarrow> list_recent (ts_world demo_two) 1 (Some (task_id (ts ! n))) = Inr (take 1 (drop (Suc n) ts))" by auto
  define a b where "a = projr (list_recent (ts_world demo_two) 1 None)" and "b = projr (list_recent (ts_world demo_two) 1 (Some ''task_2''))"
  have ab: "map task_id a = [''task_2'']" "map task_id b = [''task_1'']" unfolding a_def b_def by code_simp+
  have a: "a = take 1 ts" using ts(1) by (simp add: a_def)
  with ab(1) obtain t us where us: "ts = t # us" "task_id t = ''task_2''" by (cases ts) auto
  with ts(2) [of 0] have "list_recent (ts_world demo_two) 1 (Some ''task_2'') = Inr (take 1 (drop 1 ts))" by simp
  with ts(1) ab a show ?thesis by (auto simp: b_def)
qed

end
