(* ===== verification/PA_Agent.thy ===== *)
theory PA_Agent
  imports PA_Gateway PA_Tasks
begin

text \<open>
  \<open>core/agent\<close>: the run state machine, the emergency fuse, the progress detector, the run, checkpoint
  and observation stores, the validation of a model's proposal and the plan, act, observe loop of the
  engine over the tool gateway.

  Each round of the loop reads from its environment: the clock, the proposal the planner made from
  the composed context, and what the gateway's own environment answers. These are the record
  \<open>round_env\<close>; the loop consumes a list of them, so that running out of rounds is the value None.
\<close>

section \<open>State machine (state\_machine.py)\<close>

fun run_allowed :: "task_state \<Rightarrow> task_state set" where
  "run_allowed TS_CREATED = {TS_QUEUED, TS_CANCELLED}"
| "run_allowed TS_QUEUED = {TS_RUNNING, TS_CANCELLED}"
| "run_allowed TS_RUNNING = {TS_WAITING_USER, TS_WAITING_APPROVAL, TS_WAITING_RECONCILIATION, TS_PAUSED_SAFETY,
     TS_PAUSED_EXTENSION, TS_SUCCEEDED, TS_FAILED, TS_CANCELLED}"
| "run_allowed TS_WAITING_USER = {TS_QUEUED, TS_CANCELLED}"
| "run_allowed TS_WAITING_APPROVAL = {TS_QUEUED, TS_WAITING_USER, TS_CANCELLED}"
| "run_allowed TS_WAITING_RECONCILIATION = {TS_QUEUED, TS_WAITING_USER, TS_CANCELLED}"
| "run_allowed TS_PAUSED_SAFETY = {TS_QUEUED, TS_CANCELLED}"
| "run_allowed TS_PAUSED_EXTENSION = {TS_QUEUED, TS_CANCELLED}"
| "run_allowed TS_SUCCEEDED = {}"
| "run_allowed TS_FAILED = {}"
| "run_allowed TS_CANCELLED = {}"

definition invalid_transition :: "task_state \<Rightarrow> task_state \<Rightarrow> 'a result" where
  "invalid_transition current target = raise InvalidStateTransitionError
     (''state transition is not allowed: '' @ task_state_value current @ '' -> '' @ task_state_value target)"

definition transition_run ::
  "task_run \<Rightarrow> task_state \<Rightarrow> string option \<Rightarrow> string option \<Rightarrow> time \<Rightarrow> task_run result" where
  "transition_run r target reference reason now =
     (if target \<notin> run_allowed (run_state r) then invalid_transition (run_state r) target
      else check_task_run (r\<lparr>run_state := target, waiting_reference := reference, pause_reason := reason,
             run_updated_at := now, run_version := run_version r + 1\<rparr>))"

definition resume_as_new_segment :: "task_run \<Rightarrow> time \<Rightarrow> task_run result" where
  "resume_as_new_segment r now =
     (if run_state r \<notin> {TS_PAUSED_SAFETY, TS_WAITING_USER, TS_WAITING_APPROVAL, TS_WAITING_RECONCILIATION, TS_PAUSED_EXTENSION}
      then invalid_transition (run_state r) TS_QUEUED
      else check_task_run (r\<lparr>run_state := TS_QUEUED, run_version := run_version r + 1, segment_number := segment_number r + 1,
             active_started_at := now, run_updated_at := now, consecutive_errors := 0, no_progress_rounds := 0,
             same_call_without_progress := 0, last_call_fingerprint := None, last_observation_fingerprint := None,
             waiting_reference := None, pause_reason := None\<rparr>))"

section \<open>Emergency fuse (safety\_fuse.py)\<close>

record fuse_thresholds =
  ft_same_call :: int
  ft_errors :: int
  ft_no_progress :: int
  ft_active :: time

definition default_thresholds :: fuse_thresholds where
  "default_thresholds = \<lparr>ft_same_call = 3, ft_errors = 5, ft_no_progress = 8, ft_active = hours 24\<rparr>"

definition check_thresholds :: "fuse_thresholds \<Rightarrow> fuse_thresholds result" where
  "check_thresholds f =
     ensure (1 \<le> min (min (ft_same_call f) (ft_errors f)) (ft_no_progress f)) ValueError
       ''emergency fuse thresholds may not be disabled''
      (ensure (0 < ft_active f) ValueError ''active duration fuse may not be disabled'' (Inr f))"

definition fuse_reason :: "fuse_thresholds \<Rightarrow> task_run \<Rightarrow> time \<Rightarrow> string option" where
  "fuse_reason f r now =
     (if ft_same_call f \<le> same_call_without_progress r then Some ''SAME_CALL_WITHOUT_PROGRESS''
      else if ft_errors f \<le> consecutive_errors r then Some ''CONSECUTIVE_ERRORS''
      else if ft_no_progress f \<le> no_progress_rounds r then Some ''NO_PROGRESS_ROUNDS''
      else if ft_active f \<le> now - active_started_at r then Some ''ACTIVE_RUN_DURATION''
      else None)"

section \<open>Progress detector (progress\_detector.py)\<close>

text \<open>\<open>json.dumps(value, ensure_ascii=False, sort_keys=True, separators=(",", ":"), default=str)\<close>.\<close>

function stable_text :: "stdlib \<Rightarrow> pyval \<Rightarrow> string" where
  "stable_text L VNone = ''null''"
| "stable_text L (VBool b) = (if b then ''true'' else ''false'')"
| "stable_text L (VInt i) = int_str i"
| "stable_text L (VFloat f) =
     (case f of FNaN \<Rightarrow> ''NaN'' | FPosInf \<Rightarrow> ''Infinity'' | FNegInf \<Rightarrow> ''-Infinity'' | _ \<Rightarrow> float_repr L f)"
| "stable_text L (VStr s) = json_string s"
| "stable_text L (VList xs) = ''['' @ join '','' (map (stable_text L) xs) @ '']''"
| "stable_text L (VTuple xs) = ''['' @ join '','' (map (stable_text L) xs) @ '']''"
| "stable_text L (VDict d) =
     ''{'' @ join '','' (map (\<lambda>(k, v). json_string k @ '':'' @ stable_text L v) (sort_key fst d)) @ ''}''"
| "stable_text L (VProxy d) = json_string (py_str L (VProxy d))"
| "stable_text L (VOther t) = json_string (py_str L (VOther t))"
  by pat_completeness auto
termination
proof (relation "measure (\<lambda>(L, v). size v)", goal_cases)
  case (4 L d x k v)
  then have "(k, v) \<in> set d" by simp
  from size_list_estimation' [OF this, of "size v" "size_prod (\<lambda>_. 0) size"] show ?case by simp
qed (auto dest: size_list_estimation' [where f = size, OF _ order_refl] simp: less_Suc_eq_le)

definition stable_fingerprint :: "stdlib \<Rightarrow> pyval \<Rightarrow> string" where
  "stable_fingerprint L v = sha256_hex L (stable_text L v)"

definition record_progress :: "stdlib \<Rightarrow> task_run \<Rightarrow> tool_call \<Rightarrow> tool_outcome \<Rightarrow> time \<Rightarrow> task_run result" where
  "record_progress L r c out now =
     (let call_fp = stable_fingerprint L (VDict [(''tool'', VStr (tc_tool_id c)), (''version'', VStr (tc_tool_version c)),
                      (''arguments'', tc_arguments c)]);
          observation = (if to_result out = VNone then None else Some (stable_fingerprint L (to_result out)));
          progressed = (to_kind out = OK_SUCCESS \<and> observation \<noteq> None \<and> observation \<noteq> last_observation_fingerprint r);
          same = (if progressed then 0
                  else if Some call_fp = last_call_fingerprint r then same_call_without_progress r + 1 else 1)
      in check_task_run (r\<lparr>run_version := run_version r + 1, run_updated_at := now,
           last_call_fingerprint := Some call_fp,
           last_observation_fingerprint := (if progressed then observation else last_observation_fingerprint r),
           same_call_without_progress := same,
           no_progress_rounds := (if progressed then 0 else no_progress_rounds r + 1),
           consecutive_errors := (if to_kind out = OK_FAILED then consecutive_errors r + 1 else 0)\<rparr>))"

section \<open>Stores (checkpoint.py)\<close>

type_synonym run_repo = "string \<rightharpoonup> task_run"

definition runs_add :: "run_repo \<Rightarrow> task_run \<Rightarrow> unit result \<times> run_repo" where
  "runs_add m r =
     (if m (run_id r) \<noteq> None then (raise ValueError (''run already exists: '' @ run_id r), m)
      else (Inr (), m(run_id r \<mapsto> r)))"

definition runs_get :: "run_repo \<Rightarrow> string \<Rightarrow> task_run result" where
  "runs_get m i = (case m i of None \<Rightarrow> raise KeyError (''unknown run: '' @ i) | Some r \<Rightarrow> Inr r)"

definition runs_save :: "run_repo \<Rightarrow> task_run \<Rightarrow> int \<Rightarrow> unit result \<times> run_repo" where
  "runs_save m r expected =
     (case m (run_id r) of
        None \<Rightarrow> (raise KeyError (run_id r), m)
      | Some current \<Rightarrow>
          if run_version current \<noteq> expected \<or> run_version r \<le> expected
          then (raise ConcurrentModificationError (''run version changed: expected '' @ int_str expected @ '', got '' @
                  int_str (run_version current)), m)
          else (Inr (), m(run_id r \<mapsto> r)))"

type_synonym checkpoints = "string \<rightharpoonup> (string \<times> pyval) list"

definition checkpoints_load :: "checkpoints \<Rightarrow> string \<Rightarrow> (string \<times> pyval) list" where
  "checkpoints_load m i = (case m i of None \<Rightarrow> [] | Some s \<Rightarrow> s)"

definition checkpoints_save :: "checkpoints \<Rightarrow> task_run \<Rightarrow> (string \<times> pyval) list \<Rightarrow> checkpoints" where
  "checkpoints_save m r snapshot = m(run_id r \<mapsto> dset ''run_version'' (VInt (run_version r)) snapshot)"

section \<open>Decisions (decisions.py, engine.py)\<close>

datatype decision_kind = CALL_TOOL | NEEDS_USER | COMPLETE

record validated_decision =
  vd_kind :: decision_kind
  vd_tool_call :: "tool_call option"
  vd_message :: "string option"
  vd_result :: pyval

definition check_decision :: "validated_decision \<Rightarrow> validated_decision result" where
  "check_decision d =
     ensure (\<not> (vd_kind d = CALL_TOOL \<and> vd_tool_call d = None)) ValueError ''CALL_TOOL requires tool_call''
      (ensure (\<not> (vd_kind d \<noteq> CALL_TOOL \<and> vd_tool_call d \<noteq> None)) ValueError ''only CALL_TOOL may carry tool_call'' (Inr d))"

datatype grants = Grant_All "string set" | Grant_Per_Tool "(string \<times> string set) list"

definition grants_for :: "grants \<Rightarrow> string \<Rightarrow> string set" where
  "grants_for g tool_id =
     (case g of Grant_All s \<Rightarrow> s
      | Grant_Per_Tool m \<Rightarrow> (case dget m tool_id of None \<Rightarrow> {} | Some s \<Rightarrow> s))"

record decision_validator =
  dv_descriptors :: "((string \<times> string) \<times> tool_descriptor) list"
  dv_allowed :: "string set"
  dv_grants :: grants

definition mk_validator :: "tool_descriptor list \<Rightarrow> grants \<Rightarrow> decision_validator" where
  "mk_validator ds g =
     \<lparr>dv_descriptors = fold (\<lambda>d. dset (td_id d, td_version d) d) ds [], dv_allowed = td_id ` set ds, dv_grants = g\<rparr>"

definition validate_call ::
  "stdlib \<Rightarrow> decision_validator \<Rightarrow> (string \<times> pyval) list \<Rightarrow> task_run \<Rightarrow> validated_decision result" where
  "validate_call L v p r =
     ensure (dkeys p = {''kind'', ''tool_id'', ''tool_version'', ''arguments''}) ValidationError
       ''tool proposal cannot supply authority or extra fields''
      (case (dget p ''tool_id'', dget p ''tool_version'') of
         (Some (VStr tool_id), Some (VStr version)) \<Rightarrow>
           (case dget (dv_descriptors v) (tool_id, version) of
              None \<Rightarrow> raise ValidationError ''tool/version is not in this run's allowed snapshot''
            | Some d \<Rightarrow>
                ensure (td_risk d \<noteq> PROHIBITED) ValidationError ''tool/version is not in this run's allowed snapshot''
                 (case dget p ''arguments'' of
                    Some (VDict a) \<Rightarrow>
                      rbind (validate_json_schema L (VDict a) (td_input_schema d) ''$'') (\<lambda>_.
                      rbind (check_tool_call
                        \<lparr>tc_tool_id = tool_id, tc_tool_version = version, tc_arguments = VDict a, tc_task_id = run_task_id r,
                         tc_target = VNone, tc_attachments = [], tc_granted_capabilities = grants_for (dv_grants v) tool_id,
                         tc_workflow_allowed_tools = dv_allowed v, tc_approval_id = None, tc_idempotency_key = None,
                         tc_form_version = None\<rparr>) (\<lambda>call.
                      check_decision \<lparr>vd_kind = CALL_TOOL, vd_tool_call = Some call, vd_message = None, vd_result = VNone\<rparr>))
                  | _ \<Rightarrow> raise ValidationError ''tool arguments must be an object''))
       | _ \<Rightarrow> raise ValidationError ''tool identity is invalid'')"

definition validate_decision ::
  "stdlib \<Rightarrow> decision_validator \<Rightarrow> pyval \<Rightarrow> task_run \<Rightarrow> validated_decision result" where
  "validate_decision L v proposal r =
     (case as_map proposal of
        None \<Rightarrow> raise ValidationError ''proposal must be an object''
      | Some p \<Rightarrow>
          (let kind = (case dget p ''kind'' of None \<Rightarrow> VNone | Some k \<Rightarrow> k) in
           if kind = VStr ''CALL_TOOL'' then validate_call L v p r
           else case unhashable kind of
             Some t \<Rightarrow> raise TypeError (''unhashable type: '' @ py_repr t)
           | None \<Rightarrow>
               ensure (kind \<in> {VStr ''COMPLETE'', VStr ''NEEDS_USER''} \<and> dkeys p \<subseteq> {''kind'', ''message'', ''result''})
                 ValidationError ''unsupported model decision''
                (case dget p ''message'' of
                   Some (VStr m) \<Rightarrow>
                     ensure (\<not> blank m \<and> int (length m) \<le> 20000) ValidationError ''a bounded decision message is required''
                      (check_decision \<lparr>vd_kind = (if kind = VStr ''COMPLETE'' then COMPLETE else NEEDS_USER),
                         vd_tool_call = None, vd_message = Some m,
                         vd_result = (case dget p ''result'' of None \<Rightarrow> VNone | Some x \<Rightarrow> x)\<rparr>)
                 | _ \<Rightarrow> raise ValidationError ''a bounded decision message is required'')))"

section \<open>AgentEngine (engine.py)\<close>

record agent_world =
  aw_runs :: run_repo
  aw_checkpoints :: checkpoints
  aw_observations :: "(string \<times> pyval) list"
  aw_gateway :: gateway

record agent_config =
  ac_lib :: stdlib
  ac_fuse :: fuse_thresholds
  ac_validator :: decision_validator
  ac_unit_of_work :: bool

record round_env =
  re_now :: time
  re_propose :: "task_run \<Rightarrow> (string \<times> pyval) list \<Rightarrow> pyval result"
  re_execute :: "tool_descriptor \<Rightarrow> pyval \<Rightarrow> exec_context \<Rightarrow> exec_result"
  re_frozen :: bool
  re_frozen_later :: bool
  re_draws :: draws
  re_call_time :: time
  re_done_time :: time
  re_notify :: "bool option"
  re_save_time :: time

definition save_run_and_checkpoint ::
  "agent_config \<Rightarrow> task_run \<Rightarrow> int \<Rightarrow> (string \<times> pyval) list \<Rightarrow> agent_world \<Rightarrow> task_run result \<times> agent_world" where
  "save_run_and_checkpoint cfg r expected snapshot w =
     (case runs_save (aw_runs w) r expected of
        (Inl e, m) \<Rightarrow> (Inl e, w\<lparr>aw_runs := m\<rparr>)
      | (Inr _, m) \<Rightarrow> (Inr r, w\<lparr>aw_runs := m, aw_checkpoints := checkpoints_save (aw_checkpoints w) r snapshot\<rparr>))"

definition engine_transition ::
  "agent_config \<Rightarrow> time \<Rightarrow> task_run \<Rightarrow> task_state \<Rightarrow> string option \<Rightarrow> string option \<Rightarrow> agent_world
   \<Rightarrow> task_run result \<times> agent_world" where
  "engine_transition cfg now r st reference reason w =
     (case transition_run r st reference reason now of
        Inl e \<Rightarrow> (Inl e, w)
      | Inr updated \<Rightarrow>
          scope (ac_unit_of_work cfg) (save_run_and_checkpoint cfg updated (run_version r)
            [(''state'', VStr (task_state_value (run_state updated))), (''reference'', opt_str reference), (''reason'', opt_str reason)]) w)"

definition observe :: "task_run \<Rightarrow> pyval \<Rightarrow> agent_world \<Rightarrow> agent_world" where
  "observe r v w = w\<lparr>aw_observations := aw_observations w @ [(run_id r, v)]\<rparr>"

fun waiting_state :: "outcome_kind \<Rightarrow> task_state option" where
  "waiting_state OK_APPROVAL_REQUIRED = Some TS_WAITING_APPROVAL"
| "waiting_state OK_USER_ACTION_REQUIRED = Some TS_WAITING_USER"
| "waiting_state OK_EXTENSION_UNAVAILABLE = Some TS_PAUSED_EXTENSION"
| "waiting_state OK_OUTCOME_UNKNOWN = Some TS_WAITING_RECONCILIATION"
| "waiting_state OK_SAFETY_PAUSE = Some TS_PAUSED_SAFETY"
| "waiting_state _ = None"

text \<open>The flag tells whether the loop goes on.\<close>

definition stop_with :: "task_run result \<times> agent_world \<Rightarrow> (task_run \<times> bool) result \<times> agent_world" where
  "stop_with x = (case x of (Inl e, w) \<Rightarrow> (Inl e, w) | (Inr r, w) \<Rightarrow> (Inr (r, False), w))"

definition engine_observe ::
  "agent_config \<Rightarrow> time \<Rightarrow> task_run \<Rightarrow> tool_call \<Rightarrow> tool_outcome \<Rightarrow> agent_world \<Rightarrow> (task_run \<times> bool) result \<times> agent_world" where
  "engine_observe cfg now r c out =
     scope (ac_unit_of_work cfg) (\<lambda>w.
       let w' = observe r (to_result out) w in
       case record_progress (ac_lib cfg) r c out now of
         Inl e \<Rightarrow> (Inl e, w')
       | Inr r' \<Rightarrow>
           sbind (save_run_and_checkpoint cfg r' (run_version r)
              [(''last_outcome'', VStr (outcome_kind_value (to_kind out))), (''last_reference'', opt_str (to_reference_id out))] w')
             (\<lambda>r' w. (Inr (r', True), w)))"

definition engine_act ::
  "agent_config \<Rightarrow> round_env \<Rightarrow> task_run \<Rightarrow> tool_call \<Rightarrow> agent_world \<Rightarrow> (task_run \<times> bool) result \<times> agent_world" where
  "engine_act cfg e r c w =
     (case invoke (ac_lib cfg) (re_execute e) (re_frozen e) (re_frozen_later e) (re_draws e) (re_call_time e) (re_done_time e)
             (re_notify e) c (aw_gateway w) of
        (Inl x, gw) \<Rightarrow> (Inl x, w\<lparr>aw_gateway := gw\<rparr>)
      | (Inr out, gw) \<Rightarrow>
          (case waiting_state (to_kind out) of
             Some st \<Rightarrow> stop_with (engine_transition cfg (re_save_time e) r st
               (or_default (to_approval_id out) (or_default (to_reference_id out) (to_extension_id out)))
               (to_message out) (w\<lparr>aw_gateway := gw\<rparr>))
           | None \<Rightarrow> engine_observe cfg (re_save_time e) r c out (w\<lparr>aw_gateway := gw\<rparr>)))"

definition engine_round ::
  "agent_config \<Rightarrow> round_env \<Rightarrow> task_run \<Rightarrow> agent_world \<Rightarrow> (task_run \<times> bool) result \<times> agent_world" where
  "engine_round cfg e r w =
     (case fuse_reason (ac_fuse cfg) r (re_now e) of
        Some reason \<Rightarrow> stop_with (engine_transition cfg (re_save_time e) r TS_PAUSED_SAFETY None (Some reason) w)
      | None \<Rightarrow>
          (case rbind (re_propose e r (checkpoints_load (aw_checkpoints w) (run_id r))) (\<lambda>p.
                  validate_decision (ac_lib cfg) (ac_validator cfg) p r) of
             Inl x \<Rightarrow> (Inl x, w)
           | Inr d \<Rightarrow>
               (case vd_kind d of
                  NEEDS_USER \<Rightarrow> stop_with (engine_transition cfg (re_save_time e) r TS_WAITING_USER None
                    (or_default (vd_message d) (Some ''USER_INPUT_REQUIRED'')) w)
                | COMPLETE \<Rightarrow> stop_with (scope (ac_unit_of_work cfg) (\<lambda>w.
                    engine_transition cfg (re_save_time e) r TS_SUCCEEDED None None (observe r (vd_result d) w)) w)
                | CALL_TOOL \<Rightarrow> engine_act cfg e r (the (vd_tool_call d)) w)))"

fun engine_loop ::
  "agent_config \<Rightarrow> round_env list \<Rightarrow> task_run \<Rightarrow> agent_world \<Rightarrow> (task_run result \<times> agent_world) option" where
  "engine_loop cfg [] r w = (if run_state r \<noteq> TS_RUNNING then Some (Inr r, w) else None)"
| "engine_loop cfg (e # es) r w =
     (if run_state r \<noteq> TS_RUNNING then Some (Inr r, w)
      else case engine_round cfg e r w of
        (Inl x, w') \<Rightarrow> Some (Inl x, w')
      | (Inr (r', go), w') \<Rightarrow> if go then engine_loop cfg es r' w' else Some (Inr r', w'))"

definition engine_run ::
  "agent_config \<Rightarrow> round_env list \<Rightarrow> string \<Rightarrow> agent_world \<Rightarrow> (task_run result \<times> agent_world) option" where
  "engine_run cfg es i w =
     (case runs_get (aw_runs w) i of Inl x \<Rightarrow> Some (Inl x, w) | Inr r \<Rightarrow> engine_loop cfg es r w)"

section \<open>Interfaces\<close>

definition runs_put :: "run_repo \<Rightarrow> task_run \<Rightarrow> int \<Rightarrow> task_run result \<times> run_repo" where
  "runs_put m r v = (case runs_save m r v of (Inl e, m') \<Rightarrow> (Inl e, m') | (Inr _, m') \<Rightarrow> (Inr r, m'))"

interpretation run_store: cas_store "\<lambda>m. m" run_id run_version runs_put
  by unfold_locales (auto simp: runs_put_def runs_save_def raise_def split: option.splits if_splits)

interpretation run_policy: transition_policy run_allowed task_terminal
proof
  show "task_terminal q = (run_allowed q = {})" for q by (cases q) (simp_all add: task_terminal_def)
qed

section \<open>Lemmas on one round\<close>

lemma check_task_run_eq:
  "check_task_run r = Inr r' \<longleftrightarrow> r' = r \<and> run_id r \<noteq> [] \<and> run_task_id r \<noteq> [] \<and> \<not> blank (run_objective r) \<and> 0 \<le> run_version r \<and>
     1 \<le> segment_number r \<and> 0 \<le> consecutive_errors r \<and> 0 \<le> no_progress_rounds r \<and> 0 \<le> same_call_without_progress r"
  by (auto simp: check_task_run_def)

lemma record_progress_Inr:
  assumes "record_progress L r c out now = Inr r'"
  shows "run_id r' = run_id r" "run_state r' = run_state r" "active_started_at r' = active_started_at r"
    "run_version r' = run_version r + 1"
    "no_progress_rounds r' = 0 \<and> to_kind out = OK_SUCCESS \<and> last_observation_fingerprint r' \<noteq> last_observation_fingerprint r \<or>
     no_progress_rounds r' = no_progress_rounds r + 1 \<and> last_observation_fingerprint r' = last_observation_fingerprint r"
  using assms by (auto simp: record_progress_def Let_def check_task_run_eq)

lemma save_rc_Inr:
  assumes "save_run_and_checkpoint cfg r v snap w = (Inr r', w')"
  shows "r' = r" "\<exists>c. aw_runs w (run_id r) = Some c \<and> run_version c = v" "aw_runs w' = (aw_runs w)(run_id r \<mapsto> r)"
    "aw_gateway w' = aw_gateway w"
  using assms by (auto simp: save_run_and_checkpoint_def runs_save_def raise_def split: option.splits if_splits)

lemma save_rc_Inl: "save_run_and_checkpoint cfg r v snap w = (Inl e, w') \<Longrightarrow> aw_runs w' = aw_runs w"
  by (auto simp: save_run_and_checkpoint_def runs_save_def raise_def split: option.splits if_splits)

lemma save_rc_stale:
  assumes "aw_runs w (run_id r) = Some c" "run_version c \<noteq> v"
  shows "\<exists>e. save_run_and_checkpoint cfg r v snap w = (Inl e, w)"
  using assms by (auto simp: save_run_and_checkpoint_def runs_save_def raise_def)

lemma transition_run_Inr:
  assumes "transition_run r st reference reason now = Inr r'"
  shows "run_id r' = run_id r" "run_state r' = st" "run_version r' = run_version r + 1" "waiting_reference r' = reference"
    "pause_reason r' = reason" "st \<in> run_allowed (run_state r)"
  using assms by (auto simp: transition_run_def check_task_run_eq invalid_transition_def split: if_splits)

lemma transition_stale:
  assumes "aw_runs w (run_id r) = Some c" "run_version c \<noteq> run_version r"
  shows "\<exists>x. engine_transition cfg now r st reference reason w = (Inl x, w)"
proof (cases "transition_run r st reference reason now")
  case (Inr r')
  note t = transition_run_Inr [OF Inr]
  have "aw_runs w (run_id r') = Some c" using assms(1) t(1) by simp
  from save_rc_stale [OF this assms(2)] obtain x where "save_run_and_checkpoint cfg r' (run_version r)
      [(''state'', VStr (task_state_value (run_state r'))), (''reference'', opt_str reference), (''reason'', opt_str reason)] w = (Inl x, w)"
    by blast
  with Inr show ?thesis by (simp add: engine_transition_def scope_def)
qed (simp add: engine_transition_def)

lemma transition_ok:
  assumes "aw_runs w (run_id r) = Some r" "check_task_run r = Inr r" "st \<in> run_allowed (run_state r)"
  shows "\<exists>r' w'. engine_transition cfg now r st reference reason w = (Inr r', w') \<and> run_state r' = st \<and>
    waiting_reference r' = reference \<and> pause_reason r' = reason \<and> run_id r' = run_id r \<and> run_version r' = run_version r + 1 \<and>
    aw_runs w' = (aw_runs w)(run_id r \<mapsto> r') \<and> aw_gateway w' = aw_gateway w"
proof -
  let ?u = "r\<lparr>run_state := st, waiting_reference := reference, pause_reason := reason, run_updated_at := now,
      run_version := run_version r + 1\<rparr>"
  have "check_task_run ?u = Inr ?u" using assms(2) by (simp add: check_task_run_eq)
  then show ?thesis
    using assms(1,3)
    by (simp add: engine_transition_def transition_run_def scope_def save_run_and_checkpoint_def runs_save_def)
qed

lemma observe_simps [simp]:
  "aw_runs (observe r v w) = aw_runs w" "aw_gateway (observe r v w) = aw_gateway w"
  by (simp_all add: observe_def)

lemma observe_stale:
  assumes "aw_runs w (run_id r) = Some c" "run_version c \<noteq> run_version r"
  shows "\<exists>x w'. engine_observe cfg now r call out w = (Inl x, w') \<and> aw_runs w' = aw_runs w"
proof (cases "record_progress (ac_lib cfg) r call out now")
  case (Inr r')
  note p = record_progress_Inr [OF Inr]
  have "aw_runs (observe r (to_result out) w) (run_id r') = Some c" using assms(1) p(1) by simp
  from save_rc_stale [OF this assms(2)] obtain x where "save_run_and_checkpoint cfg r' (run_version r)
      [(''last_outcome'', VStr (outcome_kind_value (to_kind out))), (''last_reference'', opt_str (to_reference_id out))]
      (observe r (to_result out) w) = (Inl x, observe r (to_result out) w)" by blast
  with Inr show ?thesis by (simp add: engine_observe_def scope_def Let_def)
qed (auto simp: engine_observe_def scope_def Let_def)

lemma stop_with_stale: "\<exists>x. y = (Inl x, w) \<Longrightarrow> \<exists>x. stop_with y = (Inl x, w)"
  by (auto simp: stop_with_def)

text \<open>A round that works on an outdated run writes no run and ends with an exception.\<close>

lemma round_stale:
  assumes "aw_runs w (run_id r) = Some c" "run_version c \<noteq> run_version r"
  shows "\<exists>x w'. engine_round cfg e r w = (Inl x, w') \<and> aw_runs w' = aw_runs w"
proof (cases "fuse_reason (ac_fuse cfg) r (re_now e)")
  case (Some reason)
  with stop_with_stale [OF transition_stale [OF assms]] show ?thesis by (fastforce simp: engine_round_def)
next
  case None
  have act: "\<exists>x w'. engine_act cfg e r call w = (Inl x, w') \<and> aw_runs w' = aw_runs w" for call
  proof -
    obtain res gw where inv: "invoke (ac_lib cfg) (re_execute e) (re_frozen e) (re_frozen_later e) (re_draws e) (re_call_time e)
        (re_done_time e) (re_notify e) call (aw_gateway w) = (res, gw)" by fastforce
    have st: "aw_runs (w\<lparr>aw_gateway := gw\<rparr>) (run_id r) = Some c" using assms(1) by simp
    show ?thesis
    proof (cases res)
      case (Inl x)
      with inv show ?thesis by (simp add: engine_act_def)
    next
      case (Inr out)
      show ?thesis
      proof (cases "waiting_state (to_kind out)")
        case None
        with observe_stale [OF st assms(2), of cfg "re_save_time e" call out] inv Inr show ?thesis
          by (fastforce simp: engine_act_def)
      next
        case (Some s)
        with stop_with_stale [OF transition_stale [OF st assms(2)]] inv Inr show ?thesis
          by (fastforce simp: engine_act_def)
      qed
    qed
  qed
  have complete: "\<exists>x w'. stop_with (scope (ac_unit_of_work cfg) (\<lambda>w. engine_transition cfg now r TS_SUCCEEDED None None (observe r v w)) w) =
      (Inl x, w') \<and> aw_runs w' = aw_runs w" for now v
  proof -
    have "aw_runs (observe r v w) (run_id r) = Some c" using assms(1) by simp
    from transition_stale [OF this assms(2), of cfg now TS_SUCCEEDED None None] show ?thesis
      by (auto simp: scope_def stop_with_def)
  qed
  show ?thesis
  proof (cases "rbind (re_propose e r (checkpoints_load (aw_checkpoints w) (run_id r))) (\<lambda>p. validate_decision (ac_lib cfg) (ac_validator cfg) p r)")
    case (Inl x)
    with None show ?thesis by (simp add: engine_round_def)
  next
    case (Inr d)
    with None act complete stop_with_stale [OF transition_stale [OF assms]] show ?thesis
      by (cases "vd_kind d") (fastforce simp: engine_round_def)+
  qed
qed

text \<open>A round after which the loop goes on: the fuse was intact and the run is the recorded one.\<close>

lemma round_go:
  assumes "engine_round cfg e r w = (Inr (r', True), w')"
  shows "fuse_reason (ac_fuse cfg) r (re_now e) = None"
    "\<exists>call out. record_progress (ac_lib cfg) r call out (re_save_time e) = Inr r'"
proof -
  have stop: "stop_with x \<noteq> (Inr (r', True), w')" for x
    by (auto simp: stop_with_def split: prod.splits sum.splits)
  show fuse: "fuse_reason (ac_fuse cfg) r (re_now e) = None"
    using assms stop by (auto simp: engine_round_def split: option.splits)
  from assms fuse stop obtain d :: validated_decision where "engine_act cfg e r (the (vd_tool_call d)) w = (Inr (r', True), w')"
    by (auto simp: engine_round_def split: sum.splits decision_kind.splits)
  then obtain out w1 where "engine_observe cfg (re_save_time e) r (the (vd_tool_call d)) out w1 = (Inr (r', True), w')"
    using stop by (auto simp: engine_act_def split: prod.splits sum.splits option.splits)
  then obtain r1 where "record_progress (ac_lib cfg) r (the (vd_tool_call d)) out (re_save_time e) = Inr r1" "r' = r1"
    by (auto simp: engine_observe_def scope_def Let_def sbind_eq_Inr dest!: save_rc_Inr(1) split: sum.splits prod.splits)
  then show "\<exists>call out. record_progress (ac_lib cfg) r call out (re_save_time e) = Inr r'" by blast
qed

section \<open>The loop\<close>

fun engine_after :: "agent_config \<Rightarrow> round_env list \<Rightarrow> task_run \<Rightarrow> agent_world \<Rightarrow> (task_run \<times> agent_world) option" where
  "engine_after cfg [] r w = Some (r, w)"
| "engine_after cfg (e # es) r w =
     (if run_state r \<noteq> TS_RUNNING then None
      else case engine_round cfg e r w of (Inr (r', True), w') \<Rightarrow> engine_after cfg es r' w' | _ \<Rightarrow> None)"

lemma engine_after_append:
  "engine_after cfg (es @ fs) r w = (case engine_after cfg es r w of None \<Rightarrow> None | Some (r', w') \<Rightarrow> engine_after cfg fs r' w')"
  by (induction cfg es r w rule: engine_after.induct) (auto split: prod.splits sum.splits bool.splits)

lemma engine_after_single:
  assumes "engine_after cfg [e] r w = Some (r', w')"
  shows "fuse_reason (ac_fuse cfg) r (re_now e) = None"
    "no_progress_rounds r' = 0 \<and> last_observation_fingerprint r' \<noteq> last_observation_fingerprint r \<or>
     no_progress_rounds r' = no_progress_rounds r + 1 \<and> last_observation_fingerprint r' = last_observation_fingerprint r"
proof -
  from assms have "engine_round cfg e r w = (Inr (r', True), w')"
    by (auto split: if_splits prod.splits sum.splits bool.splits)
  from round_go [OF this] record_progress_Inr(5) show "fuse_reason (ac_fuse cfg) r (re_now e) = None"
    "no_progress_rounds r' = 0 \<and> last_observation_fingerprint r' \<noteq> last_observation_fingerprint r \<or>
     no_progress_rounds r' = no_progress_rounds r + 1 \<and> last_observation_fingerprint r' = last_observation_fingerprint r"
    by blast+
qed

text \<open>The observation the run carries after the first k rounds.\<close>

definition observation_at :: "agent_config \<Rightarrow> round_env list \<Rightarrow> task_run \<Rightarrow> agent_world \<Rightarrow> nat \<Rightarrow> string option" where
  "observation_at cfg es r w k =
     (case engine_after cfg (take k es) r w of None \<Rightarrow> None | Some (r', _) \<Rightarrow> last_observation_fingerprint r')"

lemma observation_at_append: "k \<le> length es \<Longrightarrow> observation_at cfg (es @ fs) r w k = observation_at cfg es r w k"
  by (simp add: observation_at_def)

lemma stalled_rounds:
  assumes "engine_after cfg es r w = Some (r', w')"
    and "\<And>k. k < length es \<Longrightarrow> observation_at cfg es r w (Suc k) = observation_at cfg es r w k"
  shows "no_progress_rounds r' = no_progress_rounds r + int (length es)"
    "es \<noteq> [] \<Longrightarrow> no_progress_rounds r' \<le> ft_no_progress (ac_fuse cfg)"
proof -
  have "no_progress_rounds r' = no_progress_rounds r + int (length es) \<and>
      (es \<noteq> [] \<longrightarrow> no_progress_rounds r' \<le> ft_no_progress (ac_fuse cfg))"
    using assms
  proof (induction es arbitrary: r' w' rule: rev_induct)
    case (snoc e es)
    from snoc.prems(1) obtain r1 w1 where r1: "engine_after cfg es r w = Some (r1, w1)" "engine_after cfg [e] r1 w1 = Some (r', w')"
      by (auto simp: engine_after_append split: option.splits)
    have "observation_at cfg es r w (Suc k) = observation_at cfg es r w k" if "k < length es" for k
      using snoc.prems(2) [of k] that observation_at_append [of "Suc k" es cfg "[e]" r w]
        observation_at_append [of k es cfg "[e]" r w] by simp
    from snoc.IH [OF r1(1) this] have n: "no_progress_rounds r1 = no_progress_rounds r + int (length es)" by blast
    have "last_observation_fingerprint r' = last_observation_fingerprint r1"
      using snoc.prems(2) [of "length es"] snoc.prems(1) r1(1) by (simp add: observation_at_def)
    with engine_after_single [OF r1(2)] have "no_progress_rounds r' = no_progress_rounds r1 + 1"
      "no_progress_rounds r1 < ft_no_progress (ac_fuse cfg)" by (auto simp: fuse_reason_def split: if_splits)
    with n show ?case by simp
  qed simp
  then show "no_progress_rounds r' = no_progress_rounds r + int (length es)"
    "es \<noteq> [] \<Longrightarrow> no_progress_rounds r' \<le> ft_no_progress (ac_fuse cfg)" by simp_all
qed

lemma loop_stops:
  assumes "e \<in> set es" "active_started_at r + ft_active (ac_fuse cfg) \<le> re_now e"
  shows "\<exists>x. engine_loop cfg es r w = Some x"
  using assms
proof (induction es arbitrary: r w)
  case (Cons f es)
  show ?case
  proof (cases "run_state r = TS_RUNNING")
    case running: True
    obtain res w1 where rd: "engine_round cfg f r w = (res, w1)" by fastforce
    show ?thesis
    proof (cases "\<exists>r'. res = Inr (r', True)")
      case True
      then obtain r' where r': "engine_round cfg f r w = (Inr (r', True), w1)" using rd by blast
      from round_go [OF this] have fuse: "fuse_reason (ac_fuse cfg) r (re_now f) = None"
        and st: "active_started_at r' = active_started_at r" using record_progress_Inr(3) by blast+
      from fuse Cons.prems have "e \<in> set es" by (auto simp: fuse_reason_def split: if_splits)
      with Cons.IH [of r' w1] Cons.prems(2) st running r' show ?thesis by simp
    qed (use running rd in \<open>auto split: sum.splits\<close>)
  qed simp
qed simp

section \<open>Authority of proposals\<close>

lemma validate_call_Inr:
  assumes "validate_call L v p r = Inr d"
  obtains c desc where "vd_kind d = CALL_TOOL" "vd_tool_call d = Some c" "tc_task_id c = run_task_id r" "tc_target c = VNone"
    "tc_approval_id c = None" "tc_idempotency_key c = None" "tc_attachments c = []"
    "tc_granted_capabilities c = grants_for (dv_grants v) (tc_tool_id c)" "tc_workflow_allowed_tools c = dv_allowed v"
    "dget (dv_descriptors v) (tc_tool_id c, tc_tool_version c) = Some desc" "td_risk desc \<noteq> PROHIBITED"
    "validate_json_schema L (tc_arguments c) (td_input_schema desc) ''$'' = Inr ()"
  using assms
  by (auto simp: validate_call_def rbind_eq_Inr check_tool_call_def check_decision_def
      split: option.splits pyval.splits)

lemma validate_decision_call:
  assumes "validate_decision L v proposal r = Inr d" "vd_kind d = CALL_TOOL"
  shows "\<exists>p. validate_call L v p r = Inr d"
  using assms by (auto simp: validate_decision_def Let_def check_decision_def split: option.splits if_splits pyval.splits)

text \<open>What a round may add to the executed calls.\<close>

definition adds_internal :: "agent_world \<Rightarrow> agent_world \<Rightarrow> bool" where
  "adds_internal w w' \<longleftrightarrow> keyed (gw_approvals (aw_gateway w')) \<and>
     (\<exists>xs. gw_executed (aw_gateway w') = gw_executed (aw_gateway w) @ xs \<and>
        list_all (\<lambda>(d, args, ctx). td_risk d \<in> {READ, INTERNAL_WRITE}) xs)"

lemma adds_internal_refl: "keyed (gw_approvals (aw_gateway w)) \<Longrightarrow> aw_gateway w' = aw_gateway w \<Longrightarrow> adds_internal w w'"
  by (simp add: adds_internal_def)

lemma adds_internal_gateway: "adds_internal w w1 \<Longrightarrow> aw_gateway w2 = aw_gateway w1 \<Longrightarrow> adds_internal w w2"
  by (simp add: adds_internal_def)

lemma adds_internal_trans: "adds_internal w w1 \<Longrightarrow> adds_internal w1 w2 \<Longrightarrow> adds_internal w w2"
  by (fastforce simp: adds_internal_def)

lemma save_rc_gateway: "aw_gateway (snd (save_run_and_checkpoint cfg r v snap w)) = aw_gateway w"
  by (auto simp: save_run_and_checkpoint_def split: prod.splits sum.splits)

lemma scope_gateway: "(\<And>w. aw_gateway (snd (f w)) = aw_gateway w) \<Longrightarrow> aw_gateway (snd (scope u f w)) = aw_gateway w"
proof -
  assume f: "\<And>w. aw_gateway (snd (f w)) = aw_gateway w"
  obtain res w' where "f w = (res, w')" by fastforce
  with f [of w] show ?thesis by (cases res) (simp_all add: scope_def)
qed

lemma transition_gateway: "aw_gateway (snd (engine_transition cfg now r st ref reason w)) = aw_gateway w"
  by (auto simp: engine_transition_def save_rc_gateway intro: scope_gateway split: sum.splits)

lemma stop_with_gateway: "aw_gateway (snd (stop_with x)) = aw_gateway (snd x)"
  by (auto simp: stop_with_def split: prod.splits sum.splits)

lemma engine_observe_gateway: "aw_gateway (snd (engine_observe cfg now r c out w)) = aw_gateway w"
proof -
  have "aw_gateway (snd (sbind (save_run_and_checkpoint cfg r' v snap w') (\<lambda>r' w. (Inr (r', True), w)))) = aw_gateway w'" for r' v snap w'
    using save_rc_gateway [of cfg r' v snap w'] by (auto simp: sbind_def split: prod.splits sum.splits)
  then show ?thesis
    unfolding engine_observe_def by (intro scope_gateway) (auto simp: Let_def split: sum.splits)
qed

lemma act_internal:
  assumes "keyed (gw_approvals (aw_gateway w))" "tc_target c = VNone"
  shows "adds_internal w (snd (engine_act cfg e r c w))"
proof -
  obtain res gw where inv: "invoke (ac_lib cfg) (re_execute e) (re_frozen e) (re_frozen_later e) (re_draws e) (re_call_time e)
      (re_done_time e) (re_notify e) c (aw_gateway w) = (res, gw)" by fastforce
  have k: "keyed (gw_approvals gw)"
    using invoke_keyed [OF assms(1), of "ac_lib cfg" "re_execute e" "re_frozen e" "re_frozen_later e" "re_draws e" "re_call_time e"
        "re_done_time e" "re_notify e" c] inv by simp
  have "adds_internal w (w\<lparr>aw_gateway := gw\<rparr>)"
  proof (cases "gw_executed gw = gw_executed (aw_gateway w)")
    case True
    with k show ?thesis by (simp add: adds_internal_def)
  next
    case False
    from invoke_executes [OF assms(1) inv this] obtain d ctx where
      d: "gw_executed gw = gw_executed (aw_gateway w) @ [(d, tc_arguments c, ctx)]"
      "permitted (ac_lib cfg) (aw_gateway w) (re_frozen e) d c" by blast
    then have "td_risk d \<in> {READ, INTERNAL_WRITE}"
      using assms(2) by (cases "td_risk d") (auto simp: permitted_def)
    with d k show ?thesis by (auto simp: adds_internal_def)
  qed
  moreover have "aw_gateway (snd (engine_act cfg e r c w)) = gw"
    using inv by (auto simp: engine_act_def engine_observe_gateway stop_with_gateway transition_gateway split: sum.splits option.splits)
  ultimately show ?thesis by (simp add: adds_internal_def)
qed

lemma round_internal:
  assumes "keyed (gw_approvals (aw_gateway w))"
  shows "adds_internal w (snd (engine_round cfg e r w))"
proof -
  note same = adds_internal_refl [OF assms]
  have tr: "adds_internal w (snd (stop_with (engine_transition cfg now r st ref reason w)))" for now st ref reason
    by (rule same) (simp add: stop_with_gateway transition_gateway)
  have co: "adds_internal w (snd (stop_with (scope u (\<lambda>w. engine_transition cfg now r TS_SUCCEEDED None None (observe r v w)) w)))" for u now v
    by (rule same) (simp add: stop_with_gateway scope_gateway transition_gateway)
  have act: "adds_internal w (snd (engine_act cfg e r (the (vd_tool_call d)) w))"
    if "validate_decision (ac_lib cfg) (ac_validator cfg) p r = Inr d" "vd_kind d = CALL_TOOL" for p d
  proof -
    from validate_decision_call [OF that] obtain q where "validate_call (ac_lib cfg) (ac_validator cfg) q r = Inr d" by blast
    then have "tc_target (the (vd_tool_call d)) = VNone" by (elim validate_call_Inr) simp
    from act_internal [OF assms this] show ?thesis .
  qed
  show ?thesis
    using tr co act same [OF refl]
    by (auto simp: engine_round_def rbind_eq_Inr split: option.splits sum.splits decision_kind.splits)
qed

lemma loop_internal:
  "keyed (gw_approvals (aw_gateway w)) \<Longrightarrow> engine_loop cfg es r w = Some (res, w') \<Longrightarrow> adds_internal w w'"
proof (induction es arbitrary: r w)
  case (Cons e es)
  obtain x w1 where rd: "engine_round cfg e r w = (x, w1)" by fastforce
  with round_internal [OF Cons.prems(1), of cfg e r] have i: "adds_internal w w1" by simp
  then have k: "keyed (gw_approvals (aw_gateway w1))" by (simp add: adds_internal_def)
  show ?case
  proof (cases "run_state r = TS_RUNNING \<and> (\<exists>r'. x = Inr (r', True))")
    case True
    then obtain r' where "run_state r = TS_RUNNING" "x = Inr (r', True)" by blast
    with Cons.prems(2) rd have "engine_loop cfg es r' w1 = Some (res, w')" by simp
    from adds_internal_trans [OF i Cons.IH [OF k this]] show ?thesis .
  next
    case False
    with Cons.prems rd i show ?thesis
      by (auto simp: adds_internal_refl split: if_splits sum.splits prod.splits)
  qed
qed (auto simp: adds_internal_refl split: if_splits)

section \<open>A concrete engine\<close>

definition demo_proposal :: pyval where
  "demo_proposal = VDict [(''kind'', VStr ''CALL_TOOL''), (''tool_id'', VStr ''mail.read''), (''tool_version'', VStr ''1''),
     (''arguments'', VDict [])]"

definition demo_env :: "time \<Rightarrow> exec_result \<Rightarrow> round_env" where
  "demo_env now x = \<lparr>re_now = now, re_propose = (\<lambda>_ _. Inr demo_proposal), re_execute = (\<lambda>_ _ _. x), re_frozen = False,
     re_frozen_later = False, re_draws = sample_draws, re_call_time = now, re_done_time = now, re_notify = None, re_save_time = now\<rparr>"

definition demo_tool :: tool_descriptor where
  "demo_tool = \<lparr>td_id = ''mail.read'', td_version = ''1'', td_extension_id = ''mail'',
     td_input_schema = VProxy [], td_output_schema = VProxy [], td_risk = READ, td_extension_version = Some ''1'',
     td_required_capabilities = {}, td_timeout_seconds = 30, td_retry_policy = RETRY_NONE,
     td_data_classes_in = {}, td_data_classes_out = {}\<rparr>"

definition demo_gateway :: gateway where
  "demo_gateway = \<lparr>gw_snapshot = \<lparr>rs_generation = 1, rs_tools = [((''mail.read'', ''1''), demo_tool)]\<rparr>,
     gw_policy = \<lparr>external_writes_enabled = False, has_frozen_probe = False\<rparr>,
     gw_approvals = Map.empty, gw_outbox = None, gw_audit = [], gw_executed = []\<rparr>"

definition demo_config :: agent_config where
  "demo_config = \<lparr>ac_lib = sample_lib, ac_fuse = default_thresholds\<lparr>ft_no_progress := 1\<rparr>,
     ac_validator = mk_validator [demo_tool] (Grant_All {}), ac_unit_of_work = False\<rparr>"

definition demo_run :: task_run where
  "demo_run = new_run ''r1'' ''t1'' ''read mail'' 0"

definition demo_agent :: agent_world where
  "demo_agent = \<lparr>aw_runs = [''r1'' \<mapsto> demo_run], aw_checkpoints = Map.empty, aw_observations = [], aw_gateway = demo_gateway\<rparr>"

lemma demo_agent_keyed: "keyed (gw_approvals (aw_gateway demo_agent))"
  by (simp add: demo_agent_def demo_gateway_def keyed_def)

section \<open>Properties\<close>

text \<open>
  C20. The loop of the engine always ends: as soon as the clock of some round has reached the time at which
  the active segment is over, the call has returned, whatever the planner proposed and whatever the
  tools answered before.
\<close>

theorem engine_terminates:
  assumes "e \<in> set es" "\<And>r. aw_runs w i = Some r \<Longrightarrow> active_started_at r + ft_active (ac_fuse cfg) \<le> re_now e"
  shows "\<exists>res w'. engine_run cfg es i w = Some (res, w')"
proof (cases "aw_runs w i")
  case None
  then show ?thesis by (simp add: engine_run_def runs_get_def raise_def)
next
  case (Some r)
  from loop_stops [OF assms(1) assms(2) [OF Some], of w] Some show ?thesis by (simp add: engine_run_def runs_get_def)
qed

theorem engine_terminates_witness:
  "\<exists>res w'. engine_run demo_config [demo_env 5 (ER_Return (VInt 1)), demo_env (hours 24) ER_Timeout] ''r1'' demo_agent = Some (res, w')"
proof (rule engine_terminates)
  show "demo_env (hours 24) ER_Timeout \<in> set [demo_env 5 (ER_Return (VInt 1)), demo_env (hours 24) ER_Timeout]" by simp
  show "active_started_at r + ft_active (ac_fuse demo_config) \<le> re_now (demo_env (hours 24) ER_Timeout)"
    if "aw_runs demo_agent ''r1'' = Some r" for r
    using that by (auto simp: demo_agent_def demo_run_def new_run_def demo_config_def default_thresholds_def demo_env_def)
qed

text \<open>
  The fuse bounds stalling: if the loop keeps going for more rounds than the no-progress threshold,
  some round in between saw a tool result it had not seen before.
\<close>

theorem engine_stall_bounded:
  assumes "engine_after cfg es r w = Some (r', w')" "check_thresholds (ac_fuse cfg) = Inr (ac_fuse cfg)"
    and "ft_no_progress (ac_fuse cfg) < int (length es)" "0 \<le> no_progress_rounds r"
  shows "\<exists>k < length es. observation_at cfg es r w (Suc k) \<noteq> observation_at cfg es r w k"
proof (rule ccontr)
  assume "\<not> ?thesis"
  then have same: "\<And>k. k < length es \<Longrightarrow> observation_at cfg es r w (Suc k) = observation_at cfg es r w k" by blast
  from assms(2,3) have "es \<noteq> []" by (auto simp: check_thresholds_def)
  with stalled_rounds [OF assms(1) same] assms(3,4) show False by simp
qed

theorem engine_stall_bounded_witness:
  "\<exists>k < 2. observation_at demo_config [demo_env 5 (ER_Return (VInt 1)), demo_env 6 (ER_Return (VInt 2))] demo_run demo_agent (Suc k) \<noteq>
     observation_at demo_config [demo_env 5 (ER_Return (VInt 1)), demo_env 6 (ER_Return (VInt 2))] demo_run demo_agent k"
proof -
  let ?es = "[demo_env 5 (ER_Return (VInt 1)), demo_env 6 (ER_Return (VInt 2))]"
  have "(case engine_after demo_config ?es demo_run demo_agent of None \<Rightarrow> False | Some _ \<Rightarrow> True)" by code_simp
  then obtain r' w' where go: "engine_after demo_config ?es demo_run demo_agent = Some (r', w')" by (auto split: option.splits)
  have t: "check_thresholds (ac_fuse demo_config) = Inr (ac_fuse demo_config)"
    by (simp add: check_thresholds_def demo_config_def default_thresholds_def time_units)
  have "ft_no_progress (ac_fuse demo_config) < int (length ?es)" "0 \<le> no_progress_rounds demo_run"
    by (simp_all add: demo_config_def default_thresholds_def demo_run_def new_run_def)
  from engine_stall_bounded [OF go t this] show ?thesis by (simp add: numeral_2_eq_2)
qed



text \<open>
  C19. The engine never overwrites a newer run: if the stored version is no longer the one the engine works
  on, for example because the run was cancelled meanwhile, no round changes any stored run and the
  loop ends with an exception.
\<close>

theorem engine_respects_newer:
  assumes "run_state r = TS_RUNNING" "aw_runs w (run_id r) = Some c" "run_version c \<noteq> run_version r"
  shows "\<exists>x w'. engine_loop cfg (e # es) r w = Some (Inl x, w') \<and> aw_runs w' = aw_runs w"
  using round_stale [OF assms(2,3), of cfg e] assms(1) by auto

theorem engine_respects_newer_witness:
  "\<exists>x w'. engine_loop demo_config [demo_env 5 (ER_Return (VInt 1))] demo_run
       (demo_agent\<lparr>aw_runs := [''r1'' \<mapsto> demo_run\<lparr>run_state := TS_CANCELLED, run_version := 1\<rparr>]\<rparr>) = Some (Inl x, w') \<and>
     aw_runs w' = [''r1'' \<mapsto> demo_run\<lparr>run_state := TS_CANCELLED, run_version := 1\<rparr>]"
proof -
  let ?c = "demo_run\<lparr>run_state := TS_CANCELLED, run_version := 1\<rparr>"
  let ?w = "demo_agent\<lparr>aw_runs := [''r1'' \<mapsto> ?c]\<rparr>"
  have "run_state demo_run = TS_RUNNING" "aw_runs ?w (run_id demo_run) = Some ?c" "run_version ?c \<noteq> run_version demo_run"
    by (simp_all add: demo_run_def new_run_def)
  from engine_respects_newer [OF this, of demo_config "demo_env 5 (ER_Return (VInt 1))" "[]"] obtain x w' where
    "engine_loop demo_config [demo_env 5 (ER_Return (VInt 1))] demo_run ?w = Some (Inl x, w')" "aw_runs w' = aw_runs ?w" by blast
  moreover have "aw_runs ?w = [''r1'' \<mapsto> ?c]" by simp
  ultimately show ?thesis by metis
qed

text \<open>
  C4. A model cannot write outside through the engine: however many rounds run and whatever is
  proposed, every call the executor receives is of a tool that reads or writes inside, because a
  validated proposal carries no target and no approval.
\<close>

theorem engine_no_external_writes:
  assumes "keyed (gw_approvals (aw_gateway w))" "engine_run cfg es i w = Some (res, w')"
  shows "\<exists>xs. gw_executed (aw_gateway w') = gw_executed (aw_gateway w) @ xs \<and>
    list_all (\<lambda>(d, args, ctx). td_risk d \<in> {READ, INTERNAL_WRITE}) xs"
proof (cases "runs_get (aw_runs w) i")
  case (Inl x)
  with assms(2) show ?thesis by (simp add: engine_run_def)
next
  case (Inr r)
  with assms(2) have "engine_loop cfg es r w = Some (res, w')" by (simp add: engine_run_def)
  from loop_internal [OF assms(1) this] show ?thesis by (simp add: adds_internal_def)
qed

theorem engine_no_external_writes_witness:
  "\<exists>w' xs. engine_run demo_config [demo_env 5 (ER_Return (VInt 1)), demo_env (hours 24) ER_Timeout] ''r1'' demo_agent = Some w' \<and>
     gw_executed (aw_gateway (snd w')) = xs \<and> length xs = 1 \<and> list_all (\<lambda>(d, args, ctx). td_risk d \<in> {READ, INTERNAL_WRITE}) xs"
proof -
  define x where "x = engine_run demo_config [demo_env 5 (ER_Return (VInt 1)), demo_env (hours 24) ER_Timeout] ''r1'' demo_agent"
  have len: "(case x of None \<Rightarrow> False | Some (_, w') \<Rightarrow> length (gw_executed (aw_gateway w')) = 1)" unfolding x_def by code_simp
  then obtain res w' where x: "x = Some (res, w')" by (auto split: option.splits)
  from engine_no_external_writes [OF demo_agent_keyed x [unfolded x_def]] have
    "list_all (\<lambda>(d, args, ctx). td_risk d \<in> {READ, INTERNAL_WRITE}) (gw_executed (aw_gateway w'))"
    by (auto simp: demo_agent_def demo_gateway_def)
  with len x show ?thesis by (auto simp: x_def)
qed

end
