(* ===== verification/PA_Disclosure.thy ===== *)
theory PA_Disclosure
  imports PA_Stores PA_Canonical PA_Domain "HOL-Library.Product_Lexorder" "HOL-Library.Multiset"
begin

text \<open>
  \<open>core/models\<close>: what may leave the host for a language model. \<open>provider.py\<close> (classified fields,
  requests, recipients) and \<open>disclosure.py\<close> with \<open>infrastructure/memory/disclosures.py\<close> (consents that bind
  a recipient, a purpose and the exact fields).

  A value of unknown type is a \<open>pyval\<close>; a classification handed in from outside is a member of the
  enumeration, some other text or anything else (\<open>class_like\<close>), an object offered as a field a proper
  field or an object known by its attributes (\<open>field_like\<close>). The comparison in constant time is equality.
\<close>

section \<open>Fields and requests (provider.py)\<close>

datatype data_classification = DC_PUBLIC | DC_PERSONAL | DC_SENSITIVE | DC_SECRET

fun classification_value :: "data_classification \<Rightarrow> string" where
  "classification_value DC_PUBLIC = ''PUBLIC''"
| "classification_value DC_PERSONAL = ''PERSONAL''"
| "classification_value DC_SENSITIVE = ''SENSITIVE''"
| "classification_value DC_SECRET = ''SECRET''"

datatype class_like = CL_Member data_classification | CL_Text string | CL_Other

definition classification_of :: "class_like \<Rightarrow> data_classification option" where
  "classification_of v =
     (case v of
        CL_Member c \<Rightarrow> Some c
      | CL_Text s \<Rightarrow> find (\<lambda>c. classification_value c = s) [DC_PUBLIC, DC_PERSONAL, DC_SENSITIVE, DC_SECRET]
      | CL_Other \<Rightarrow> None)"

definition is_secret_classification :: "class_like \<Rightarrow> bool" where
  "is_secret_classification v = (case classification_of v of None \<Rightarrow> True | Some c \<Rightarrow> c = DC_SECRET)"

record context_field =
  cf_name :: string
  cf_value :: string
  cf_classification :: data_classification
  cf_source :: string

definition mk_context_field :: "pyval \<Rightarrow> pyval \<Rightarrow> class_like \<Rightarrow> pyval \<Rightarrow> context_field result" where
  "mk_context_field name v classification source =
     (case name of
        VStr n \<Rightarrow>
          (case v of
             VStr x \<Rightarrow>
               (case source of
                  VStr s \<Rightarrow>
                    ensure (\<not> blank n \<and> \<not> blank s) ValidationError ''context field name and source are required''
                     (case classification_of classification of
                        None \<Rightarrow> raise ValidationError ''context field classification is invalid''
                      | Some c \<Rightarrow> Inr \<lparr>cf_name = n, cf_value = x, cf_classification = c, cf_source = s\<rparr>)
                | _ \<Rightarrow> raise ValidationError ''context field source must be a string'')
           | _ \<Rightarrow> raise ValidationError ''context field value must be a string'')
      | _ \<Rightarrow> raise ValidationError ''context field name must be a string'')"

record recipient_identity =
  ri_provider_id :: string
  ri_adapter :: string
  ri_endpoint :: string
  ri_model_id :: string

definition mk_recipient :: "string \<Rightarrow> string \<Rightarrow> string \<Rightarrow> string \<Rightarrow> recipient_identity result" where
  "mk_recipient provider_id adapter endpoint model_id =
     ensure (\<not> blank provider_id) ValidationError ''recipient provider_id is required''
      (ensure (\<not> blank adapter) ValidationError ''recipient adapter is required''
      (ensure (\<not> blank endpoint) ValidationError ''recipient endpoint is required''
      (ensure (\<not> blank model_id) ValidationError ''recipient model_id is required''
      (Inr \<lparr>ri_provider_id = provider_id, ri_adapter = adapter, ri_endpoint = endpoint, ri_model_id = model_id\<rparr>))))"

text \<open>An object with attributes name, value, source and classification; None when reading one of them raises.\<close>

datatype field_like = FL_Field context_field | FL_Duck "(pyval \<times> pyval \<times> pyval \<times> class_like) option"

definition coerce_context_field :: "field_like \<Rightarrow> context_field result" where
  "coerce_context_field field =
     (case field of
        FL_Field f \<Rightarrow> Inr f
      | FL_Duck (Some (VStr n, VStr v, VStr s, cl)) \<Rightarrow>
          (case classification_of cl of
             None \<Rightarrow> raise ValidationError ''model request fields must be valid context fields''
           | Some c \<Rightarrow> mk_context_field (VStr n) (VStr v) (CL_Member c) (VStr s))
      | FL_Duck _ \<Rightarrow> raise ValidationError ''model request fields must be valid context fields'')"

record model_request =
  mr_purpose :: string
  mr_instruction :: string
  mr_fields :: "context_field list"
  mr_metadata :: pyval

text \<open>The fields argument is None when it cannot be iterated over.\<close>

definition mk_model_request :: "pyval \<Rightarrow> pyval \<Rightarrow> field_like list option \<Rightarrow> pyval \<Rightarrow> model_request result" where
  "mk_model_request purpose instruction given metadata =
     (case purpose of
        VStr p \<Rightarrow>
          (case instruction of
             VStr i \<Rightarrow>
               (case given of
                  None \<Rightarrow> raise ValidationError ''model request fields must be valid context fields''
                | Some items \<Rightarrow>
                    (case rmap coerce_context_field items of
                       Inl _ \<Rightarrow> raise ValidationError ''model request fields must be valid context fields''
                     | Inr normalized \<Rightarrow>
                         Inr \<lparr>mr_purpose = p, mr_instruction = i, mr_fields = normalized, mr_metadata = metadata\<rparr>))
           | _ \<Rightarrow> raise ValidationError ''model request instruction must be a string'')
      | _ \<Rightarrow> raise ValidationError ''model request purpose must be a string'')"

record model_output =
  mo_text :: string
  mo_provider_id :: string
  mo_model_id :: string
  mo_usage :: pyval

definition AUDITABLE_USAGE_KEYS :: "string list" where
  "AUDITABLE_USAGE_KEYS = [''prompt_tokens'', ''completion_tokens'', ''total_tokens'', ''prompt_eval_count'', ''eval_count'']"

definition bounded_usage :: "pyval \<Rightarrow> string list \<Rightarrow> (string \<times> int) list" where
  "bounded_usage payload allowed =
     (case payload of
        VDict d \<Rightarrow> concat (map (\<lambda>k. case dget d k of Some (VInt n) \<Rightarrow> if 0 \<le> n then [(k, n)] else [] | _ \<Rightarrow> []) allowed)
      | _ \<Rightarrow> [])"

section \<open>Consents (disclosure.py)\<close>

definition DISCLOSURE_POLICY_VERSION :: string where
  "DISCLOSURE_POLICY_VERSION = ''f04.1''"

definition MIN_DISCLOSURE_TTL :: time where
  "MIN_DISCLOSURE_TTL = minutes 1"

definition MAX_DISCLOSURE_TTL :: time where
  "MAX_DISCLOSURE_TTL = hours (7 * 24)"

definition MAX_PREVIEW_CHARS :: nat where
  "MAX_PREVIEW_CHARS = 48"

definition MAX_SCOPE_LENGTH :: int where
  "MAX_SCOPE_LENGTH = 128"

datatype consent_state = CS_ACTIVE | CS_REVOKED | CS_EXPIRED

fun consent_state_value :: "consent_state \<Rightarrow> string" where
  "consent_state_value CS_ACTIVE = ''ACTIVE''"
| "consent_state_value CS_REVOKED = ''REVOKED''"
| "consent_state_value CS_EXPIRED = ''EXPIRED''"

definition field_material :: "stdlib \<Rightarrow> context_field \<Rightarrow> pyval" where
  "field_material L f = VDict
     [(''name'', VStr (cf_name f)), (''value_sha256'', VStr (sha256_hex L (cf_value f))),
      (''classification'', VStr (classification_value (cf_classification f))), (''source'', VStr (cf_source f))]"

definition field_key :: "stdlib \<Rightarrow> context_field \<Rightarrow> string \<times> string \<times> string \<times> string" where
  "field_key L f = (cf_name f, cf_source f, classification_value (cf_classification f), sha256_hex L (cf_value f))"

definition canonical_field_digest :: "stdlib \<Rightarrow> context_field list \<Rightarrow> string result" where
  "canonical_field_digest L fs = canonical_sha256 L (VList (map (field_material L) (sort_key (field_key L) fs)))"

definition recipient_fingerprint :: "stdlib \<Rightarrow> recipient_identity \<Rightarrow> string result" where
  "recipient_fingerprint L i = canonical_sha256 L (VDict
     [(''provider_id'', VStr (ri_provider_id i)), (''adapter'', VStr (ri_adapter i)),
      (''endpoint'', VStr (ri_endpoint i)), (''model_id'', VStr (ri_model_id i))])"

definition redacted_field_preview :: "string \<Rightarrow> string" where
  "redacted_field_preview v =
     (let masked = map (\<lambda>c. if is_space c then c else CHR ''*'') v in
      if length masked > MAX_PREVIEW_CHARS then take MAX_PREVIEW_CHARS masked @ ''...'' else masked)"

record consent_record =
  dc_id :: string
  dc_user_id :: string
  dc_provider_id :: string
  dc_purpose :: string
  dc_field_digest :: string
  dc_recipient_fingerprint :: string
  dc_field_count :: int
  dc_policy_version :: string
  dc_state :: consent_state
  dc_created_at :: time
  dc_expires_at :: time
  dc_version :: int
  dc_revoked_at :: "time option"

definition require_text :: "string \<Rightarrow> string \<Rightarrow> unit result" where
  "require_text v name = ensure (\<not> blank v) ValidationError (name @ '' is required'') (Inr ())"

definition require_digest :: "string \<Rightarrow> string \<Rightarrow> unit result" where
  "require_digest v name = ensure (is_digest v) ValidationError (name @ '' must be a lowercase 64 character sha256'') (Inr ())"

definition require_aware :: "datetime \<Rightarrow> string \<Rightarrow> time result" where
  "require_aware v name = (case v of Aware t \<Rightarrow> Inr t | Naive \<Rightarrow> raise ValidationError (name @ '' must be timezone-aware''))"

definition check_consent :: "consent_record \<Rightarrow> consent_record result" where
  "check_consent r =
     rbind (require_text (dc_id r) ''id'') (\<lambda>_.
     rbind (require_text (dc_user_id r) ''user_id'') (\<lambda>_.
     rbind (require_text (dc_provider_id r) ''provider_id'') (\<lambda>_.
     rbind (require_text (dc_purpose r) ''purpose'') (\<lambda>_.
     rbind (require_text (dc_policy_version r) ''policy_version'') (\<lambda>_.
     rbind (require_digest (dc_field_digest r) ''field_digest'') (\<lambda>_.
     rbind (require_digest (dc_recipient_fingerprint r) ''recipient_fingerprint'') (\<lambda>_.
     ensure (1 \<le> dc_field_count r) ValidationError ''disclosure consent requires at least one field''
    (ensure (0 \<le> dc_version r) ValidationError ''disclosure consent version cannot be negative''
    (ensure (dc_created_at r < dc_expires_at r) ValidationError ''disclosure consent expiry must follow creation''
    (ensure (dc_revoked_at r = None \<or> dc_state r = CS_REVOKED) ValidationError ''only revoked consent may carry a revocation time''
    (ensure (dc_state r \<noteq> CS_REVOKED \<or> dc_revoked_at r \<noteq> None) ValidationError ''revoked consent requires a revocation time''
    (Inr r))))))))))))"

definition effective_consent_state :: "consent_record \<Rightarrow> datetime \<Rightarrow> consent_state result" where
  "effective_consent_state r now =
     rbind (require_aware now ''now'') (\<lambda>t.
       Inr (if dc_state r = CS_ACTIVE \<and> dc_expires_at r \<le> t then CS_EXPIRED else dc_state r))"

subsection \<open>InMemoryDisclosureConsentStore\<close>

record consent_store =
  cs_records :: "(string \<times> consent_record) list"
  cs_commands :: "string \<times> string \<rightharpoonup> string \<times> string"

definition empty_consents :: consent_store where
  "empty_consents = \<lparr>cs_records = [], cs_commands = Map.empty\<rparr>"

definition consent_not_found :: "string \<Rightarrow> 'a result" where
  "consent_not_found i = raise DisclosureConsentNotFoundError (''disclosure consent not found: '' @ i)"

text \<open>\<open>self._records[consent_id]\<close> of a consent that a command receipt names.\<close>

definition consent_at :: "consent_store \<Rightarrow> string \<Rightarrow> consent_record result" where
  "consent_at s i = (case dget (cs_records s) i of None \<Rightarrow> raise KeyError (py_repr i) | Some r \<Rightarrow> Inr r)"

definition replayed :: "consent_store \<Rightarrow> string \<times> string \<Rightarrow> string \<Rightarrow> consent_record result" where
  "replayed s receipt command_fingerprint =
     (case receipt of (fp, i) \<Rightarrow>
        if fp \<noteq> command_fingerprint
        then raise DisclosureIdempotencyConflictError ''the idempotency key was already used with different content''
        else consent_at s i)"

definition consents_create ::
  "consent_store \<Rightarrow> consent_record \<Rightarrow> string \<Rightarrow> string \<Rightarrow> string \<Rightarrow> consent_record result \<times> consent_store" where
  "consents_create s r command_scope idempotency_key command_fingerprint =
     (case cs_commands s (command_scope, idempotency_key) of
        Some receipt \<Rightarrow> (replayed s receipt command_fingerprint, s)
      | None \<Rightarrow>
          if dget (cs_records s) (dc_id r) \<noteq> None
          then (raise AlreadyExistsError (''disclosure consent already exists: '' @ dc_id r), s)
          else (Inr r, s\<lparr>cs_records := dset (dc_id r) r (cs_records s),
                         cs_commands := (cs_commands s)((command_scope, idempotency_key) \<mapsto> (command_fingerprint, dc_id r))\<rparr>))"

definition consents_get :: "consent_store \<Rightarrow> string \<Rightarrow> consent_record result" where
  "consents_get s i = (case dget (cs_records s) i of None \<Rightarrow> consent_not_found i | Some r \<Rightarrow> Inr r)"

definition consents_save :: "consent_store \<Rightarrow> consent_record \<Rightarrow> int \<Rightarrow> consent_record result \<times> consent_store" where
  "consents_save s r expected =
     (case dget (cs_records s) (dc_id r) of
        None \<Rightarrow> (consent_not_found (dc_id r), s)
      | Some current \<Rightarrow>
          if dc_version current \<noteq> expected
          then (raise ConcurrentModificationError
                  (''disclosure consent '' @ dc_id r @ '' expected version '' @ int_str expected @ '', found ''
                   @ int_str (dc_version current)), s)
          else (case check_consent (r\<lparr>dc_version := expected + 1\<rparr>) of
                  Inl e \<Rightarrow> (Inl e, s)
                | Inr saved \<Rightarrow> (Inr saved, s\<lparr>cs_records := dset (dc_id r) saved (cs_records s)\<rparr>)))"

definition consents_revoke ::
  "consent_store \<Rightarrow> string \<Rightarrow> string \<Rightarrow> int \<Rightarrow> time \<Rightarrow> string \<Rightarrow> string \<Rightarrow> string \<Rightarrow> consent_record result \<times> consent_store" where
  "consents_revoke s consent_id user_id expected revoked_at command_scope idempotency_key command_fingerprint =
     (case cs_commands s (command_scope, idempotency_key) of
        Some receipt \<Rightarrow> (replayed s receipt command_fingerprint, s)
      | None \<Rightarrow>
          (case dget (cs_records s) consent_id of
             None \<Rightarrow> (consent_not_found consent_id, s)
           | Some r \<Rightarrow>
               if dc_user_id r \<noteq> user_id then (consent_not_found consent_id, s)
               else if dc_version r \<noteq> expected
               then (raise ConcurrentModificationError
                       (''disclosure consent '' @ consent_id @ '' expected version '' @ int_str expected @ '', found ''
                        @ int_str (dc_version r)), s)
               else if dc_state r \<noteq> CS_ACTIVE
               then (raise DisclosureStateError
                       (''disclosure consent '' @ consent_id @ '' is '' @ consent_state_value (dc_state r) @ '', not active''), s)
               else if dc_expires_at r \<le> revoked_at
               then (case check_consent (r\<lparr>dc_state := CS_EXPIRED, dc_version := dc_version r + 1\<rparr>) of
                       Inl e \<Rightarrow> (Inl e, s)
                     | Inr expired \<Rightarrow> (raise DisclosureStateError (''disclosure consent '' @ consent_id @ '' is expired''),
                                        s\<lparr>cs_records := dset consent_id expired (cs_records s)\<rparr>))
               else (case check_consent (r\<lparr>dc_state := CS_REVOKED, dc_revoked_at := Some revoked_at, dc_version := dc_version r + 1\<rparr>) of
                       Inl e \<Rightarrow> (Inl e, s)
                     | Inr updated \<Rightarrow> (Inr updated,
                         s\<lparr>cs_records := dset consent_id updated (cs_records s),
                           cs_commands := (cs_commands s)((command_scope, idempotency_key) \<mapsto> (command_fingerprint, consent_id))\<rparr>))))"

text \<open>What a consent is bound to, as the arguments of \<open>find_active\<close>.\<close>

record consent_query =
  cq_consent_id :: string
  cq_user_id :: string
  cq_provider_id :: string
  cq_purpose :: string
  cq_field_digest :: string
  cq_recipient_fingerprint :: string
  cq_policy_version :: string

definition consent_binds :: "consent_record \<Rightarrow> consent_query \<Rightarrow> time \<Rightarrow> bool" where
  "consent_binds r q now \<longleftrightarrow>
     dc_user_id r = cq_user_id q \<and> dc_provider_id r = cq_provider_id q \<and> dc_purpose r = cq_purpose q \<and>
     dc_field_digest r = cq_field_digest q \<and> dc_recipient_fingerprint r = cq_recipient_fingerprint q \<and>
     dc_policy_version r = cq_policy_version q \<and> dc_state r = CS_ACTIVE \<and> now < dc_expires_at r"

definition consents_find_active :: "consent_store \<Rightarrow> consent_query \<Rightarrow> time \<Rightarrow> consent_record option" where
  "consents_find_active s q now =
     (case dget (cs_records s) (cq_consent_id q) of
        None \<Rightarrow> None
      | Some r \<Rightarrow> if consent_binds r q now then Some r else None)"

definition consents_list :: "consent_store \<Rightarrow> string \<Rightarrow> int \<Rightarrow> consent_record list result" where
  "consents_list s user_id limit =
     ensure (1 \<le> limit) ValidationError ''limit must be positive''
      (Inr (take (nat limit) (sort_key (\<lambda>r. (dc_created_at r, dc_id r))
         (filter (\<lambda>r. dc_user_id r = user_id) (map snd (cs_records s))))))"

subsection \<open>DisclosureConsentService\<close>

definition validate_scoped_text :: "string \<Rightarrow> string \<Rightarrow> unit result" where
  "validate_scoped_text v name =
     rbind (require_text v name) (\<lambda>_.
       ensure (int (length v) \<le> MAX_SCOPE_LENGTH) ValidationError
         (name @ '' must be at most '' @ int_str MAX_SCOPE_LENGTH @ '' characters'') (Inr ()))"

definition validate_idempotency_key :: "string \<Rightarrow> unit result" where
  "validate_idempotency_key v =
     rbind (require_text v ''idempotency_key'') (\<lambda>_.
       ensure (int (length v) \<le> 200) ValidationError ''idempotency_key must be at most 200 characters'' (Inr ()))"

definition validate_ttl :: "time \<Rightarrow> unit result" where
  "validate_ttl ttl = ensure (MIN_DISCLOSURE_TTL \<le> ttl \<and> ttl \<le> MAX_DISCLOSURE_TTL) ValidationError
     ''disclosure ttl must be between 1 minute and 7 days'' (Inr ())"

text \<open>Called with a positive duration only, where truncation is the integral part.\<close>

definition ttl_seconds :: "time \<Rightarrow> int" where
  "ttl_seconds ttl = ttl div 1000000"

type_synonym recipients = "string \<rightharpoonup> recipient_identity"

definition registered_recipient :: "stdlib \<Rightarrow> recipients \<Rightarrow> string \<Rightarrow> (recipient_identity \<times> string) result" where
  "registered_recipient L recipients provider_id =
     (case recipients provider_id of
        None \<Rightarrow> raise DisclosureRecipientUnknownError
                  (''model recipient is not a registered remote provider: '' @ provider_id)
      | Some identity \<Rightarrow>
          ensure (ri_provider_id identity = provider_id) DisclosureRecipientUnknownError
            (''model recipient registry entry is inconsistent: '' @ provider_id)
           (rbind (recipient_fingerprint L identity) (\<lambda>f. Inr (identity, f))))"

definition has_secret :: "model_request \<Rightarrow> bool" where
  "has_secret request = list_ex (\<lambda>f. is_secret_classification (CL_Member (cf_classification f))) (mr_fields request)"

definition reject_secret :: "model_request \<Rightarrow> unit result" where
  "reject_secret request = ensure (\<not> has_secret request) DisclosureDeniedError
     ''secret material may never be previewed, confirmed or disclosed'' (Inr ())"

definition protected_fields :: "model_request \<Rightarrow> context_field list" where
  "protected_fields request =
     filter (\<lambda>f. classification_of (CL_Member (cf_classification f)) \<in> {Some DC_PERSONAL, Some DC_SENSITIVE}) (mr_fields request)"

definition preview_hash :: "stdlib \<Rightarrow> string \<Rightarrow> string \<Rightarrow> string \<Rightarrow> string \<Rightarrow> int \<Rightarrow> time \<Rightarrow> string result" where
  "preview_hash L provider_id purpose field_digest recipient protected_count ttl = canonical_sha256 L (VDict
     [(''provider_id'', VStr provider_id), (''purpose'', VStr purpose),
      (''policy_version'', VStr DISCLOSURE_POLICY_VERSION), (''field_digest'', VStr field_digest),
      (''recipient_fingerprint'', VStr recipient), (''protected_field_count'', VInt protected_count),
      (''ttl_seconds'', VInt (ttl_seconds ttl))])"

record field_summary =
  fs_name :: string
  fs_classification :: string
  fs_source :: string
  fs_value_sha256 :: string
  fs_value_length :: nat
  fs_redacted_preview :: string

definition summarize_field :: "stdlib \<Rightarrow> context_field \<Rightarrow> field_summary" where
  "summarize_field L f =
     \<lparr>fs_name = cf_name f, fs_classification = classification_value (cf_classification f), fs_source = cf_source f,
      fs_value_sha256 = sha256_hex L (cf_value f), fs_value_length = length (cf_value f),
      fs_redacted_preview = redacted_field_preview (cf_value f)\<rparr>"

record disclosure_preview =
  pv_provider_id :: string
  pv_purpose :: string
  pv_policy_version :: string
  pv_field_digest :: string
  pv_recipient_fingerprint :: string
  pv_fields :: "field_summary list"
  pv_protected_field_count :: int
  pv_ttl :: time
  pv_suggested_expires_at :: time
  pv_preview_hash :: string
  pv_recipient_identity :: "recipient_identity option"

definition preview ::
  "stdlib \<Rightarrow> recipients \<Rightarrow> model_request \<Rightarrow> string \<Rightarrow> time \<Rightarrow> datetime \<Rightarrow> disclosure_preview result" where
  "preview L recipients request provider_id ttl now =
     rbind (validate_scoped_text provider_id ''provider_id'') (\<lambda>_.
     rbind (validate_scoped_text (mr_purpose request) ''purpose'') (\<lambda>_.
     rbind (validate_ttl ttl) (\<lambda>_.
     rbind (require_aware now ''now'') (\<lambda>current.
     rbind (reject_secret request) (\<lambda>_.
     rbind (registered_recipient L recipients provider_id) (\<lambda>(identity, fp).
     rbind (canonical_field_digest L (mr_fields request)) (\<lambda>digest.
     let protected = int (length (protected_fields request)) in
     rbind (preview_hash L provider_id (mr_purpose request) digest fp protected ttl) (\<lambda>h.
     Inr \<lparr>pv_provider_id = provider_id, pv_purpose = mr_purpose request, pv_policy_version = DISCLOSURE_POLICY_VERSION,
          pv_field_digest = digest, pv_recipient_fingerprint = fp,
          pv_fields = map (summarize_field L) (mr_fields request), pv_protected_field_count = protected,
          pv_ttl = ttl, pv_suggested_expires_at = current + ttl, pv_preview_hash = h,
          pv_recipient_identity = Some identity\<rparr>))))))))"

text \<open>\<open>uid\<close> is the value drawn from \<open>uuid.uuid4\<close>. First the record and the fingerprint of the command.\<close>

definition confirmed ::
  "stdlib \<Rightarrow> recipients \<Rightarrow> model_request \<Rightarrow> string \<Rightarrow> string \<Rightarrow> string \<Rightarrow> string \<Rightarrow> string \<Rightarrow> time \<Rightarrow> datetime
   \<Rightarrow> (consent_record \<times> string) result" where
  "confirmed L recipients request provider_id user_id shown idempotency_key uid ttl now =
     rbind (validate_scoped_text provider_id ''provider_id'') (\<lambda>_.
     rbind (validate_scoped_text (mr_purpose request) ''purpose'') (\<lambda>_.
     rbind (validate_scoped_text user_id ''user_id'') (\<lambda>_.
     rbind (validate_idempotency_key idempotency_key) (\<lambda>_.
     rbind (validate_ttl ttl) (\<lambda>_.
     rbind (require_aware now ''now'') (\<lambda>current.
     rbind (reject_secret request) (\<lambda>_.
     rbind (registered_recipient L recipients provider_id) (\<lambda>(identity, recipient).
     ensure (protected_fields request \<noteq> []) ValidationError ''request has no protected fields requiring disclosure''
    (rbind (canonical_field_digest L (mr_fields request)) (\<lambda>digest.
     let protected = int (length (protected_fields request)) in
     rbind (preview_hash L provider_id (mr_purpose request) digest recipient protected ttl) (\<lambda>expected.
     ensure (expected = shown) DisclosurePreviewMismatchError ''the confirmed fields do not match the previewed disclosure''
    (rbind (canonical_sha256 L (VDict
       [(''user_id'', VStr user_id), (''provider_id'', VStr provider_id), (''purpose'', VStr (mr_purpose request)),
        (''field_digest'', VStr digest), (''recipient_fingerprint'', VStr recipient),
        (''protected_field_count'', VInt protected), (''policy_version'', VStr DISCLOSURE_POLICY_VERSION),
        (''preview_hash'', VStr shown), (''ttl_seconds'', VInt (ttl_seconds ttl))])) (\<lambda>fp.
     rbind (check_consent
       \<lparr>dc_id = uid, dc_user_id = user_id, dc_provider_id = provider_id, dc_purpose = mr_purpose request,
        dc_field_digest = digest, dc_recipient_fingerprint = recipient, dc_field_count = protected,
        dc_policy_version = DISCLOSURE_POLICY_VERSION, dc_state = CS_ACTIVE, dc_created_at = current,
        dc_expires_at = current + ttl, dc_version = 0, dc_revoked_at = None\<rparr>) (\<lambda>r.
     Inr (r, fp)))))))))))))))"

definition confirm ::
  "stdlib \<Rightarrow> recipients \<Rightarrow> consent_store \<Rightarrow> model_request \<Rightarrow> string \<Rightarrow> string \<Rightarrow> string \<Rightarrow> string \<Rightarrow> string \<Rightarrow> time \<Rightarrow> datetime
   \<Rightarrow> consent_record result \<times> consent_store" where
  "confirm L recipients s request provider_id user_id shown idempotency_key uid ttl now =
     (case confirmed L recipients request provider_id user_id shown idempotency_key uid ttl now of
        Inl e \<Rightarrow> (Inl e, s)
      | Inr (r, fp) \<Rightarrow> consents_create s r (''disclosure:confirm:'' @ user_id) idempotency_key fp)"

definition authorize ::
  "stdlib \<Rightarrow> consent_store \<Rightarrow> model_request \<Rightarrow> string \<Rightarrow> string \<Rightarrow> string \<Rightarrow> string \<Rightarrow> datetime \<Rightarrow> consent_record option result" where
  "authorize L s request consent_id user_id provider_id recipient now =
     rbind (validate_scoped_text consent_id ''consent_id'') (\<lambda>_.
     rbind (validate_scoped_text user_id ''user_id'') (\<lambda>_.
     rbind (validate_scoped_text provider_id ''provider_id'') (\<lambda>_.
     rbind (validate_scoped_text (mr_purpose request) ''purpose'') (\<lambda>_.
     rbind (require_digest recipient ''recipient_fingerprint'') (\<lambda>_.
     rbind (require_aware now ''now'') (\<lambda>current.
     if has_secret request then Inr None
     else rbind (canonical_field_digest L (mr_fields request)) (\<lambda>digest.
       let q = \<lparr>cq_consent_id = consent_id, cq_user_id = user_id, cq_provider_id = provider_id,
                cq_purpose = mr_purpose request, cq_field_digest = digest, cq_recipient_fingerprint = recipient,
                cq_policy_version = DISCLOSURE_POLICY_VERSION\<rparr> in
       case consents_find_active s q current of
         None \<Rightarrow> Inr None
       | Some r \<Rightarrow> Inr (if dc_id r = consent_id \<and> consent_binds r q current then Some r else None))))))))"

definition get_consent :: "consent_store \<Rightarrow> string \<Rightarrow> string option \<Rightarrow> consent_record result" where
  "get_consent s consent_id user_id =
     rbind (validate_scoped_text consent_id ''consent_id'') (\<lambda>_.
     rbind (consents_get s consent_id) (\<lambda>r.
       case user_id of
         None \<Rightarrow> Inr r
       | Some u \<Rightarrow> if dc_user_id r \<noteq> u then consent_not_found consent_id else Inr r))"

definition revoke ::
  "stdlib \<Rightarrow> consent_store \<Rightarrow> string \<Rightarrow> string \<Rightarrow> int \<Rightarrow> string \<Rightarrow> datetime \<Rightarrow> consent_record result \<times> consent_store" where
  "revoke L s consent_id user_id expected idempotency_key now =
     (case rbind (validate_scoped_text consent_id ''consent_id'') (\<lambda>_.
           rbind (validate_scoped_text user_id ''user_id'') (\<lambda>_.
           rbind (validate_idempotency_key idempotency_key) (\<lambda>_.
           ensure (0 \<le> expected) ValidationError ''expected_version cannot be negative''
          (rbind (require_aware now ''now'') (\<lambda>current.
           rbind (canonical_sha256 L (VDict
             [(''user_id'', VStr user_id), (''consent_id'', VStr consent_id), (''expected_version'', VInt expected)])) (\<lambda>fp.
           Inr (current, fp))))))) of
        Inl e \<Rightarrow> (Inl e, s)
      | Inr (current, fp) \<Rightarrow>
          consents_revoke s consent_id user_id expected current (''disclosure:revoke:'' @ user_id) idempotency_key fp)"

definition list_consents :: "consent_store \<Rightarrow> string \<Rightarrow> consent_record list result" where
  "list_consents s user_id = rbind (validate_scoped_text user_id ''user_id'') (\<lambda>_. consents_list s user_id 100)"

section \<open>Digests\<close>

definition field_list :: "stdlib \<Rightarrow> context_field list \<Rightarrow> pyval" where
  "field_list L fs = VList (map (field_material L) (sort_key (field_key L) fs))"

lemma field_list_plain: "plain (field_list L fs)" "wf_val (field_list L fs)"
  by (auto simp: field_list_def field_material_def list_all_iff wf_dict_def)

lemma field_digest_total:
  "\<exists>t. canonical_json L (field_list L fs) = Inr t \<and> canonical_field_digest L fs = Inr (sha256_hex L t)"
  using plain_digest [OF field_list_plain] by (simp add: canonical_field_digest_def field_list_def)

definition sorted_material :: "stdlib \<Rightarrow> context_field \<Rightarrow> pyval" where
  "sorted_material L f = VDict
     [(''classification'', VStr (classification_value (cf_classification f))), (''name'', VStr (cf_name f)),
      (''source'', VStr (cf_source f)), (''value_sha256'', VStr (sha256_hex L (cf_value f)))]"

lemma material_keys: "sort_key fst [(''name'', a), (''value_sha256'', b), (''classification'', c), (''source'', d)] =
    [(''classification'', c), (''name'', a), (''source'', d), (''value_sha256'', b)]"
  by (simp add: less_eq_char_def less_char_def)

lemma normalize_material: "normalize_json path (field_material L f) = Inr (sorted_material L f)"
  by (simp only: field_material_def normalize_json.simps material_keys) (simp add: sorted_material_def)

lemma normalize_field_list: "normalize_json path (field_list L fs) = Inr (VList (map (sorted_material L) (sort_key (field_key L) fs)))"
proof -
  have "rmap (\<lambda>(i, x). normalize_json (path @ ''['' @ nat_str i @ '']'') x) (enumerate n (map (field_material L) gs)) =
      Inr (map (sorted_material L) gs)" for n gs
    by (induction gs arbitrary: n) (simp_all add: normalize_material)
  then show ?thesis by (simp add: field_list_def)
qed

lemma sorted_material_key: "sorted_material L f = sorted_material L g \<longleftrightarrow> field_key L f = field_key L g"
  by (auto simp: sorted_material_def field_key_def)

lemma classification_value_inject [simp]: "classification_value a = classification_value b \<longleftrightarrow> a = b"
  by (cases a; cases b) simp_all

lemma field_key_inject:
  assumes "inj_on (sha256_hex L) (cf_value ` A)"
  shows "inj_on (field_key L) A"
proof (rule inj_onI)
  fix f g assume fg: "f \<in> A" "g \<in> A" "field_key L f = field_key L g"
  then have "cf_value f = cf_value g" using assms by (auto simp: field_key_def dest: inj_onD)
  with fg show "f = g" by (cases f; cases g) (simp add: field_key_def)
qed

lemma sorted_fields_mset:
  assumes "inj_on k (set fs \<union> set gs)"
  shows "map k (sort_key k fs) = map k (sort_key k gs) \<longleftrightarrow> mset fs = mset gs"
proof
  assume "map k (sort_key k fs) = map k (sort_key k gs)"
  then have "sort_key k fs = sort_key k gs" using assms by (subst (asm) inj_on_map_eq_map) (auto simp: Un_commute)
  then show "mset fs = mset gs" by (metis mset_sort)
next
  assume "mset fs = mset gs"
  then have "image_mset k (mset fs) = image_mset k (mset gs)" by simp
  then have "mset (map k (sort_key k fs)) = mset (map k (sort_key k gs))" by (simp only: mset_map mset_sort)
  then show "map k (sort_key k fs) = map k (sort_key k gs)"
    by (metis sorted_sort_key properties_for_sort sorted_sort_id)
qed

section \<open>Consents are bound for good\<close>

interpretation consent_cas: cas_store "\<lambda>s. dget (cs_records s)" dc_id dc_version consents_save
  by unfold_locales
    (auto simp: consents_save_def consent_not_found_def raise_def check_consent_def rbind_eq_Inr split: option.splits if_splits sum.splits)

text \<open>
  What the calls of the service do to the store: a consent stays, its binding is what it was, and one that
  is no longer active never changes again.
\<close>

definition consent_follows :: "consent_record \<Rightarrow> consent_record \<Rightarrow> bool" where
  "consent_follows r r' \<longleftrightarrow>
     dc_id r' = dc_id r \<and> dc_user_id r' = dc_user_id r \<and> dc_provider_id r' = dc_provider_id r \<and> dc_purpose r' = dc_purpose r \<and>
     dc_field_digest r' = dc_field_digest r \<and> dc_recipient_fingerprint r' = dc_recipient_fingerprint r \<and>
     dc_expires_at r' = dc_expires_at r \<and> (dc_state r \<noteq> CS_ACTIVE \<longrightarrow> r' = r)"

definition consent_le :: "consent_store \<Rightarrow> consent_store \<Rightarrow> bool" where
  "consent_le s s' \<longleftrightarrow> (\<forall>i r. dget (cs_records s) i = Some r \<longrightarrow>
     (\<exists>r'. dget (cs_records s') i = Some r' \<and> consent_follows r r'))"

lemma consent_follows_refl [simp]: "consent_follows r r"
  by (simp add: consent_follows_def)

lemma consent_follows_trans: "consent_follows p q \<Longrightarrow> consent_follows q r \<Longrightarrow> consent_follows p r"
  by (cases "dc_state p = CS_ACTIVE") (simp_all add: consent_follows_def)

lemma consent_le_refl: "consent_le s s"
  by (simp add: consent_le_def)

lemma consent_le_trans:
  assumes "consent_le a b" "consent_le b c"
  shows "consent_le a c"
  unfolding consent_le_def
proof (intro allI impI)
  fix i r assume "dget (cs_records a) i = Some r"
  with assms(1) obtain q where q: "dget (cs_records b) i = Some q" "consent_follows r q" by (auto simp: consent_le_def)
  with assms(2) obtain p where "dget (cs_records c) i = Some p" "consent_follows q p" by (auto simp: consent_le_def)
  with q show "\<exists>r'. dget (cs_records c) i = Some r' \<and> consent_follows r r'" by (blast intro: consent_follows_trans)
qed

lemma check_consent_eq: "check_consent r = Inr q \<Longrightarrow> q = r"
  by (auto simp: check_consent_def rbind_eq_Inr)

lemma create_consent_le: "consents_create s r cmd key fp = (res, s') \<Longrightarrow> consent_le s s'"
  by (auto simp: consents_create_def consent_le_def split: option.splits if_splits)

lemma consent_le_put:
  assumes "dget (cs_records s) i = Some r" "dc_state r = CS_ACTIVE" "cs_records s' = dset i q (cs_records s)"
    and "q = r\<lparr>dc_state := st, dc_revoked_at := ra, dc_version := ve\<rparr>"
  shows "consent_le s s'"
  using assms by (auto simp: consent_le_def consent_follows_def)

lemma revoke_consent_le:
  assumes "consents_revoke s i u v t cmd key fp = (res, s')"
  shows "consent_le s s'"
proof (cases "s' = s")
  case True
  then show ?thesis by (simp add: consent_le_refl)
next
  case False
  with assms obtain r q where r: "dget (cs_records s) i = Some r" "dc_state r = CS_ACTIVE" "cs_records s' = dset i q (cs_records s)"
    and q: "check_consent (r\<lparr>dc_state := CS_EXPIRED, dc_version := dc_version r + 1\<rparr>) = Inr q \<or>
      check_consent (r\<lparr>dc_state := CS_REVOKED, dc_revoked_at := Some t, dc_version := dc_version r + 1\<rparr>) = Inr q"
    by (auto simp: consents_revoke_def split: option.splits if_splits sum.splits)
  from q have "q = r\<lparr>dc_state := CS_EXPIRED, dc_revoked_at := dc_revoked_at r, dc_version := dc_version r + 1\<rparr> \<or>
      q = r\<lparr>dc_state := CS_REVOKED, dc_revoked_at := Some t, dc_version := dc_version r + 1\<rparr>"
    by (auto dest: check_consent_eq)
  then show ?thesis using consent_le_put [OF r] by blast
qed

datatype consent_op =
    CO_Confirm recipients model_request string string string string string time datetime
  | CO_Revoke string string int string datetime

fun consent_apply :: "stdlib \<Rightarrow> consent_op \<Rightarrow> consent_store \<Rightarrow> consent_store" where
  "consent_apply L (CO_Confirm recips request pid user shown key uid ttl now) s =
     snd (confirm L recips s request pid user shown key uid ttl now)"
| "consent_apply L (CO_Revoke i user expected key now) s = snd (revoke L s i user expected key now)"

definition consents_run :: "stdlib \<Rightarrow> consent_op list \<Rightarrow> consent_store \<Rightarrow> consent_store" where
  "consents_run L ops s = fold (consent_apply L) ops s"

lemma consent_apply_le: "consent_le s (consent_apply L op s)"
proof (cases op)
  case (CO_Confirm recips request pid user shown key uid ttl now)
  show ?thesis
    unfolding CO_Confirm consent_apply.simps confirm_def
    using create_consent_le [OF surjective_pairing]
    by (simp add: consent_le_refl split: sum.split prod.split)
next
  case (CO_Revoke i user expected key now)
  show ?thesis
    unfolding CO_Revoke consent_apply.simps revoke_def
    using revoke_consent_le [OF surjective_pairing]
    by (simp add: consent_le_refl split: sum.split prod.split)
qed

lemma consents_run_le: "consent_le s (consents_run L ops s)"
proof (induction ops arbitrary: s)
  case Nil
  then show ?case by (simp add: consents_run_def consent_le_refl)
next
  case (Cons op ops)
  show ?case
    using consent_le_trans [OF consent_apply_le Cons.IH, of s L op] by (simp add: consents_run_def)
qed

section \<open>Authorisation\<close>

lemma authorize_Some:
  assumes "authorize L s request c u p f now = Inr (Some r)"
  shows "\<exists>t. now = Aware t \<and> dget (cs_records s) c = Some r \<and> dc_id r = c \<and> dc_user_id r = u \<and> dc_provider_id r = p \<and>
    dc_purpose r = mr_purpose request \<and> canonical_field_digest L (mr_fields request) = Inr (dc_field_digest r) \<and>
    dc_recipient_fingerprint r = f \<and> dc_state r = CS_ACTIVE \<and> t < dc_expires_at r"
  using assms
  by (auto simp: authorize_def rbind_eq_Inr require_aware_def consents_find_active_def consent_binds_def Let_def
      split: datetime.splits option.splits if_splits)

lemma sha_result: "canonical_sha256 L v = Inr d \<Longrightarrow> \<exists>t. d = sha256_hex L t"
  by (auto simp: canonical_sha256_def rbind_eq_Inr)

lemma preview_Inr:
  assumes "preview L recips request pid ttl now = Inr p"
  shows "validate_scoped_text pid ''provider_id'' = Inr ()" "validate_scoped_text (mr_purpose request) ''purpose'' = Inr ()"
    "validate_ttl ttl = Inr ()" "\<not> has_secret request"
    "canonical_field_digest L (mr_fields request) = Inr (pv_field_digest p)"
    "preview_hash L pid (mr_purpose request) (pv_field_digest p) (pv_recipient_fingerprint p)
       (int (length (protected_fields request))) ttl = Inr (pv_preview_hash p)"
    "\<exists>i. registered_recipient L recips pid = Inr (i, pv_recipient_fingerprint p)"
  using assms by (auto simp: preview_def rbind_eq_Inr reject_secret_def Let_def)

lemma confirmed_previewed:
  assumes "\<And>x. is_digest (sha256_hex L x)" "preview L recips request pid ttl (Aware t0) = Inr p" "protected_fields request \<noteq> []"
    and "validate_scoped_text user ''user_id'' = Inr ()" "validate_idempotency_key key = Inr ()" "\<not> blank uid"
  shows "\<exists>fp. confirmed L recips request pid user (pv_preview_hash p) key uid ttl (Aware t0) = Inr
    (\<lparr>dc_id = uid, dc_user_id = user, dc_provider_id = pid, dc_purpose = mr_purpose request,
      dc_field_digest = pv_field_digest p, dc_recipient_fingerprint = pv_recipient_fingerprint p,
      dc_field_count = int (length (protected_fields request)), dc_policy_version = DISCLOSURE_POLICY_VERSION,
      dc_state = CS_ACTIVE, dc_created_at = t0, dc_expires_at = t0 + ttl, dc_version = 0, dc_revoked_at = None\<rparr>, fp)"
proof -
  note pre = preview_Inr [OF assms(2)]
  from pre(7) obtain i where i: "registered_recipient L recips pid = Inr (i, pv_recipient_fingerprint p)" by blast
  have dig: "is_digest (pv_field_digest p)" "is_digest (pv_recipient_fingerprint p)"
    using pre(5) i assms(1)
    by (auto simp: canonical_field_digest_def registered_recipient_def recipient_fingerprint_def rbind_eq_Inr
        dest!: sha_result split: option.splits)
  have pos: "0 < ttl" "\<not> blank pid" "\<not> blank (mr_purpose request)" "\<not> blank user" "\<not> blank DISCLOSURE_POLICY_VERSION"
    using pre(1-3) assms(4)
    by (auto simp: validate_ttl_def validate_scoped_text_def require_text_def rbind_eq_Inr MIN_DISCLOSURE_TTL_def
        minutes_def seconds_def DISCLOSURE_POLICY_VERSION_def blank_iff is_space_def)
  have cnt: "1 \<le> int (length (protected_fields request))" using assms(3) by (cases "protected_fields request") auto
  define cmd where "cmd = VDict
       [(''user_id'', VStr user), (''provider_id'', VStr pid), (''purpose'', VStr (mr_purpose request)),
        (''field_digest'', VStr (pv_field_digest p)), (''recipient_fingerprint'', VStr (pv_recipient_fingerprint p)),
        (''protected_field_count'', VInt (int (length (protected_fields request)))), (''policy_version'', VStr DISCLOSURE_POLICY_VERSION),
        (''preview_hash'', VStr (pv_preview_hash p)), (''ttl_seconds'', VInt (ttl_seconds ttl))]"
  have "plain cmd" "wf_val cmd" by (simp_all add: cmd_def wf_dict_def)
  from plain_digest [OF this] obtain fp where fp: "canonical_sha256 L cmd = Inr fp" by blast
  show ?thesis
    using pre(1-6) i assms(3-6) dig pos cnt fp
    by (simp add: confirmed_def require_aware_def reject_secret_def Let_def cmd_def check_consent_def require_text_def require_digest_def)
qed

section \<open>A request with a personal field\<close>

definition digest_lib :: stdlib where
  "digest_lib = sample_lib\<lparr>sha256_hex := (\<lambda>_. replicate 64 (CHR ''0''))\<rparr>"

definition demo_recipient :: recipient_identity where
  "demo_recipient = \<lparr>ri_provider_id = ''cloud'', ri_adapter = ''http'', ri_endpoint = ''https://model'', ri_model_id = ''m''\<rparr>"

definition demo_field :: context_field where
  "demo_field = \<lparr>cf_name = ''to'', cf_value = ''bob'', cf_classification = DC_SENSITIVE, cf_source = ''inbox''\<rparr>"

definition demo_request :: model_request where
  "demo_request = \<lparr>mr_purpose = ''draft'', mr_instruction = ''write'',
     mr_fields = [\<lparr>cf_name = ''mail'', cf_value = ''hello'', cf_classification = DC_PERSONAL, cf_source = ''inbox''\<rparr>],
     mr_metadata = VDict []\<rparr>"

definition demo_recipients :: recipients where
  "demo_recipients = [''cloud'' \<mapsto> demo_recipient]"

definition demo_preview :: disclosure_preview where
  "demo_preview = projr (preview digest_lib demo_recipients demo_request ''cloud'' (minutes 5) (Aware 0))"

lemma demo_preview_ok: "preview digest_lib demo_recipients demo_request ''cloud'' (minutes 5) (Aware 0) = Inr demo_preview"
proof -
  have "is_ok (preview digest_lib demo_recipients demo_request ''cloud'' (minutes 5) (Aware 0))" by code_simp
  then show ?thesis by (auto simp: is_ok_iff demo_preview_def)
qed

section \<open>Properties\<close>



text \<open>
  C15. The digest a consent stores stands for the fields and nothing else: as long as SHA-256 does not
  collide on the values and the two canonical texts, two lists of fields have the same digest exactly when
  one is a reordering of the other.
\<close>

theorem field_digest_exact:
  assumes "float_repr_ok L"
    and "inj_on (sha256_hex L) (cf_value ` (set fs \<union> set gs) \<union> {t. \<exists>hs\<in>{fs, gs}. canonical_json L (field_list L hs) = Inr t})"
  shows "canonical_field_digest L fs = canonical_field_digest L gs \<longleftrightarrow> mset fs = mset gs"
proof -
  obtain s t where st: "canonical_json L (field_list L fs) = Inr s" "canonical_field_digest L fs = Inr (sha256_hex L s)"
    "canonical_json L (field_list L gs) = Inr t" "canonical_field_digest L gs = Inr (sha256_hex L t)"
    using field_digest_total by metis
  have inj: "inj_on (field_key L) (set fs \<union> set gs)" by (rule field_key_inject, rule inj_on_subset [OF assms(2)]) blast
  have "sha256_hex L s = sha256_hex L t \<longleftrightarrow> s = t" using st(1,3) inj_onD [OF assms(2), of s t] by auto
  also have "s = t \<longleftrightarrow> map (field_key L) (sort_key (field_key L) fs) = map (field_key L) (sort_key (field_key L) gs)"
  proof
    assume "s = t"
    with canonical_json_determines [OF assms(1) field_list_plain(2) field_list_plain(2) st(1)] st(3)
    have "map (sorted_material L) (sort_key (field_key L) fs) = map (sorted_material L) (sort_key (field_key L) gs)"
      by (simp add: normalize_field_list)
    then show "map (field_key L) (sort_key (field_key L) fs) = map (field_key L) (sort_key (field_key L) gs)"
      by (auto simp: list_eq_iff_nth_eq sorted_material_key)
  next
    assume "map (field_key L) (sort_key (field_key L) fs) = map (field_key L) (sort_key (field_key L) gs)"
    then have "mset fs = mset gs" by (simp only: sorted_fields_mset [OF inj])
    with inj have "sort_key (field_key L) fs = sort_key (field_key L) gs"
      using sorted_fields_mset [OF inj] inj_on_map_eq_map [of "field_key L" "sort_key (field_key L) fs" "sort_key (field_key L) gs"]
      by (simp add: Un_commute)
    with st show "s = t" by (simp add: field_list_def)
  qed
  finally show ?thesis using st(2,4) by (simp add: sorted_fields_mset [OF inj])
qed

theorem field_digest_exact_witness:
  "canonical_field_digest sample_lib (mr_fields demo_request @ [demo_field]) =
     canonical_field_digest sample_lib ([demo_field] @ mr_fields demo_request) \<and>
   canonical_field_digest sample_lib (mr_fields demo_request) \<noteq>
     canonical_field_digest sample_lib (map (\<lambda>f. f\<lparr>cf_value := ''bye''\<rparr>) (mr_fields demo_request))"
  using field_digest_exact [OF sample_float_ok, of "mr_fields demo_request @ [demo_field]" "[demo_field] @ mr_fields demo_request"]
    field_digest_exact [OF sample_float_ok, of "mr_fields demo_request" "map (\<lambda>f. f\<lparr>cf_value := ''bye''\<rparr>) (mr_fields demo_request)"]
  by (simp add: sample_lib_def demo_request_def)

end
