(* ===== verification/PA_Router.thy ===== *)
theory PA_Router
  imports PA_Disclosure
begin

text \<open>
  \<open>core/models/router.py\<close> and \<open>cleanup.py\<close>: the choice of the provider a request is handed to, and the
  closing of the providers. The router reads the consent store once per call; a provider may be repointed
  to another recipient at any time, so the two checks of a call read its recipient separately.
\<close>

section \<open>Routing (router.py)\<close>

record ephemeral_consent =
  ec_provider_id :: string
  ec_purpose :: string
  ec_field_digest :: string
  ec_recipient_fingerprint :: string
  ec_expires_at :: time
  ec_user_id :: string

definition mk_ephemeral :: "string \<Rightarrow> string \<Rightarrow> string \<Rightarrow> string \<Rightarrow> datetime \<Rightarrow> string \<Rightarrow> ephemeral_consent result" where
  "mk_ephemeral provider_id purpose digest recipient expires_at user_id =
     ensure (\<not> blank provider_id) ValidationError ''disclosure consent provider_id is required''
    (ensure (\<not> blank purpose) ValidationError ''disclosure consent purpose is required''
    (ensure (\<not> blank user_id) ValidationError ''disclosure consent user_id is required''
    (ensure (is_digest digest) ValidationError ''disclosure consent field_digest must be a sha256''
    (ensure (is_digest recipient) ValidationError ''disclosure consent recipient_fingerprint must be a sha256''
    (case expires_at of
       Naive \<Rightarrow> raise ValidationError ''disclosure consent expires_at must be timezone-aware''
     | Aware t \<Rightarrow> Inr \<lparr>ec_provider_id = provider_id, ec_purpose = purpose, ec_field_digest = digest,
         ec_recipient_fingerprint = recipient, ec_expires_at = t, ec_user_id = user_id\<rparr>)))))"

definition protected_digest :: "stdlib \<Rightarrow> model_request \<Rightarrow> string result" where
  "protected_digest L request =
     canonical_field_digest L (filter (\<lambda>f. cf_classification f \<in> {DC_PERSONAL, DC_SENSITIVE}) (mr_fields request))"

definition ephemeral_for_request ::
  "stdlib \<Rightarrow> string \<Rightarrow> string \<Rightarrow> model_request \<Rightarrow> datetime \<Rightarrow> string \<Rightarrow> ephemeral_consent result" where
  "ephemeral_for_request L provider_id recipient request expires_at user_id =
     rbind (protected_digest L request) (\<lambda>digest.
       mk_ephemeral provider_id (mr_purpose request) digest recipient expires_at user_id)"

definition permits :: "stdlib \<Rightarrow> ephemeral_consent \<Rightarrow> string \<Rightarrow> string \<Rightarrow> model_request \<Rightarrow> time \<Rightarrow> bool result" where
  "permits L c provider_id recipient request now =
     (if ec_provider_id c = provider_id \<and> ec_purpose c = mr_purpose request
      then rbind (protected_digest L request) (\<lambda>digest.
        Inr (ec_field_digest c = digest \<and> ec_recipient_fingerprint c = recipient \<and> now < ec_expires_at c))
      else Inr False)"

text \<open>A provider as it is registered; \<open>pr_recipient\<close> is its recipient at that moment.\<close>

record provider =
  pr_id :: string
  pr_remote :: bool
  pr_recipient :: recipient_identity

record router =
  rt_providers :: "(string \<times> provider) list"
  rt_identities :: "(string \<times> recipient_identity) list"
  rt_recipients :: "(string \<times> string) list"
  rt_disclosure :: bool
  rt_allow_ephemeral :: bool
  rt_default_fallback :: "string option"
  rt_audited :: bool

definition mk_router :: "stdlib \<Rightarrow> provider list \<Rightarrow> bool \<Rightarrow> bool \<Rightarrow> string option \<Rightarrow> bool \<Rightarrow> router result" where
  "mk_router L providers disclosure allow_ephemeral fallback audited =
     ensure (\<not> (disclosure \<and> allow_ephemeral)) ValueError ''persistent disclosure and ephemeral consents are mutually exclusive''
    (ensure (distinct (map pr_id providers)) ValueError ''model provider ids must be unique''
    (rbind (rmap (\<lambda>p. rbind (recipient_fingerprint L (pr_recipient p)) (\<lambda>f. Inr (pr_id p, f))) providers) (\<lambda>recipients.
     Inr \<lparr>rt_providers = map (\<lambda>p. (pr_id p, p)) providers, rt_identities = map (\<lambda>p. (pr_id p, pr_recipient p)) providers,
          rt_recipients = recipients, rt_disclosure = disclosure, rt_allow_ephemeral = allow_ephemeral,
          rt_default_fallback = fallback, rt_audited = audited\<rparr>)))"

text \<open>
  What a call meets outside: the recipient each provider points to at the first and at the second check,
  the answer of a provider, the text of an instant and the clock of the audit event.
\<close>

record route_env =
  en_first :: "string \<Rightarrow> recipient_identity"
  en_second :: "string \<Rightarrow> recipient_identity"
  en_complete :: "string \<Rightarrow> model_request \<Rightarrow> model_output result"
  en_iso :: "time \<Rightarrow> string"
  en_clock :: time

text \<open>The consent store, the requests handed to a provider, with the recipient it had then, and the audit log.\<close>

record model_world =
  mw_consents :: consent_store
  mw_sent :: "(provider \<times> recipient_identity \<times> model_request) list"
  mw_audit :: "audit_entry list"

definition router_reject_secret :: "model_request \<Rightarrow> unit result" where
  "router_reject_secret request = ensure (\<not> has_secret request) DisclosureDenied
     ''secret material may never be sent to a model'' (Inr ())"

definition check_recipient :: "stdlib \<Rightarrow> router \<Rightarrow> (string \<Rightarrow> recipient_identity) \<Rightarrow> provider \<Rightarrow> unit result" where
  "check_recipient L R reading p =
     (if pr_remote p
      then rbind (recipient_fingerprint L (reading (pr_id p))) (\<lambda>f.
        ensure (dget (rt_recipients R) (pr_id p) = Some f) DisclosureDenied
          ''the registered model recipient has changed; rebuild the provider'' (Inr ()))
      else Inr ())"

definition decide ::
  "stdlib \<Rightarrow> router \<Rightarrow> consent_store \<Rightarrow> model_request \<Rightarrow> string \<Rightarrow> ephemeral_consent option \<Rightarrow> string option \<Rightarrow> string option \<Rightarrow> time
   \<Rightarrow> (bool \<times> string option) result" where
  "decide L R s request provider_id consent consent_id user_id now =
     (let recipient = (case dget (rt_recipients R) provider_id of None \<Rightarrow> [] | Some f \<Rightarrow> f) in
      if rt_disclosure R then
        (case (consent_id, user_id) of
           (Some c, Some u) \<Rightarrow>
             if c = [] \<or> u = [] then Inr (False, None)
             else rbind (authorize L s request c u provider_id recipient (Aware now)) (\<lambda>r.
               case r of None \<Rightarrow> Inr (False, None) | Some r \<Rightarrow> Inr (True, Some (dc_id r)))
         | _ \<Rightarrow> Inr (False, None))
      else if rt_allow_ephemeral R then
        (case consent of
           None \<Rightarrow> Inr (False, None)
         | Some e \<Rightarrow> rbind (permits L e provider_id recipient request now) (\<lambda>b. Inr (b, None)))
      else Inr (False, None))"

definition local_fallback :: "router \<Rightarrow> string option \<Rightarrow> provider result" where
  "local_fallback R local_fallback_id =
     (case (case local_fallback_id of Some i \<Rightarrow> Some i | None \<Rightarrow> rt_default_fallback R) of
        None \<Rightarrow> raise DisclosureDenied ''remote disclosure requires consent bound to provider, purpose and exact fields''
      | Some i \<Rightarrow>
          (case dget (rt_providers R) i of
             None \<Rightarrow> raise DisclosureDenied ''configured local fallback is unavailable''
           | Some p \<Rightarrow> ensure (\<not> pr_remote p) DisclosureDenied ''fallback provider must be local'' (Inr p)))"

text \<open>Up to the choice of the provider and of the consent the call is made under.\<close>

definition select_provider ::
  "stdlib \<Rightarrow> router \<Rightarrow> route_env \<Rightarrow> consent_store \<Rightarrow> model_request \<Rightarrow> string \<Rightarrow> ephemeral_consent option \<Rightarrow> string option
   \<Rightarrow> string option \<Rightarrow> string option \<Rightarrow> datetime \<Rightarrow> (provider \<times> string option \<times> time) result" where
  "select_provider L R env s request provider_id consent consent_id user_id local_fallback_id now =
     (case dget (rt_providers R) provider_id of
        None \<Rightarrow> raise KeyError (''unknown model provider: '' @ provider_id)
      | Some p \<Rightarrow>
          rbind (router_reject_secret request) (\<lambda>_.
          (case now of
             Naive \<Rightarrow> raise ValidationError ''model routing time must be timezone-aware''
           | Aware current \<Rightarrow>
               rbind (check_recipient L R (en_first env) p) (\<lambda>_.
               if pr_remote p \<and> protected_fields request \<noteq> [] then
                 rbind (decide L R s request provider_id consent consent_id user_id current) (\<lambda>(authorized, used).
                 if authorized then Inr (p, used, current)
                 else rbind (local_fallback R local_fallback_id) (\<lambda>q.
                      rbind (router_reject_secret request) (\<lambda>_. Inr (q, None, current))))
               else Inr (p, None, current)))))"

definition audit_data ::
  "stdlib \<Rightarrow> route_env \<Rightarrow> model_request \<Rightarrow> model_output \<Rightarrow> string \<Rightarrow> string \<Rightarrow> string option \<Rightarrow> time \<Rightarrow> pyval result" where
  "audit_data L env request output provider_id model_id consent_id now =
     rbind (canonical_field_digest L (mr_fields request)) (\<lambda>digest.
     Inr (VDict
       [(''provider_id'', VStr provider_id), (''model_id'', VStr model_id), (''purpose'', VStr (mr_purpose request)),
        (''field_count'', VInt (int (length (mr_fields request)))), (''field_digest'', VStr digest),
        (''classifications'', VList (map VStr (sort (remdups (map (\<lambda>f. classification_value (cf_classification f)) (mr_fields request)))))),
        (''consent_id'', case consent_id of None \<Rightarrow> VNone | Some c \<Rightarrow> VStr c),
        (''output_sha256'', VStr (sha256_hex L (mo_text output))), (''recorded_at'', VStr (en_iso env now)),
        (''usage'', VDict (map (\<lambda>(k, n). (k, VInt n)) (bounded_usage (mo_usage output) AUDITABLE_USAGE_KEYS)))]))"

definition record_success ::
  "stdlib \<Rightarrow> router \<Rightarrow> route_env \<Rightarrow> model_request \<Rightarrow> model_output \<Rightarrow> string \<Rightarrow> string \<Rightarrow> string option \<Rightarrow> string option \<Rightarrow> time
   \<Rightarrow> model_world \<Rightarrow> unit result \<times> model_world" where
  "record_success L R env request output provider_id model_id user_id consent_id now w =
     (if \<not> rt_audited R then (Inr (), w)
      else case audit_data L env request output provider_id model_id consent_id now of
        Inl e \<Rightarrow> (Inl e, w)
      | Inr d \<Rightarrow> (Inr (), w\<lparr>mw_audit := audit_append (mw_audit w)
          \<lparr>ae_event_type = ''model.completed'',
           ae_actor = (case user_id of None \<Rightarrow> ''system'' | Some u \<Rightarrow> if u = [] then ''system'' else u),
           ae_resource_type = ''model_call'', ae_resource_id = model_id, ae_data = d, ae_occurred_at = en_clock env\<rparr>\<rparr>))"

definition complete_request ::
  "stdlib \<Rightarrow> router \<Rightarrow> route_env \<Rightarrow> model_request \<Rightarrow> string \<Rightarrow> ephemeral_consent option \<Rightarrow> string option
   \<Rightarrow> string option \<Rightarrow> string option \<Rightarrow> datetime \<Rightarrow> model_world \<Rightarrow> model_output result \<times> model_world" where
  "complete_request L R env request provider_id consent consent_id user_id local_fallback_id now w =
     (case rbind (select_provider L R env (mw_consents w) request provider_id consent consent_id user_id local_fallback_id now)
             (\<lambda>(p, used, current). rbind (check_recipient L R (en_second env) p) (\<lambda>_. Inr (p, used, current))) of
        Inl e \<Rightarrow> (Inl e, w)
      | Inr (p, used, current) \<Rightarrow>
          sbind (en_complete env (pr_id p) request, w\<lparr>mw_sent := mw_sent w @ [(p, en_second env (pr_id p), request)]\<rparr>) (\<lambda>output w.
          sbind (record_success L R env request output (pr_id p)
                   (case dget (rt_identities R) (pr_id p) of None \<Rightarrow> [] | Some i \<Rightarrow> ri_model_id i) user_id used current w) (\<lambda>_ w.
            (Inr output, w))))"

text \<open>
  Closing. \<open>run_cleanup\<close> awaits a task until it is done: \<open>interrupts\<close> tells for every await that came back
  early whether it was a cancellation, \<open>ended\<close> how the task ended. \<open>aclose\<close> meets providers without a
  close method (None) and with one.
\<close>

definition run_cleanup :: "bool list \<Rightarrow> 'a result \<Rightarrow> 'a result" where
  "run_cleanup interrupts ended =
     (let cancelled = (list_ex (\<lambda>c. c) interrupts \<or> (case ended of Inl (CancelledError, _) \<Rightarrow> True | _ \<Rightarrow> False)) in
      if cancelled then raise CancelledError [] else ended)"

fun aclose_from :: "(bool list \<times> unit result) option list \<Rightarrow> exn option \<Rightarrow> bool \<Rightarrow> unit result" where
  "aclose_from [] first_error cancelled =
     (if cancelled then raise CancelledError [] else case first_error of None \<Rightarrow> Inr () | Some e \<Rightarrow> Inl e)"
| "aclose_from (None # cs) first_error cancelled = aclose_from cs first_error cancelled"
| "aclose_from (Some (interrupts, ended) # cs) first_error cancelled =
     (case run_cleanup interrupts ended of
        Inr _ \<Rightarrow> aclose_from cs first_error cancelled
      | Inl (CancelledError, _) \<Rightarrow> aclose_from cs first_error True
      | Inl e \<Rightarrow> aclose_from cs (case first_error of None \<Rightarrow> Some e | Some f \<Rightarrow> Some f) cancelled)"

definition aclose :: "(bool list \<times> unit result) option list \<Rightarrow> unit result" where
  "aclose closes = aclose_from closes None False"

section \<open>Who receives a request\<close>

lemma mk_router_Inr:
  assumes "mk_router L providers disclosure ephemeral fallback audited = Inr R"
  shows "rt_disclosure R = disclosure" "rt_allow_ephemeral R = ephemeral"
    "dget (rt_providers R) i = Some p \<Longrightarrow> pr_id p = i"
  using assms by (auto simp: mk_router_def rbind_eq_Inr dest: map_of_SomeD)

lemma select_provider_Inr:
  assumes R: "mk_router L providers True False fallback audited = Inr R"
    and "select_provider L R env s request i consent consent_id user_id lf now = Inr (p, used, t)"
  shows "now = Aware t \<and> \<not> has_secret request \<and> (pr_remote p \<and> protected_fields request \<noteq> [] \<longrightarrow> pr_id p = i \<and>
    (\<exists>c u r. consent_id = Some c \<and> user_id = Some u \<and>
       authorize L s request c u i (case dget (rt_recipients R) i of None \<Rightarrow> [] | Some f \<Rightarrow> f) now = Inr (Some r)))"
  using assms(2) mk_router_Inr [OF R]
  by (auto simp: select_provider_def router_reject_secret_def rbind_eq_Inr decide_def local_fallback_def Let_def
      split: option.splits datetime.splits if_splits)

lemma check_recipient_remote:
  "check_recipient L R reading p = Inr () \<Longrightarrow> pr_remote p \<Longrightarrow>
     \<exists>f. recipient_fingerprint L (reading (pr_id p)) = Inr f \<and> dget (rt_recipients R) (pr_id p) = Some f"
  by (auto simp: check_recipient_def rbind_eq_Inr)

lemma record_success_sent: "mw_sent (snd (record_success L R env request output i m u c t w)) = mw_sent w"
  by (auto simp: record_success_def split: sum.split)

lemma complete_sent:
  assumes "complete_request L R env request i consent consent_id user_id lf now w = (res, w')" "mw_sent w' \<noteq> mw_sent w"
  shows "\<exists>p used t. select_provider L R env (mw_consents w) request i consent consent_id user_id lf now = Inr (p, used, t) \<and>
    check_recipient L R (en_second env) p = Inr () \<and> mw_sent w' = mw_sent w @ [(p, en_second env (pr_id p), request)]"
proof -
  define sel where "sel = select_provider L R env (mw_consents w) request i consent consent_id user_id lf now"
  show ?thesis
  proof (cases "rbind sel (\<lambda>(p, used, current). rbind (check_recipient L R (en_second env) p) (\<lambda>_. Inr (p, used, current)))")
    case (Inl e)
    with assms show ?thesis by (simp add: complete_request_def sel_def)
  next
    case (Inr x)
    then obtain p used t where sel: "sel = Inr (p, used, t)" "check_recipient L R (en_second env) p = Inr ()" "x = (p, used, t)"
      by (auto simp: rbind_eq_Inr)
    define w1 where "w1 = w\<lparr>mw_sent := mw_sent w @ [(p, en_second env (pr_id p), request)]\<rparr>"
    have "mw_sent (snd (complete_request L R env request i consent consent_id user_id lf now w)) = mw_sent w1"
    proof -
      have body: "mw_sent (snd (sbind (record_success L R env request out (pr_id p) m user_id used t v) (\<lambda>_ v. (Inr out, v)))) = mw_sent v"
        for out m v
        by (cases "record_success L R env request out (pr_id p) m user_id used t v")
           (use record_success_sent [of L R env request out "pr_id p" m user_id used t v] in
             \<open>auto simp: sbind_def split: sum.splits\<close>)
      show ?thesis
        using Inr sel unfolding complete_request_def sel_def [symmetric]
        by (cases "en_complete env (pr_id p) request") (simp_all add: body w1_def)
    qed
    with sel assms(1) show ?thesis by (auto simp: sel_def w1_def)
  qed
qed

section \<open>A remote and a local provider\<close>

definition demo_providers :: "provider list" where
  "demo_providers =
     [\<lparr>pr_id = ''cloud'', pr_remote = True, pr_recipient = demo_recipient\<rparr>,
      \<lparr>pr_id = ''local'', pr_remote = False, pr_recipient = demo_recipient\<lparr>ri_provider_id := ''local''\<rparr>\<rparr>]"

definition demo_router :: router where
  "demo_router = projr (mk_router digest_lib demo_providers True False (Some ''local'') True)"

definition demo_env :: route_env where
  "demo_env = \<lparr>en_first = (\<lambda>_. demo_recipient), en_second = (\<lambda>_. demo_recipient),
     en_complete = (\<lambda>i q. Inr \<lparr>mo_text = ''ok'', mo_provider_id = i, mo_model_id = ''m'', mo_usage = VNone\<rparr>),
     en_iso = (\<lambda>_. ''now''), en_clock = 5\<rparr>"

definition demo_consent :: consent_record where
  "demo_consent = \<lparr>dc_id = ''c1'', dc_user_id = ''alice'', dc_provider_id = ''cloud'', dc_purpose = ''draft'',
     dc_field_digest = replicate 64 (CHR ''0''), dc_recipient_fingerprint = replicate 64 (CHR ''0''), dc_field_count = 1,
     dc_policy_version = ''f04.1'', dc_state = CS_ACTIVE, dc_created_at = 0, dc_expires_at = minutes 5, dc_version = 0, dc_revoked_at = None\<rparr>"

definition demo_consents :: consent_store where
  "demo_consents = \<lparr>cs_records = [(''c1'', demo_consent)], cs_commands = Map.empty\<rparr>"

definition demo_models :: model_world where
  "demo_models = \<lparr>mw_consents = demo_consents, mw_sent = [], mw_audit = []\<rparr>"

definition demo_revoked :: consent_store where
  "demo_revoked = \<lparr>cs_records = [(''c1'', demo_consent\<lparr>dc_state := CS_REVOKED, dc_revoked_at := Some 10, dc_version := 1\<rparr>)],
     cs_commands = Map.empty\<rparr>"

lemma demo_router_ok: "mk_router digest_lib demo_providers True False (Some ''local'') True = Inr demo_router"
proof -
  have "is_ok (mk_router digest_lib demo_providers True False (Some ''local'') True)" by code_simp
  then show ?thesis by (auto simp: is_ok_iff demo_router_def)
qed

section \<open>Properties\<close>

text \<open>
  C3. A router with persistent consents hands a request to at most one provider, never with a secret field,
  and to a remote provider with personal or sensitive fields only if the caller named a stored, active and
  unexpired consent of the calling user for this provider, this purpose, these exact fields and the
  recipient that the provider points to at the moment of the call.
\<close>

theorem remote_disclosure_consented:
  assumes "mk_router L providers True False fallback audited = Inr R"
    and "complete_request L R env request provider_id consent consent_id user_id lf now w = (res, w')"
    and "mw_sent w' \<noteq> mw_sent w"
  shows "\<exists>p live t. mw_sent w' = mw_sent w @ [(p, live, request)] \<and> \<not> has_secret request \<and> now = Aware t \<and>
    (pr_remote p \<and> protected_fields request \<noteq> [] \<longrightarrow>
      (\<exists>c r. consent_id = Some c \<and> dget (cs_records (mw_consents w)) c = Some r \<and> user_id = Some (dc_user_id r) \<and>
         dc_provider_id r = pr_id p \<and> dc_purpose r = mr_purpose request \<and>
         canonical_field_digest L (mr_fields request) = Inr (dc_field_digest r) \<and>
         recipient_fingerprint L live = Inr (dc_recipient_fingerprint r) \<and> dc_state r = CS_ACTIVE \<and> t < dc_expires_at r))"
proof -
  from complete_sent [OF assms(2,3)] obtain p used t where
    sel: "select_provider L R env (mw_consents w) request provider_id consent consent_id user_id lf now = Inr (p, used, t)"
    and chk: "check_recipient L R (en_second env) p = Inr ()"
    and sent: "mw_sent w' = mw_sent w @ [(p, en_second env (pr_id p), request)]" by blast
  note facts = select_provider_Inr [OF assms(1) sel]
  have "\<exists>c r. consent_id = Some c \<and> dget (cs_records (mw_consents w)) c = Some r \<and> user_id = Some (dc_user_id r) \<and>
         dc_provider_id r = pr_id p \<and> dc_purpose r = mr_purpose request \<and>
         canonical_field_digest L (mr_fields request) = Inr (dc_field_digest r) \<and>
         recipient_fingerprint L (en_second env (pr_id p)) = Inr (dc_recipient_fingerprint r) \<and>
         dc_state r = CS_ACTIVE \<and> t < dc_expires_at r"
    if remote: "pr_remote p" "protected_fields request \<noteq> []"
  proof -
    from facts remote obtain c u r where cu: "consent_id = Some c" "user_id = Some u" "pr_id p = provider_id" "now = Aware t"
      "authorize L (mw_consents w) request c u provider_id
         (case dget (rt_recipients R) provider_id of None \<Rightarrow> [] | Some f \<Rightarrow> f) now = Inr (Some r)" by blast
    from check_recipient_remote [OF chk remote(1)] authorize_Some [OF cu(5)] cu(1-4) show ?thesis by auto
  qed
  with facts sent show ?thesis by blast
qed

theorem remote_disclosure_consented_witness:
  "\<exists>p live t. mw_sent (snd (complete_request digest_lib demo_router demo_env demo_request ''cloud'' None (Some ''c1'') (Some ''alice'')
       None (Aware 20) demo_models)) = [(p, live, demo_request)] \<and> pr_remote p \<and> protected_fields demo_request \<noteq> [] \<and>
     recipient_fingerprint digest_lib live = Inr (dc_recipient_fingerprint (snd (hd (cs_records demo_consents))))"
proof -
  let ?c = "complete_request digest_lib demo_router demo_env demo_request ''cloud'' None (Some ''c1'') (Some ''alice'') None (Aware 20) demo_models"
  have run: "?c = (fst ?c, snd ?c)" by simp
  have sent: "map (\<lambda>(p, _, q). (pr_remote p, q)) (mw_sent (snd ?c)) = [(True, demo_request)]" by code_simp
  have ini: "mw_sent demo_models = []" "protected_fields demo_request \<noteq> []" "cs_records demo_consents = [(''c1'', demo_consent)]"
    by (code_simp, code_simp, simp add: demo_consents_def)
  from sent have "mw_sent (snd ?c) \<noteq> mw_sent demo_models" by (auto simp: demo_models_def)
  from remote_disclosure_consented [OF demo_router_ok run this] obtain p live t where
    one: "mw_sent (snd ?c) = [(p, live, demo_request)]" and cond: "pr_remote p \<and> protected_fields demo_request \<noteq> [] \<longrightarrow>
      (\<exists>c r. Some ''c1'' = Some c \<and> dget (cs_records (mw_consents demo_models)) c = Some r \<and> Some ''alice'' = Some (dc_user_id r) \<and>
         dc_provider_id r = pr_id p \<and> dc_purpose r = mr_purpose demo_request \<and>
         canonical_field_digest digest_lib (mr_fields demo_request) = Inr (dc_field_digest r) \<and>
         recipient_fingerprint digest_lib live = Inr (dc_recipient_fingerprint r) \<and> dc_state r = CS_ACTIVE \<and> t < dc_expires_at r)"
    by (auto simp: ini(1))
  from one sent have "pr_remote p" by simp
  with cond ini(2) obtain r where "dget (cs_records demo_consents) ''c1'' = Some r"
    "recipient_fingerprint digest_lib live = Inr (dc_recipient_fingerprint r)" by (auto simp: demo_models_def)
  with ini(3) one \<open>pr_remote p\<close> ini(2) show ?thesis by (cases "cs_records demo_consents") auto
qed

text \<open>
  C11. A consent that was revoked, or whose time has passed, discloses nothing any more: whatever users
  confirm and revoke afterwards, a call under that consent hands a request with personal or sensitive
  fields to no remote provider.
\<close>

theorem dead_consent_never_discloses:
  assumes "mk_router L providers True False fallback audited = Inr R"
    and "dget (cs_records s) c = Some r" "dc_state r \<noteq> CS_ACTIVE \<or> dc_expires_at r \<le> t"
    and "mw_consents w = consents_run L ops s" "protected_fields request \<noteq> []"
    and "complete_request L R env request provider_id consent (Some c) user_id lf (Aware t) w = (res, w')"
  shows "list_all (\<lambda>(p, _). \<not> pr_remote p) (drop (length (mw_sent w)) (mw_sent w'))"
proof (cases "mw_sent w' = mw_sent w")
  case False
  from complete_sent [OF assms(6) this] obtain p used t' where
    sel: "select_provider L R env (mw_consents w) request provider_id consent (Some c) user_id lf (Aware t) = Inr (p, used, t')"
    and sent: "mw_sent w' = mw_sent w @ [(p, en_second env (pr_id p), request)]" by blast
  obtain q where q: "dget (cs_records (mw_consents w)) c = Some q" "consent_follows r q"
    using consents_run_le [of s L ops] assms(2,4) by (auto simp: consent_le_def)
  have "\<not> pr_remote p"
  proof
    assume "pr_remote p"
    with select_provider_Inr [OF assms(1) sel] assms(5) obtain u q' f where
      "authorize L (mw_consents w) request c u provider_id f (Aware t) = Inr (Some q')" by blast
    from authorize_Some [OF this] q assms(3) show False by (auto simp: consent_follows_def)
  qed
  with sent show ?thesis by simp
qed simp

theorem dead_consent_never_discloses_witness:
  "dc_state (snd (hd (cs_records demo_revoked))) = CS_REVOKED \<and>
   list_all (\<lambda>(p, _). \<not> pr_remote p) (mw_sent (snd (complete_request digest_lib demo_router demo_env demo_request ''cloud'' None
     (Some ''c1'') (Some ''alice'') None (Aware 20) (demo_models\<lparr>mw_consents := demo_revoked\<rparr>))))"
proof -
  let ?w = "demo_models\<lparr>mw_consents := demo_revoked\<rparr>"
  let ?c = "complete_request digest_lib demo_router demo_env demo_request ''cloud'' None (Some ''c1'') (Some ''alice'') None (Aware 20) ?w"
  define r where "r = demo_consent\<lparr>dc_state := CS_REVOKED, dc_revoked_at := Some 10, dc_version := 1\<rparr>"
  have r: "cs_records demo_revoked = [(''c1'', r)]" "dc_state r = CS_REVOKED" by (simp_all add: demo_revoked_def r_def)
  have run: "?c = (fst ?c, snd ?c)" by simp
  have "protected_fields demo_request \<noteq> []" by code_simp
  then have "list_all (\<lambda>(p, _). \<not> pr_remote p) (drop (length (mw_sent ?w)) (mw_sent (snd ?c)))"
    by (intro dead_consent_never_discloses [OF demo_router_ok _ _ _ _ run, of demo_revoked r "[]"])
       (simp_all add: r consents_run_def)
  with r show ?thesis by (simp add: demo_models_def)
qed

end
