(* ===== verification/PA_Records.thy ===== *)
theory PA_Records
  imports PA_Jobs PA_Canonical
begin

text \<open>
  \<open>core/records.py\<close> with the in-memory store \<open>infrastructure/memory/records.py\<close>, and two services on it:
  \<open>core/governance.py\<close> (reviewed preference rules) and \<open>core/event_delivery.py\<close> (collection of domain
  events). A command runs under the command lock, so a service call is one step of the world; what an
  action did before it raised stays done.
\<close>

section \<open>Record store\<close>

record store_record =
  sr_id :: string
  sr_version :: int
  sr_value :: pyval

record record_store =
  rc_records :: "((string \<times> string) \<times> store_record) list"
  rc_commands :: "string \<rightharpoonup> string \<times> pyval"

definition empty_store :: record_store where
  "empty_store = \<lparr>rc_records = [], rc_commands = Map.empty\<rparr>"

definition rec_get :: "record_store \<Rightarrow> string \<Rightarrow> string \<Rightarrow> store_record option" where
  "rec_get s bucket key = dget (rc_records s) (bucket, key)"

definition rec_list :: "record_store \<Rightarrow> string \<Rightarrow> store_record list" where
  "rec_list s bucket = map snd (filter (\<lambda>((b, _), _). b = bucket) (rc_records s))"

definition rec_put :: "stdlib \<Rightarrow> record_store \<Rightarrow> string \<Rightarrow> string \<Rightarrow> pyval \<Rightarrow> int \<Rightarrow> store_record result \<times> record_store" where
  "rec_put L s bucket key v expected =
     (case fingerprint L v of
        Inl e \<Rightarrow> (Inl e, s)
      | Inr _ \<Rightarrow>
          if (case rec_get s bucket key of None \<Rightarrow> 0 | Some old \<Rightarrow> sr_version old) \<noteq> expected
          then (raise ConcurrentModificationError ''record version changed'', s)
          else (let r = \<lparr>sr_id = key, sr_version = expected + 1, sr_value = v\<rparr> in
                (Inr r, s\<lparr>rc_records := dset (bucket, key) r (rc_records s)\<rparr>)))"

definition record_dict :: "store_record \<Rightarrow> pyval" where
  "record_dict r = VDict [(''id'', VStr (sr_id r)), (''version'', VInt (sr_version r)), (''value'', sr_value r)]"

text \<open>The world the actions of commands work on: the store, the job queue and the events handed to the sink.\<close>

record records_world =
  rw_store :: record_store
  rw_jobs :: job_queue
  rw_delivered :: "(pyval \<times> string) list"

definition in_store :: "(record_store \<Rightarrow> 'a result \<times> record_store) \<Rightarrow> records_world \<Rightarrow> 'a result \<times> records_world" where
  "in_store f w = (case f (rw_store w) of (res, s) \<Rightarrow> (res, w\<lparr>rw_store := s\<rparr>))"

definition command ::
  "stdlib \<Rightarrow> string \<Rightarrow> pyval \<Rightarrow> (records_world \<Rightarrow> pyval result \<times> records_world) \<Rightarrow> records_world \<Rightarrow> pyval result \<times> records_world" where
  "command L key request action w =
     (if key = [] \<or> int (length key) > 256 then (raise ValidationError ''a bounded command key is required'', w)
      else case fingerprint L request of
        Inl e \<Rightarrow> (Inl e, w)
      | Inr digest \<Rightarrow>
          (case rc_commands (rw_store w) key of
             Some (old_digest, old_result) \<Rightarrow>
               if old_digest \<noteq> digest then (raise ConcurrentModificationError ''command key belongs to another request'', w)
               else (Inr old_result, w)
           | None \<Rightarrow>
               sbind (action w) (\<lambda>result w'.
                 (Inr result, w'\<lparr>rw_store := (rw_store w')\<lparr>rc_commands := (rc_commands (rw_store w'))(key \<mapsto> (digest, result))\<rparr>\<rparr>))))"

definition put_record :: "stdlib \<Rightarrow> string \<Rightarrow> string \<Rightarrow> pyval \<Rightarrow> int \<Rightarrow> records_world \<Rightarrow> pyval result \<times> records_world" where
  "put_record L bucket key v expected w =
     sbind (in_store (\<lambda>s. rec_put L s bucket key v expected) w) (\<lambda>r w'. (Inr (record_dict r), w'))"

section \<open>Rules (governance.py)\<close>

text \<open>\<open>re.fullmatch("[A-Za-z0-9\_.-]{1,128}", s)\<close>.\<close>

definition ident_char :: "char \<Rightarrow> bool" where
  "ident_char c = (let n = (of_char c :: int) in
     65 \<le> n \<and> n \<le> 90 \<or> 97 \<le> n \<and> n \<le> 122 \<or> 48 \<le> n \<and> n \<le> 57 \<or> c \<in> {CHR ''_'', CHR ''.'', CHR ''-''})"

definition is_ident :: "string \<Rightarrow> bool" where
  "is_ident s = (s \<noteq> [] \<and> int (length s) \<le> 128 \<and> list_all ident_char s)"

definition rule_scope_keys :: "string set" where
  "rule_scope_keys = {''workflow_id'', ''extension_id'', ''category''}"

definition rule_preference_keys :: "string set" where
  "rule_preference_keys = {''language'', ''ask_for_missing_material'', ''answer_style''}"

text \<open>\<open>if k in d and d[k] not in {...}: raise\<close>; the membership test hashes the value.\<close>

definition check_choice :: "(string \<times> pyval) list \<Rightarrow> string \<Rightarrow> string set \<Rightarrow> string \<Rightarrow> unit result" where
  "check_choice d k choices msg =
     (case dget d k of
        None \<Rightarrow> Inr ()
      | Some v \<Rightarrow>
          (case unhashable v of
             Some t \<Rightarrow> raise TypeError (''unhashable type: '' @ py_repr t)
           | None \<Rightarrow> ensure (v \<in> VStr ` choices) ValidationError msg (Inr ())))"

definition validate_rule :: "(string \<times> pyval) list \<Rightarrow> (string \<times> pyval) list \<Rightarrow> unit result" where
  "validate_rule scope preferences =
     ensure (scope \<noteq> [] \<and> dkeys scope \<subseteq> rule_scope_keys \<and> preferences \<noteq> [] \<and> dkeys preferences \<subseteq> rule_preference_keys)
       ValidationError ''rule requires a limited scope and supported preferences''
      (ensure (list_all (\<lambda>(_, v). case v of VStr s \<Rightarrow> is_ident s | _ \<Rightarrow> False) scope)
        ValidationError ''rule scopes contain metadata identifiers only''
       (rbind (check_choice preferences ''language'' {''zh'', ''en''} ''unsupported language preference'') (\<lambda>_.
        rbind (check_choice preferences ''answer_style'' {''brief'', ''detailed''} ''unsupported answer style'') (\<lambda>_.
        ensure (case dget preferences ''ask_for_missing_material'' of None \<Rightarrow> True | Some (VBool _) \<Rightarrow> True | Some _ \<Rightarrow> False)
          ValidationError ''clarification preference must be boolean'' (Inr ())))))"

definition item :: "(string \<times> pyval) list \<Rightarrow> string \<Rightarrow> pyval result" where
  "item d k = (case dget d k of None \<Rightarrow> raise KeyError (py_repr k) | Some v \<Rightarrow> Inr v)"

definition item_dict :: "(string \<times> pyval) list \<Rightarrow> string \<Rightarrow> (string \<times> pyval) list result" where
  "item_dict d k = rbind (item d k) (\<lambda>v. case v of VDict e \<Rightarrow> Inr e
     | _ \<Rightarrow> raise AttributeError (py_repr (type_name v) @ '' object has no attribute '' @ py_repr ''items''))"

definition dict_of :: "pyval \<Rightarrow> (string \<times> pyval) list" where
  "dict_of v = (case v of VDict d \<Rightarrow> d | _ \<Rightarrow> [])"

text \<open>\<open>all(metadata.get(k) == v for k, v in scope.items())\<close>.\<close>

definition scope_matches :: "(string \<times> pyval) list \<Rightarrow> (string \<times> pyval) list \<Rightarrow> bool" where
  "scope_matches scope metadata =
     list_all (\<lambda>(k, v). py_eq (case dget metadata k of None \<Rightarrow> VNone | Some x \<Rightarrow> x) v) scope"

definition propose_rule ::
  "stdlib \<Rightarrow> string \<Rightarrow> (string \<times> pyval) list \<Rightarrow> (string \<times> pyval) list \<Rightarrow> string \<Rightarrow> records_world \<Rightarrow> pyval result \<times> records_world" where
  "propose_rule L uid scope preferences key w =
     (case validate_rule scope preferences of
        Inl e \<Rightarrow> (Inl e, w)
      | Inr _ \<Rightarrow>
          command L key (VDict [(''operation'', VStr ''propose''), (''scope'', VDict scope), (''preferences'', VDict preferences)])
            (put_record L ''rules'' (''rule_'' @ uid)
              (VDict [(''state'', VStr ''CANDIDATE''), (''scope'', VDict scope), (''preferences'', VDict preferences)]) 0) w)"

definition check_test :: "(string \<times> pyval) list \<Rightarrow> (string \<times> pyval) list \<Rightarrow> bool result" where
  "check_test scope test =
     (case (dget test ''metadata'', dget test ''matches'') of
        (Some (VDict metadata), Some (VBool expected)) \<Rightarrow>
          ensure (dkeys test = {''metadata'', ''matches''} \<and> dkeys metadata \<subseteq> rule_scope_keys) ValidationError
            ''rule tests contain metadata and an expected boolean only''
           (ensure (scope_matches scope metadata = expected) ValidationError ''a rule counterexample failed''
             (Inr (scope_matches scope metadata)))
      | _ \<Rightarrow> raise ValidationError ''rule tests contain metadata and an expected boolean only'')"

text \<open>
  The history of rules (\<open>RuleHistory\<close>) is a parameter: \<open>record\<close> answers the revision it stored, \<open>read\<close> the
  value of a rule at a revision.
\<close>

record rule_history =
  rh_record :: "pyval \<Rightarrow> string result"
  rh_read :: "string \<Rightarrow> string \<Rightarrow> (string \<times> pyval) list result"

definition with_revision ::
  "rule_history \<Rightarrow> string \<Rightarrow> int \<Rightarrow> (string \<times> pyval) list \<Rightarrow> (string \<times> pyval) list result" where
  "with_revision h rule_id version v =
     rbind (rh_record h (VDict [(''id'', VStr rule_id), (''version'', VInt (version + 1)), (''value'', VDict v)])) (\<lambda>r.
       Inr (dset ''revision'' (VStr r) v))"

definition activated_value :: "stdlib \<Rightarrow> pyval \<Rightarrow> (string \<times> pyval) list list \<Rightarrow> (string \<times> pyval) list result" where
  "activated_value L v tests =
     (case v of
        VDict d \<Rightarrow>
          rbind (item_dict d ''scope'') (\<lambda>scope.
          rbind (item_dict d ''preferences'') (\<lambda>preferences.
          rbind (validate_rule scope preferences) (\<lambda>_.
          ensure (2 \<le> length tests \<and> length tests \<le> 32) ValidationError ''positive and negative tests are required''
          (rbind (rmap (check_test scope) tests) (\<lambda>results.
           ensure (set results = {False, True}) ValidationError ''both matching and nonmatching examples are required''
           (rbind (fingerprint L v) (\<lambda>digest.
            Inr (dset ''tested_digest'' (VStr digest) (dset ''tests'' (VList (map VDict tests))
                  (dset ''state'' (VStr ''ACTIVE'') d))))))))))
      | _ \<Rightarrow> raise TypeError (py_repr (type_name v) @ '' object is not subscriptable''))"

definition activate_rule ::
  "stdlib \<Rightarrow> rule_history option \<Rightarrow> string \<Rightarrow> int \<Rightarrow> (string \<times> pyval) list list \<Rightarrow> string \<Rightarrow> records_world \<Rightarrow> pyval result \<times> records_world" where
  "activate_rule L history rule_id version tests key =
     command L key (VDict [(''operation'', VStr ''activate''), (''id'', VStr rule_id), (''version'', VInt version),
                           (''tests'', VList (map VDict tests))]) (\<lambda>w.
       case rec_get (rw_store w) ''rules'' rule_id of
         None \<Rightarrow> (raise NotFoundError ''rule is not available'', w)
       | Some old \<Rightarrow>
           if sr_version old \<noteq> version then (raise ConcurrentModificationError ''rule changed; review the new version'', w)
           else (case rbind (activated_value L (sr_value old) tests) (\<lambda>updated.
                       case history of None \<Rightarrow> Inr updated | Some h \<Rightarrow> with_revision h rule_id version updated) of
                   Inl e \<Rightarrow> (Inl e, w)
                 | Inr updated \<Rightarrow> put_record L ''rules'' rule_id (VDict updated) version w))"

definition disable_rule ::
  "stdlib \<Rightarrow> string \<Rightarrow> int \<Rightarrow> string \<Rightarrow> records_world \<Rightarrow> pyval result \<times> records_world" where
  "disable_rule L rule_id version key =
     command L key (VDict [(''operation'', VStr ''disable''), (''id'', VStr rule_id), (''version'', VInt version)]) (\<lambda>w.
       case rec_get (rw_store w) ''rules'' rule_id of
         None \<Rightarrow> (raise NotFoundError ''rule is not available'', w)
       | Some old \<Rightarrow> put_record L ''rules'' rule_id (VDict (dset ''state'' (VStr ''DISABLED'') (dict_of (sr_value old)))) version w)"

definition rollback_rule ::
  "stdlib \<Rightarrow> rule_history option \<Rightarrow> string \<Rightarrow> string \<Rightarrow> int \<Rightarrow> string \<Rightarrow> records_world \<Rightarrow> pyval result \<times> records_world" where
  "rollback_rule L history rule_id revision version key w =
     (case history of
        None \<Rightarrow> (raise ValidationError ''rule history is unavailable'', w)
      | Some h \<Rightarrow>
          command L key (VDict [(''operation'', VStr ''rollback''), (''id'', VStr rule_id), (''revision'', VStr revision),
                                (''version'', VInt version)]) (\<lambda>w.
            case rec_get (rw_store w) ''rules'' rule_id of
              None \<Rightarrow> (raise NotFoundError ''rule is not available'', w)
            | Some old \<Rightarrow>
                if sr_version old \<noteq> version then (raise ConcurrentModificationError ''rule changed; review the new version'', w)
                else (case rbind (rh_read h revision rule_id) (\<lambda>historical.
                            with_revision h rule_id version
                              (dset ''rollback_from'' (VStr revision) (dset ''state'' (VStr ''CANDIDATE'') historical))) of
                        Inl e \<Rightarrow> (Inl e, w)
                      | Inr v \<Rightarrow> put_record L ''rules'' rule_id (VDict v) version w)) w)"

definition rule_state :: "store_record \<Rightarrow> pyval option" where
  "rule_state r = dget (dict_of (sr_value r)) ''state''"

definition active_rules :: "records_world \<Rightarrow> store_record list" where
  "active_rules w = filter (\<lambda>r. rule_state r = Some (VStr ''ACTIVE'')) (rec_list (rw_store w) ''rules'')"

definition rules_snapshot :: "records_world \<Rightarrow> (string \<times> pyval) list \<Rightarrow> store_record list" where
  "rules_snapshot w metadata =
     filter (\<lambda>r. scope_matches (dict_of (case dget (dict_of (sr_value r)) ''scope'' of None \<Rightarrow> VNone | Some v \<Rightarrow> v)) metadata) (active_rules w)"

section \<open>Events (event\_delivery.py)\<close>

definition bounded_str :: "int \<Rightarrow> pyval \<Rightarrow> bool" where
  "bounded_str n v = (case v of VStr s \<Rightarrow> s \<noteq> [] \<and> int (length s) \<le> n | _ \<Rightarrow> False)"

definition str_of :: "pyval \<Rightarrow> string" where
  "str_of v = (case v of VStr s \<Rightarrow> s | _ \<Rightarrow> [])"

text \<open>\<open>from_iso\<close> is \<open>datetime.fromisoformat\<close>: None for a ValueError, Some Naive without an offset.\<close>

definition check_event :: "stdlib \<Rightarrow> (string \<Rightarrow> datetime option) \<Rightarrow> pyval \<Rightarrow> string result" where
  "check_event L from_iso event =
     (case event of
        VDict d \<Rightarrow>
          (case (dget d ''type'', dget d ''source_dedupe_key'', dget d ''occurred_at'', dget d ''payload'') of
             (Some ty, Some (VStr dedupe), Some (VStr ts), Some (VDict _)) \<Rightarrow>
               ensure (dkeys d = {''type'', ''source_dedupe_key'', ''occurred_at'', ''payload''} \<and> bounded_str 128 ty)
                 ValidationError ''domain event is incomplete''
                (ensure (case from_iso ts of Some (Aware _) \<Rightarrow> True | _ \<Rightarrow> False)
                   ValidationError ''event time must be an aware ISO timestamp''
                  (rbind (fingerprint L event) (\<lambda>_. Inr dedupe)))
           | _ \<Rightarrow> raise ValidationError ''domain event is incomplete'')
      | _ \<Rightarrow> raise ValidationError ''domain event is incomplete'')"

definition check_batch ::
  "stdlib \<Rightarrow> (string \<Rightarrow> datetime option) \<Rightarrow> (string \<times> pyval) list \<Rightarrow> (pyval list \<times> pyval) result" where
  "check_batch L from_iso batch =
     (case (dget batch ''events'', dget batch ''source_dedupe_keys'') of
        (Some (VList events), Some (VList keys)) \<Rightarrow>
          (let next_cursor = (case dget batch ''next_cursor'' of None \<Rightarrow> VNone | Some c \<Rightarrow> c) in
           ensure (int (length events) \<le> 100 \<and> list_all (bounded_str 256) keys \<and> distinct (map str_of keys) \<and>
                   (case next_cursor of VNone \<Rightarrow> True | VStr c \<Rightarrow> int (length c) \<le> 10000 | _ \<Rightarrow> False))
             ValidationError ''event batch is incomplete''
            (rbind (rmap (check_event L from_iso) events) (\<lambda>event_keys.
              ensure (distinct event_keys \<and> set event_keys = set (map str_of keys)) ValidationError
                ''event dedupe keys do not match the batch'' (Inr (events, next_cursor)))))
      | _ \<Rightarrow> raise ValidationError ''event batch is incomplete'')"

definition deliver_event ::
  "stdlib \<Rightarrow> (pyval \<Rightarrow> string \<Rightarrow> unit result) option \<Rightarrow> string \<Rightarrow> (string \<times> pyval) list \<Rightarrow> pyval \<Rightarrow> records_world
   \<Rightarrow> bool result \<times> records_world" where
  "deliver_event L sink source payload event w =
     (case fingerprint L (VDict [(''source'', VStr source),
             (''dedupe'', case dget (dict_of event) ''source_dedupe_key'' of None \<Rightarrow> VNone | Some k \<Rightarrow> k)]) of
        Inl e \<Rightarrow> (Inl e, w)
      | Inr identity \<Rightarrow>
          (case rec_get (rw_store w) ''domain-events'' identity of
             Some existing \<Rightarrow>
               if \<not> py_eq (case dget (dict_of (sr_value existing)) ''event'' of None \<Rightarrow> VNone | Some v \<Rightarrow> v) event
               then (raise ValidationError ''immutable domain event changed'', w) else (Inr False, w)
           | None \<Rightarrow>
               sbind (put_record L ''domain-events'' identity
                 (VDict [(''source'', VStr source),
                         (''extension_version'', case dget payload ''extension_version'' of None \<Rightarrow> VNone | Some v \<Rightarrow> v),
                         (''event'', event)]) 0 w) (\<lambda>_ w'.
                 case sink of
                   None \<Rightarrow> (Inr True, w')
                 | Some f \<Rightarrow>
                     let message = VDict (fold (\<lambda>(k, v) d. dset k v d) payload (dict_of event)) in
                     (rbind (f message identity) (\<lambda>_. Inr True),
                      w'\<lparr>rw_delivered := rw_delivered w' @ [(message, identity)]\<rparr>))))"

fun deliver_events ::
  "stdlib \<Rightarrow> (pyval \<Rightarrow> string \<Rightarrow> unit result) option \<Rightarrow> string \<Rightarrow> (string \<times> pyval) list \<Rightarrow> pyval list \<Rightarrow> int \<Rightarrow> records_world
   \<Rightarrow> int result \<times> records_world" where
  "deliver_events L sink source payload [] added w = (Inr added, w)"
| "deliver_events L sink source payload (e # es) added w =
     sbind (deliver_event L sink source payload e w) (\<lambda>new w'.
       deliver_events L sink source payload es (if new then added + 1 else added) w')"

definition collect_events ::
  "stdlib \<Rightarrow> (string \<Rightarrow> datetime option) \<Rightarrow> (pyval \<Rightarrow> (string \<times> pyval) list result) \<Rightarrow> (pyval \<Rightarrow> string \<Rightarrow> unit result) option
   \<Rightarrow> (string \<times> pyval) list \<Rightarrow> string \<Rightarrow> records_world \<Rightarrow> pyval result \<times> records_world" where
  "collect_events L from_iso poll sink payload job w =
     (if dkeys payload \<noteq> {''extension_id'', ''extension_version'', ''source_id''} \<or>
         \<not> list_all (\<lambda>(_, v). bounded_str 128 v) payload
      then (raise ValidationError ''invalid event source binding'', w)
      else
        let source = str_of (the (dget payload ''extension_id'')) @ '':'' @ str_of (the (dget payload ''source_id'')) in
        command L (''poll-job:'' @ job) (VDict payload) (\<lambda>w.
          let old = rec_get (rw_store w) ''event-cursors'' source;
              cursor = (case old of None \<Rightarrow> VNone | Some r \<Rightarrow> (case dget (dict_of (sr_value r)) ''cursor'' of None \<Rightarrow> VNone | Some c \<Rightarrow> c)) in
          case rbind (poll cursor) (check_batch L from_iso) of
            Inl e \<Rightarrow> (Inl e, w)
          | Inr (events, next_cursor) \<Rightarrow>
              sbind (deliver_events L sink source payload events 0 w) (\<lambda>added w'.
              sbind (put_record L ''event-cursors'' source
                  (VDict [(''cursor'', next_cursor), (''extension_version'', the (dget payload ''extension_version''))])
                  (case old of None \<Rightarrow> 0 | Some r \<Rightarrow> sr_version r) w') (\<lambda>_ w'.
                (Inr (VDict [(''added'', VInt added), (''source'', VStr source)]), w')))) w)"

section \<open>Commands are idempotent\<close>

definition command_run ::
  "stdlib \<Rightarrow> records_world \<Rightarrow> string \<Rightarrow> pyval \<times> (records_world \<Rightarrow> pyval result \<times> records_world) \<Rightarrow> pyval result \<times> records_world" where
  "command_run L w key q = command L key (fst q) (snd q) w"

interpretation record_commands: command_log "\<lambda>_. True" "\<lambda>w. rc_commands (rw_store w)" "\<lambda>q. projr (fingerprint L (fst q))"
  "\<lambda>f q. fingerprint L (fst q) = Inr f" "\<lambda>k q. k \<noteq> [] \<and> int (length k) \<le> 256" "\<lambda>v :: pyval. v" "command_run L" for L
proof
  fix s s' :: records_world and k a and q :: "pyval \<times> (records_world \<Rightarrow> pyval result \<times> records_world)"
  assume "rc_commands (rw_store s) k = None" "command_run L s k q = (Inr a, s')"
  then show "rc_commands (rw_store s') k = Some (projr (fingerprint L (fst q)), a)"
    by (auto simp: command_run_def command_def sbind_eq_Inr raise_def split: if_splits sum.splits)
next
  fix s :: records_world and k f i and q :: "pyval \<times> (records_world \<Rightarrow> pyval result \<times> records_world)"
  assume r: "rc_commands (rw_store s) k = Some (f, i)"
  { assume "fingerprint L (fst q) = Inr f" "k \<noteq> [] \<and> int (length k) \<le> 256"
    with r show "\<exists>a. command_run L s k q = (Inr a, s) \<and> a = i" by (simp add: command_run_def command_def) }
  { assume "\<not> fingerprint L (fst q) = Inr f"
    with r show "\<exists>e. command_run L s k q = (Inl e, s)"
      by (cases "fingerprint L (fst q)") (auto simp: command_run_def command_def raise_def) }
qed

section \<open>Sequences of calls\<close>

datatype records_op =
    R_Propose string "(string \<times> pyval) list" "(string \<times> pyval) list" string
  | R_Activate "rule_history option" string int "(string \<times> pyval) list list" string
  | R_Disable string int string
  | R_Rollback "rule_history option" string string int string
  | R_Collect "pyval \<Rightarrow> (string \<times> pyval) list result" "(pyval \<Rightarrow> string \<Rightarrow> unit result) option" "(string \<times> pyval) list" string

fun records_apply :: "stdlib \<Rightarrow> (string \<Rightarrow> datetime option) \<Rightarrow> records_op \<Rightarrow> records_world \<Rightarrow> records_world" where
  "records_apply L fiso (R_Propose uid scope prefs key) w = snd (propose_rule L uid scope prefs key w)"
| "records_apply L fiso (R_Activate h i version tests key) w = snd (activate_rule L h i version tests key w)"
| "records_apply L fiso (R_Disable i version key) w = snd (disable_rule L i version key w)"
| "records_apply L fiso (R_Rollback h i revision version key) w = snd (rollback_rule L h i revision version key w)"
| "records_apply L fiso (R_Collect poll sink payload job) w = snd (collect_events L fiso poll sink payload job w)"

definition empty_records :: records_world where
  "empty_records = \<lparr>rw_store = empty_store, rw_jobs = empty_queue, rw_delivered = []\<rparr>"

definition records_after :: "stdlib \<Rightarrow> (string \<Rightarrow> datetime option) \<Rightarrow> records_op list \<Rightarrow> records_world" where
  "records_after L fiso ops = fold (records_apply L fiso) ops empty_records"

text \<open>
  A property of the stored records and deliveries that does not mention receipts survives a command
  as soon as its action keeps it.
\<close>

definition receipt_free :: "(records_world \<Rightarrow> bool) \<Rightarrow> bool" where
  "receipt_free P \<longleftrightarrow> (\<forall>w c. P (w\<lparr>rw_store := (rw_store w)\<lparr>rc_commands := c\<rparr>\<rparr>) = P w)"

lemma command_keeps:
  assumes "receipt_free P" "P w" "\<And>w. P w \<Longrightarrow> P (snd (action w))"
  shows "P (snd (command L key request action w))"
proof -
  have "P (snd (sbind (action w) (\<lambda>result w'. (Inr result, w'\<lparr>rw_store := (rw_store w')\<lparr>rc_commands :=
      (rc_commands (rw_store w'))(key \<mapsto> (digest, result))\<rparr>\<rparr>))))" for digest
    by (rule snd_sbind) (use assms in \<open>simp_all add: receipt_free_def\<close>)
  with assms(2) show ?thesis by (auto simp: command_def split: sum.splits option.splits)
qed

lemma put_record_cases:
  assumes "put_record L bucket key v expected w = (res, w')"
  obtains (failed) e where "res = Inl e" "w' = w"
  | (stored) r where "r = \<lparr>sr_id = key, sr_version = expected + 1, sr_value = v\<rparr>" "res = Inr (record_dict r)"
      "w' = w\<lparr>rw_store := (rw_store w)\<lparr>rc_records := dset (bucket, key) r (rc_records (rw_store w))\<rparr>\<rparr>"
      "(case rec_get (rw_store w) bucket key of None \<Rightarrow> 0 | Some old \<Rightarrow> sr_version old) = expected"
proof (cases "fst (rec_put L (rw_store w) bucket key v expected)")
  case (Inl e)
  then have "rec_put L (rw_store w) bucket key v expected = (Inl e, rw_store w)"
    by (auto simp: rec_put_def Let_def split: sum.splits if_splits)
  with assms show ?thesis by (intro failed) (auto simp: put_record_def in_store_def)
next
  case (Inr r)
  then have "rec_put L (rw_store w) bucket key v expected = (Inr r, (rw_store w)\<lparr>rc_records := dset (bucket, key) r (rc_records (rw_store w))\<rparr>)"
    "r = \<lparr>sr_id = key, sr_version = expected + 1, sr_value = v\<rparr>"
    "(case rec_get (rw_store w) bucket key of None \<Rightarrow> 0 | Some old \<Rightarrow> sr_version old) = expected"
    by (auto simp: rec_put_def Let_def split: sum.splits if_splits)
  with assms show ?thesis by (intro stored) (auto simp: put_record_def in_store_def)
qed

section \<open>Rules\<close>

definition tested :: "pyval \<Rightarrow> bool" where
  "tested v \<longleftrightarrow> (\<exists>d scope prefs tests. v = VDict d \<and> dget d ''scope'' = Some (VDict scope) \<and>
     dget d ''preferences'' = Some (VDict prefs) \<and> validate_rule scope prefs = Inr () \<and>
     dget d ''tests'' = Some (VList (map VDict tests)) \<and> (\<exists>bs. rmap (check_test scope) tests = Inr bs \<and> set bs = {False, True}))"

definition rules_inv :: "records_world \<Rightarrow> bool" where
  "rules_inv w \<longleftrightarrow> (\<forall>k r. ((''rules'', k), r) \<in> set (rc_records (rw_store w)) \<longrightarrow>
     rule_state r = Some (VStr ''ACTIVE'') \<longrightarrow> tested (sr_value r))"

lemma rules_inv_free: "receipt_free rules_inv"
  by (simp add: receipt_free_def rules_inv_def)

lemma rules_inv_put:
  assumes "rules_inv w" "bucket = ''rules'' \<Longrightarrow> dget (dict_of v) ''state'' = Some (VStr ''ACTIVE'') \<Longrightarrow> tested v"
  shows "rules_inv (snd (put_record L bucket key v expected w))"
proof -
  obtain res w' where p: "put_record L bucket key v expected w = (res, w')" by fastforce
  then show ?thesis
  proof (cases rule: put_record_cases)
    case (stored r)
    then have "set (rc_records (rw_store w')) \<subseteq> insert ((bucket, key), r) (set (rc_records (rw_store w)))"
      by (simp add: set_dset)
    then show ?thesis
      unfolding rules_inv_def p snd_conv using assms stored(1) by (auto simp: rules_inv_def rule_state_def)
  qed (use p assms(1) in simp)
qed

lemma item_dict_Inr: "item_dict d k = Inr e \<longleftrightarrow> dget d k = Some (VDict e)"
  by (auto simp: item_dict_def item_def rbind_eq_Inr split: option.splits pyval.splits)

lemma activated_tested:
  assumes "activated_value L v tests = Inr u"
  shows "tested (VDict u)"
proof (cases v)
  case (VDict d)
  from assms obtain scope prefs z bs digest where d: "item_dict d ''scope'' = Inr scope" "item_dict d ''preferences'' = Inr prefs"
    "validate_rule scope prefs = Inr z" "rmap (check_test scope) tests = Inr bs" "set bs = {False, True}"
    and u: "(Inr (dset ''tested_digest'' (VStr digest) (dset ''tests'' (VList (map VDict tests)) (dset ''state'' (VStr ''ACTIVE'') d)))
       :: (string \<times> pyval) list result) = Inr u"
    unfolding VDict activated_value_def pyval.case rbind_eq_Inr ensure_eq_Inr by (elim exE conjE) (rule that)
  from u have "u = dset ''tested_digest'' (VStr digest) (dset ''tests'' (VList (map VDict tests)) (dset ''state'' (VStr ''ACTIVE'') d))"
    by (simp only: sum.inject)
  with d show ?thesis by (simp_all add: tested_def item_dict_Inr, blast)
qed (use assms in \<open>simp_all add: activated_value_def\<close>)

lemma tested_cong:
  assumes "\<And>k. k \<in> {''scope'', ''preferences'', ''tests''} \<Longrightarrow> dget u k = dget v k" "tested (VDict v)"
  shows "tested (VDict u)"
proof -
  have "dget u ''scope'' = dget v ''scope''" "dget u ''preferences'' = dget v ''preferences''" "dget u ''tests'' = dget v ''tests''"
    using assms(1) by blast+
  with assms(2) show ?thesis unfolding tested_def by (simp only: pyval.inject) metis
qed

lemma tested_revision:
  assumes "with_revision h i version v = Inr u" "tested (VDict v)"
  shows "tested (VDict u)"
proof (rule tested_cong [OF _ assms(2)])
  show "dget u k = dget v k" if "k \<in> {''scope'', ''preferences'', ''tests''}" for k
    using assms(1) that by (auto simp: with_revision_def rbind_eq_Inr)
qed

lemma not_active: "dget (dict_of (VDict (dset ''state'' (VStr t) d))) ''state'' = Some (VStr t)"
  by (simp add: dict_of_def)

text \<open>Delivery keeps whatever storing the event and noting the delivery keep.\<close>

lemma deliver_event_keeps:
  assumes "P w" "\<And>k v. rec_get (rw_store w) ''domain-events'' k = None \<Longrightarrow> P (snd (put_record L ''domain-events'' k v 0 w))"
    and "\<And>k v r w' m. rec_get (rw_store w) ''domain-events'' k = None \<Longrightarrow>
           put_record L ''domain-events'' k v 0 w = (Inr r, w') \<Longrightarrow> P (w'\<lparr>rw_delivered := rw_delivered w' @ [(m, k)]\<rparr>)"
  shows "P (snd (deliver_event L sink source payload e w))"
proof (cases "fingerprint L (VDict [(''source'', VStr source),
             (''dedupe'', case dget (dict_of e) ''source_dedupe_key'' of None \<Rightarrow> VNone | Some k \<Rightarrow> k)])")
  case (Inl x)
  then show ?thesis using assms(1) by (simp add: deliver_event_def)
next
  case (Inr i)
  show ?thesis
  proof (cases "rec_get (rw_store w) ''domain-events'' i")
    case (Some old)
    then show ?thesis unfolding deliver_event_def Inr sum.case Some option.case using assms(1) by (simp split: if_split)
  next
    case None
    define v where "v = VDict [(''source'', VStr source),
      (''extension_version'', case dget payload ''extension_version'' of None \<Rightarrow> VNone | Some v \<Rightarrow> v), (''event'', e)]"
    obtain res w' where p: "put_record L ''domain-events'' i v 0 w = (res, w')" by fastforce
    have pw: "P w'" using assms(2) [OF None, of v] p by simp
    show ?thesis
    proof (cases res)
      case res: (Inl x)
      then show ?thesis unfolding deliver_event_def Inr sum.case None option.case v_def [symmetric] p res sbind_simps using pw by simp
    next
      case res: (Inr r)
      show ?thesis
        unfolding deliver_event_def Inr sum.case None option.case v_def [symmetric] p res sbind_simps Let_def
        using pw assms(3) [OF None p [unfolded res]] by (cases sink) simp_all
    qed
  qed
qed

lemma deliver_event_rules:
  assumes "rules_inv w"
  shows "rules_inv (snd (deliver_event L sink source payload e w))"
proof (rule deliver_event_keeps)
  have put: "rules_inv (snd (put_record L ''domain-events'' k v 0 w))" for k v by (rule rules_inv_put [OF assms]) simp
  then show "rules_inv (snd (put_record L ''domain-events'' k v 0 w))" for k v .
  show "rules_inv (w'\<lparr>rw_delivered := rw_delivered w' @ [(m, k)]\<rparr>)" if "put_record L ''domain-events'' k v 0 w = (Inr r, w')" for k v r w' m
    using put [of k v] that by (simp add: rules_inv_def)
qed (rule assms)

lemma deliver_events_rules: "rules_inv w \<Longrightarrow> rules_inv (snd (deliver_events L sink source payload es n w))"
proof (induction es arbitrary: n w)
  case (Cons e es)
  have "rules_inv (snd (sbind (deliver_event L sink source payload e w) (\<lambda>new w'.
      deliver_events L sink source payload es (if new then n + 1 else n) w')))"
    by (rule snd_sbind) (auto intro: Cons.IH deliver_event_rules Cons.prems)
  then show ?case by simp
qed simp

lemma collect_keeps:
  assumes "receipt_free P" "P w" "\<And>es n w source. P w \<Longrightarrow> P (snd (deliver_events L sink source payload es n w))"
    and "\<And>k v n w. P w \<Longrightarrow> P (snd (put_record L ''event-cursors'' k v n w))"
  shows "P (snd (collect_events L fiso poll sink payload job w))"
proof -
  have act: "P (snd (case rbind (poll cursor) (check_batch L fiso) of Inl e \<Rightarrow> (Inl e, w)
      | Inr (events, next_cursor) \<Rightarrow>
          sbind (deliver_events L sink source payload events 0 w) (\<lambda>added w'.
          sbind (put_record L ''event-cursors'' source (VDict [(''cursor'', next_cursor), (''extension_version'', ev)]) n w') (\<lambda>_ w'.
            (Inr (VDict [(''added'', VInt added), (''source'', VStr source)]), w')))))"
    if "P w" for cursor source ev n w
  proof (cases "rbind (poll cursor) (check_batch L fiso)")
    case (Inr x)
    obtain events next_cursor where x: "x = (events, next_cursor)" by fastforce
    show ?thesis
      unfolding Inr x sum.case prod.case
      by (rule snd_sbind, rule snd_sbind) (simp_all add: assms(3,4) that)
  qed (simp add: that)
  show ?thesis
    unfolding collect_events_def Let_def
    using assms(2) by (auto intro!: command_keeps [OF assms(1,2)] act)
qed

lemma records_apply_rules: "rules_inv w \<Longrightarrow> rules_inv (records_apply L fiso op w)"
proof (cases op)
  case (R_Propose uid scope prefs key)
  assume "rules_inv w"
  then show ?thesis
    by (auto simp: R_Propose propose_rule_def dict_of_def intro!: command_keeps [OF rules_inv_free] rules_inv_put split: sum.split)
next
  case (R_Activate h i version tests key)
  assume "rules_inv w"
  then show ?thesis
    unfolding R_Activate records_apply.simps activate_rule_def
    by (rule command_keeps [OF rules_inv_free])
       (auto intro!: rules_inv_put dest: activated_tested tested_revision simp: rbind_eq_Inr split: option.split sum.split option.splits)
next
  case (R_Disable i version key)
  assume "rules_inv w"
  then show ?thesis
    unfolding R_Disable records_apply.simps disable_rule_def
    by (rule command_keeps [OF rules_inv_free]) (auto intro!: rules_inv_put simp: not_active split: option.split)
next
  case (R_Rollback h i revision version key)
  assume "rules_inv w"
  then show ?thesis
    unfolding R_Rollback records_apply.simps rollback_rule_def
    by (auto intro!: command_keeps [OF rules_inv_free] rules_inv_put simp: dict_of_def rbind_eq_Inr with_revision_def
          split: option.split sum.split)
next
  case (R_Collect poll sink payload job)
  assume "rules_inv w"
  then show ?thesis
    unfolding R_Collect records_apply.simps
    by (rule collect_keeps [OF rules_inv_free]) (auto intro: deliver_events_rules rules_inv_put)
qed

lemma records_after_keeps:
  assumes "P empty_records" "\<And>op w. P w \<Longrightarrow> P (records_apply L fiso op w)"
  shows "P (records_after L fiso ops)"
proof -
  have "P w \<Longrightarrow> P (fold (records_apply L fiso) ops w)" for w
    by (induction ops arbitrary: w) (simp_all add: assms(2))
  then show ?thesis by (simp add: records_after_def assms(1))
qed

lemma rules_inv_reachable: "rules_inv (records_after L fiso ops)"
  by (rule records_after_keeps) (simp add: rules_inv_def empty_records_def empty_store_def, rule records_apply_rules)

section \<open>Deliveries\<close>

text \<open>No identity is handed over twice, and what was handed over is stored.\<close>

definition events_inv :: "records_world \<Rightarrow> bool" where
  "events_inv w \<longleftrightarrow> distinct (map snd (rw_delivered w)) \<and>
     (\<forall>i. i \<in> snd ` set (rw_delivered w) \<longrightarrow> rec_get (rw_store w) ''domain-events'' i \<noteq> None)"

lemma events_inv_free: "receipt_free events_inv"
  by (simp add: receipt_free_def events_inv_def rec_get_def)

lemma events_inv_put:
  assumes "events_inv w"
  shows "events_inv (snd (put_record L bucket key v expected w))"
proof -
  obtain res w' where p: "put_record L bucket key v expected w = (res, w')" by fastforce
  then show ?thesis
  proof (cases rule: put_record_cases)
    case (stored r)
    then show ?thesis using assms p by (auto simp: events_inv_def rec_get_def)
  qed (use p assms in simp)
qed

lemma deliver_event_events:
  assumes "events_inv w"
  shows "events_inv (snd (deliver_event L sink source payload e w))"
proof (rule deliver_event_keeps)
  show "events_inv (snd (put_record L ''domain-events'' k v 0 w))" for k v by (rule events_inv_put [OF assms])
  show "events_inv (w'\<lparr>rw_delivered := rw_delivered w' @ [(m, k)]\<rparr>)"
    if new: "rec_get (rw_store w) ''domain-events'' k = None" and p: "put_record L ''domain-events'' k v 0 w = (Inr r, w')" for k v r w' m
  proof -
    have "k \<notin> snd ` set (rw_delivered w)" using assms new by (auto simp: events_inv_def)
    moreover from p have "rw_delivered w' = rw_delivered w" "rec_get (rw_store w') ''domain-events'' k \<noteq> None"
      by (cases rule: put_record_cases; simp add: rec_get_def)+
    moreover have "events_inv w'" using events_inv_put [OF assms, of L "''domain-events''" k v 0] p by simp
    ultimately show ?thesis by (auto simp: events_inv_def)
  qed
qed (rule assms)

lemma deliver_events_events: "events_inv w \<Longrightarrow> events_inv (snd (deliver_events L sink source payload es n w))"
proof (induction es arbitrary: n w)
  case (Cons e es)
  have "events_inv (snd (sbind (deliver_event L sink source payload e w) (\<lambda>new w'.
      deliver_events L sink source payload es (if new then n + 1 else n) w')))"
    by (rule snd_sbind) (auto intro: Cons.IH deliver_event_events Cons.prems)
  then show ?case by simp
qed simp

lemma records_apply_events: "events_inv w \<Longrightarrow> events_inv (records_apply L fiso op w)"
proof (cases op)
  case (R_Propose uid scope prefs key)
  assume "events_inv w"
  then show ?thesis
    by (auto simp: R_Propose propose_rule_def intro!: command_keeps [OF events_inv_free] events_inv_put split: sum.split)
next
  case (R_Activate h i version tests key)
  assume "events_inv w"
  then show ?thesis
    unfolding R_Activate records_apply.simps activate_rule_def
    by (rule command_keeps [OF events_inv_free]) (auto intro!: events_inv_put split: option.split sum.split)
next
  case (R_Disable i version key)
  assume "events_inv w"
  then show ?thesis
    unfolding R_Disable records_apply.simps disable_rule_def
    by (rule command_keeps [OF events_inv_free]) (auto intro!: events_inv_put split: option.split)
next
  case (R_Rollback h i revision version key)
  assume "events_inv w"
  then show ?thesis
    unfolding R_Rollback records_apply.simps rollback_rule_def
    by (auto intro!: command_keeps [OF events_inv_free] events_inv_put split: option.split sum.split)
next
  case (R_Collect poll sink payload job)
  assume "events_inv w"
  then show ?thesis
    unfolding R_Collect records_apply.simps
    by (rule collect_keeps [OF events_inv_free]) (auto intro: deliver_events_events events_inv_put)
qed

lemma events_inv_reachable: "events_inv (records_after L fiso ops)"
  by (rule records_after_keeps) (simp add: events_inv_def empty_records_def, rule records_apply_events)

section \<open>Properties\<close>

text \<open>
  C25. Whatever sequence of rule proposals, activations, deactivations, rollbacks and event collections
  ran, every rule the snapshot for some metadata selects has a valid scope and valid preferences, carries
  the tests of its activation, which agree with its scope and contain a match and a mismatch, and its
  scope matches the metadata.
\<close>

theorem snapshot_rules_tested:
  "list_all (\<lambda>r. tested (sr_value r) \<and>
       scope_matches (dict_of (case dget (dict_of (sr_value r)) ''scope'' of None \<Rightarrow> VNone | Some v \<Rightarrow> v)) metadata)
     (rules_snapshot (records_after L from_iso ops) metadata)"
  using rules_inv_reachable [of L from_iso ops]
  by (auto simp: list_all_iff rules_snapshot_def active_rules_def rec_list_def rules_inv_def)


end
