(* ===== verification/PA_Scheduling.thy ===== *)
theory PA_Scheduling
  imports PA_Records
begin

text \<open>
  \<open>core/scheduling.py\<close>: cron expressions, the next occurrence of one, and the scheduler that turns due
  schedules into poll jobs. The calendar of the time zones, \<open>datetime.isoformat\<close> and
  \<open>datetime.fromisoformat\<close> are parameters; time is in microseconds, as everywhere.
\<close>

section \<open>Cron expressions\<close>

definition cron_bounds :: "(int \<times> int) list" where
  "cron_bounds = [(0, 59), (0, 23), (1, 31), (1, 12), (0, 6)]"

definition cron_range :: "int \<Rightarrow> int \<Rightarrow> string \<Rightarrow> (int \<times> int) result" where
  "cron_range low high base =
     (if base = ''*'' then Inr (low, high)
      else case partition_char (CHR ''-'') base of
        (a, Some b) \<Rightarrow> if is_decimal a \<and> is_decimal b then Inr (decimal a, decimal b)
                       else raise ValidationError ''unsupported cron syntax''
      | (a, None) \<Rightarrow> if is_decimal a then Inr (decimal a, decimal a) else raise ValidationError ''unsupported cron syntax'')"

definition cron_item :: "int \<Rightarrow> int \<Rightarrow> string \<Rightarrow> int list result" where
  "cron_item low high part =
     (case partition_char (CHR ''/'') part of
        (base, raw_step) \<Rightarrow>
          ensure (case raw_step of None \<Rightarrow> True | Some r \<Rightarrow> is_decimal r \<and> 1 \<le> decimal r \<and> decimal r \<le> high + 1)
            ValidationError ''invalid cron step''
           (let step = (case raw_step of None \<Rightarrow> 1 | Some r \<Rightarrow> decimal r) in
            rbind (cron_range low high base) (\<lambda>(start, stop).
              ensure (low \<le> start \<and> start \<le> stop \<and> stop \<le> high) ValidationError ''cron range is invalid''
                (Inr (filter (\<lambda>x. (x - start) mod step = 0) [start..stop])))))"

definition cron_field :: "string \<times> int \<times> int \<Rightarrow> int set result" where
  "cron_field f =
     (case f of (field, low, high) \<Rightarrow>
        rbind (rmap (cron_item low high) (split_char (CHR '','') field)) (\<lambda>parts.
          ensure (concat parts \<noteq> []) ValidationError ''empty cron field'' (Inr (set (concat parts)))))"

definition cron_fields :: "string \<Rightarrow> int set list result" where
  "cron_fields expression =
     ensure (length (words expression) = 5 \<and> int (length expression) \<le> 128) ValidationError ''cron must have five numeric fields''
       (rmap cron_field (zip (words expression) cron_bounds))"

text \<open>The local calendar fields a cron expression looks at; \<open>lt_weekday\<close> counts from Monday.\<close>

record local_time =
  lt_minute :: int
  lt_hour :: int
  lt_day :: int
  lt_month :: int
  lt_weekday :: int

record zone_db =
  zi_open :: "string \<Rightarrow> unit result"
  zi_local :: "string \<Rightarrow> time \<Rightarrow> local_time"

definition cron_matches :: "int set list \<Rightarrow> local_time \<Rightarrow> bool" where
  "cron_matches fs local =
     (let dow = (lt_weekday local + 1) mod 7;
          day = (lt_day local \<in> fs ! 2); weekday = (dow \<in> fs ! 4);
          day = (if card (fs ! 2) \<noteq> 31 \<and> card (fs ! 4) \<noteq> 7 then day \<or> weekday else day \<and> weekday) in
      lt_minute local \<in> fs ! 0 \<and> lt_hour local \<in> fs ! 1 \<and> lt_month local \<in> fs ! 3 \<and> day)"

function cron_scan :: "(time \<Rightarrow> bool) \<Rightarrow> int \<Rightarrow> time \<Rightarrow> time result" where
  "cron_scan matches n cursor =
     (if n \<le> 0 then raise ValidationError ''cron has no occurrence within the supported one-year horizon''
      else if matches cursor then Inr cursor else cron_scan matches (n - 1) (cursor + minutes 1))"
  by pat_completeness auto
termination by (relation "measure (\<lambda>(m, n, c). nat n)") auto

declare cron_scan.simps [simp del]

definition aware :: "datetime \<Rightarrow> time result" where
  "aware v = (case v of Naive \<Rightarrow> raise ValidationError ''schedule time must be timezone aware'' | Aware t \<Rightarrow> Inr t)"

definition cron_horizon :: int where
  "cron_horizon = 527040"

definition next_minute :: "time \<Rightarrow> time" where
  "next_minute t = t - t mod minutes 1 + minutes 1"

definition cron_next :: "zone_db \<Rightarrow> string \<Rightarrow> datetime \<Rightarrow> string \<Rightarrow> time result" where
  "cron_next Z expression after timezone =
     rbind (cron_fields expression) (\<lambda>fs.
     rbind (zi_open Z timezone) (\<lambda>_.
     rbind (aware after) (\<lambda>t.
       cron_scan (\<lambda>c. cron_matches fs (zi_local Z timezone c)) cron_horizon (next_minute t))))"

section \<open>Configuration\<close>

text \<open>\<open>datetime.isoformat\<close> and \<open>datetime.fromisoformat\<close> of an aware instant and of a text.\<close>

record iso_format =
  iso_text :: "time \<Rightarrow> string"
  iso_parse :: "string \<Rightarrow> datetime option"

definition schedule_keys :: "string set" where
  "schedule_keys = {''id'', ''source_id'', ''extension_id'', ''extension_version'', ''interval_seconds'', ''cron'', ''timezone'',
     ''misfire_policy'', ''max_catch_up''}"

definition get_value :: "(string \<times> pyval) list \<Rightarrow> string \<Rightarrow> pyval" where
  "get_value d k = (case dget d k of None \<Rightarrow> VNone | Some v \<Rightarrow> v)"

definition ident_value :: "pyval \<Rightarrow> bool" where
  "ident_value v = (case v of VStr s \<Rightarrow> is_ident s | _ \<Rightarrow> False)"

definition int_between :: "int \<Rightarrow> int \<Rightarrow> pyval \<Rightarrow> bool" where
  "int_between low high v = (case v of VInt n \<Rightarrow> low \<le> n \<and> n \<le> high | _ \<Rightarrow> False)"

definition catch_up_value :: "(string \<times> pyval) list \<Rightarrow> pyval" where
  "catch_up_value d = (case dget d ''max_catch_up'' of None \<Rightarrow> VInt 1 | Some v \<Rightarrow> v)"

definition int_of :: "pyval \<Rightarrow> int" where
  "int_of v = (case v of VInt n \<Rightarrow> n | _ \<Rightarrow> 0)"

text \<open>\<open>v not in {"skip", "coalesce", "catch\_up"}\<close> for a value that may not be hashable.\<close>

definition check_policy :: "pyval \<Rightarrow> unit result" where
  "check_policy v =
     (case unhashable v of
        Some t \<Rightarrow> raise TypeError (''unhashable type: '' @ py_repr t)
      | None \<Rightarrow> ensure (v \<in> {VStr ''skip'', VStr ''coalesce'', VStr ''catch_up''}) ValidationError ''unsupported misfire policy'' (Inr ()))"

definition check_schedule :: "zone_db \<Rightarrow> (string \<times> pyval) list \<Rightarrow> unit result" where
  "check_schedule Z d =
     ensure (dkeys d \<subseteq> schedule_keys \<and>
             list_all (\<lambda>k. ident_value (get_value d k)) [''id'', ''source_id'', ''extension_id'', ''extension_version''])
       ValidationError ''schedule must target a declared read-only event source''
    (rbind (check_policy (get_value d ''misfire_policy'')) (\<lambda>_.
     ensure ((get_value d ''interval_seconds'' = VNone) \<noteq> (get_value d ''cron'' = VNone)) ValidationError
       ''choose one interval or cron expression''
    (ensure (get_value d ''interval_seconds'' = VNone \<or> int_between 30 31536000 (get_value d ''interval_seconds'')) ValidationError
       ''interval must be from 30 seconds to one year''
    (ensure (int_between 1 10 (catch_up_value d)) ValidationError ''catch-up must be bounded to one to ten polls''
    (case get_value d ''timezone'' of
       VStr timezone \<Rightarrow>
         (case zi_open Z timezone of
            Inl (c, m) \<Rightarrow> if isa c ZoneInfoNotFoundError \<or> isa c ValueError then raise ValidationError ''unknown timezone'' else Inl (c, m)
          | Inr _ \<Rightarrow> ensure (case get_value d ''cron'' of VNone \<Rightarrow> True | VStr _ \<Rightarrow> True | _ \<Rightarrow> False) ValidationError
                      ''cron must be a string'' (Inr ()))
     | _ \<Rightarrow> raise ValidationError ''an IANA timezone is required'')))))"

definition first_fire :: "zone_db \<Rightarrow> (string \<times> pyval) list \<Rightarrow> time \<Rightarrow> time result" where
  "first_fire Z d current =
     (case get_value d ''interval_seconds'' of
        VInt interval \<Rightarrow> Inr (current + seconds interval)
      | _ \<Rightarrow> cron_next Z (str_of (get_value d ''cron'')) (Aware current) (str_of (get_value d ''timezone'')))"

definition configure ::
  "stdlib \<Rightarrow> zone_db \<Rightarrow> iso_format \<Rightarrow> (string \<times> pyval) list \<Rightarrow> string \<Rightarrow> datetime \<Rightarrow> records_world \<Rightarrow> pyval result \<times> records_world" where
  "configure L Z F d key now w =
     (case rbind (check_schedule Z d) (\<lambda>_. rbind (aware now) (first_fire Z d)) of
        Inl e \<Rightarrow> (Inl e, w)
      | Inr next_at \<Rightarrow>
          command L key (VDict [(''operation'', VStr ''schedule''), (''definition'', VDict d)]) (\<lambda>w.
            let i = str_of (get_value d ''id'') in
            case rec_get (rw_store w) ''schedules'' i of
              Some _ \<Rightarrow> (raise ValidationError ''schedule already exists; disable it before replacement'', w)
            | None \<Rightarrow> put_record L ''schedules'' i
                (VDict [(''definition'', VDict d), (''next_at'', VStr (iso_text F next_at)), (''enabled'', VBool True)]) 0 w) w)"

section \<open>Ticks\<close>

text \<open>
  The quotient of \<open>total_seconds()\<close> by the interval is taken in floating point; it is the integral quotient
  as long as the distance is below \<open>2\<^sup>5\<^sup>3\<close> microseconds.
\<close>

definition interval_times :: "int \<Rightarrow> int \<Rightarrow> time \<Rightarrow> time \<Rightarrow> time list \<times> time" where
  "interval_times interval max_catch_up due current =
     (let missed = (current - due) div seconds interval;
          latest = due + seconds interval * missed;
          count = min (missed + 1) max_catch_up in
      (map (\<lambda>i. latest - seconds interval * i) (rev [0..count - 1]), latest + seconds interval))"

function cron_times ::
  "(time \<Rightarrow> time result) \<Rightarrow> int \<Rightarrow> int \<Rightarrow> time \<Rightarrow> time list \<Rightarrow> time \<Rightarrow> (time list \<times> time) result" where
  "cron_times next n max_catch_up current occurrences cursor =
     (if n \<le> 0 then raise ValidationError ''too many missed cron periods; explicit review required''
      else if current < cursor then Inr (occurrences, cursor)
      else rbind (next cursor) (\<lambda>cursor'.
        cron_times next (n - 1) max_catch_up current (last_n (nat max_catch_up) (occurrences @ [cursor])) cursor'))"
  by pat_completeness auto
termination by (relation "measure (\<lambda>(f, n, m, c, os, cu). nat n)") auto

declare cron_times.simps [simp del]

definition due_times :: "zone_db \<Rightarrow> (string \<times> pyval) list \<Rightarrow> time \<Rightarrow> time \<Rightarrow> (time list \<times> time) result" where
  "due_times Z d due current =
     (case get_value d ''interval_seconds'' of
        VInt interval \<Rightarrow> Inr (interval_times interval (int_of (catch_up_value d)) due current)
      | _ \<Rightarrow>
          cron_times (\<lambda>c. cron_next Z (str_of (get_value d ''cron'')) (Aware c) (str_of (get_value d ''timezone'')))
            1440 (int_of (catch_up_value d)) current [] due)"

definition misfire :: "pyval \<Rightarrow> time \<Rightarrow> time \<Rightarrow> time list \<Rightarrow> time list" where
  "misfire policy due current occurrences =
     (if policy = VStr ''skip'' \<and> current - due > seconds 60 then []
      else if policy \<noteq> VStr ''catch_up'' then [last occurrences] else occurrences)"

definition planned :: "zone_db \<Rightarrow> (string \<times> pyval) list \<Rightarrow> time \<Rightarrow> time \<Rightarrow> (time list \<times> time) result" where
  "planned Z d due current =
     rbind (due_times Z d due current) (\<lambda>(occurrences, next_at).
       Inr (misfire (get_value d ''misfire_policy'') due current occurrences, next_at))"

text \<open>\<open>uid\<close> draws the identifier of the job of an idempotency key.\<close>

fun enqueue_polls ::
  "iso_format \<Rightarrow> (string \<Rightarrow> string) \<Rightarrow> time \<Rightarrow> string \<Rightarrow> (string \<times> pyval) list \<Rightarrow> time list \<Rightarrow> records_world \<Rightarrow> unit result \<times> records_world" where
  "enqueue_polls F uid clock i d [] w = (Inr (), w)"
| "enqueue_polls F uid clock i d (t # ts) w =
     (let key = ''schedule:'' @ i @ '':'' @ iso_text F t in
      case enqueue (rw_jobs w) clock (uid key) ''event.poll''
             [(''extension_id'', get_value d ''extension_id''), (''extension_version'', get_value d ''extension_version''),
              (''source_id'', get_value d ''source_id'')] key None 5 of
        (Inl e, q) \<Rightarrow> (Inl e, w\<lparr>rw_jobs := q\<rparr>)
      | (Inr _, q) \<Rightarrow> enqueue_polls F uid clock i d ts (w\<lparr>rw_jobs := q\<rparr>))"

definition fire ::
  "stdlib \<Rightarrow> iso_format \<Rightarrow> (string \<Rightarrow> string) \<Rightarrow> time \<Rightarrow> store_record \<Rightarrow> (string \<times> pyval) list \<Rightarrow> time list \<Rightarrow> time
   \<Rightarrow> records_world \<Rightarrow> pyval result \<times> records_world" where
  "fire L F uid clock r d ts next_at =
     command L (''schedule-tick:'' @ sr_id r @ '':'' @ int_str (sr_version r))
       (VDict [(''next_at'', VStr (iso_text F next_at)), (''times'', VList (map (\<lambda>t. VStr (iso_text F t)) ts))]) (\<lambda>w.
         sbind (enqueue_polls F uid clock (sr_id r) d ts w) (\<lambda>_ w.
         sbind (put_record L ''schedules'' (sr_id r) (VDict (dset ''next_at'' (VStr (iso_text F next_at)) (dict_of (sr_value r))))
                  (sr_version r) w) (\<lambda>_ w.
           (Inr (VDict [(''fired'', VInt (int (length ts)))]), w))))"

text \<open>
  What a tick does with one record: nothing, or the times it fires and the next one. Only \<open>configure\<close> and \<open>tick\<close>
  write records of this bucket, so the keys a tick reads are there.
\<close>

definition tick_plan ::
  "zone_db \<Rightarrow> iso_format \<Rightarrow> time \<Rightarrow> store_record \<Rightarrow> ((string \<times> pyval) list \<times> time list \<times> time) option result" where
  "tick_plan Z F current r =
     (let v = dict_of (sr_value r) in
      if get_value v ''enabled'' \<noteq> VBool True then Inr None
      else case iso_parse F (str_of (get_value v ''next_at'')) of
        None \<Rightarrow> raise ValueError ''Invalid isoformat string''
      | Some Naive \<Rightarrow> raise TypeError ''can't compare offset-naive and offset-aware datetimes''
      | Some (Aware due) \<Rightarrow>
          if current < due then Inr None
          else (let d = dict_of (get_value v ''definition'') in
                rbind (planned Z d due current) (\<lambda>(ts, next_at). Inr (Some (d, ts, next_at)))))"

fun tick_records ::
  "stdlib \<Rightarrow> zone_db \<Rightarrow> iso_format \<Rightarrow> (string \<Rightarrow> string) \<Rightarrow> time \<Rightarrow> time \<Rightarrow> store_record list \<Rightarrow> int \<Rightarrow> records_world
   \<Rightarrow> int result \<times> records_world" where
  "tick_records L Z F uid clock current [] fired w = (Inr fired, w)"
| "tick_records L Z F uid clock current (r # rs) fired w =
     (case tick_plan Z F current r of
        Inl e \<Rightarrow> (Inl e, w)
      | Inr None \<Rightarrow> tick_records L Z F uid clock current rs fired w
      | Inr (Some (d, ts, next_at)) \<Rightarrow>
          sbind (fire L F uid clock r d ts next_at w) (\<lambda>result w.
            tick_records L Z F uid clock current rs (fired + int_of (get_value (dict_of result) ''fired'')) w))"

definition tick ::
  "stdlib \<Rightarrow> zone_db \<Rightarrow> iso_format \<Rightarrow> (string \<Rightarrow> string) \<Rightarrow> time \<Rightarrow> datetime \<Rightarrow> records_world \<Rightarrow> int result \<times> records_world" where
  "tick L Z F uid clock now w =
     (case aware now of
        Inl e \<Rightarrow> (Inl e, w)
      | Inr current \<Rightarrow> tick_records L Z F uid clock current (rec_list (rw_store w) ''schedules'') 0 w)"

section \<open>The next occurrence\<close>

lemma cron_scan_Inr:
  "cron_scan m n c = Inr t \<longleftrightarrow> (\<exists>k. 0 \<le> k \<and> k < n \<and> t = c + minutes k \<and> m t \<and> (\<forall>j. 0 \<le> j \<and> j < k \<longrightarrow> \<not> m (c + minutes j)))"
proof (induction m n c rule: cron_scan.induct)
  case (1 m n c)
  consider "n \<le> 0" | "0 < n" "m c" | "0 < n" "\<not> m c" by linarith
  then show ?case
  proof cases
    case 1
    then show ?thesis by (subst cron_scan.simps) auto
  next
    case 2
    have "k = 0" if "\<forall>j. 0 \<le> j \<and> j < k \<longrightarrow> \<not> m (c + minutes j)" "0 \<le> k" for k
      using that(1) [rule_format, of 0] that(2) 2(2) by (cases "k = 0") (auto simp: minutes_def seconds_def)
    with 2 show ?thesis by (subst cron_scan.simps) (auto simp: minutes_def seconds_def)
  next
    case 3
    have step: "c + minutes 1 + minutes k = c + minutes (k + 1)" for k by (simp add: minutes_def seconds_def)
    have "cron_scan m n c = Inr t \<longleftrightarrow> (\<exists>k. 0 \<le> k \<and> k < n - 1 \<and> t = c + minutes (k + 1) \<and> m t \<and>
        (\<forall>j. 0 \<le> j \<and> j < k \<longrightarrow> \<not> m (c + minutes (j + 1))))"
      using 3 "1.IH" by (subst cron_scan.simps) (simp add: step)
    also have "\<dots> \<longleftrightarrow> (\<exists>k. 0 \<le> k \<and> k < n \<and> t = c + minutes k \<and> m t \<and> (\<forall>j. 0 \<le> j \<and> j < k \<longrightarrow> \<not> m (c + minutes j)))"
    proof
      assume "\<exists>k. 0 \<le> k \<and> k < n - 1 \<and> t = c + minutes (k + 1) \<and> m t \<and> (\<forall>j. 0 \<le> j \<and> j < k \<longrightarrow> \<not> m (c + minutes (j + 1)))"
      then obtain k where k: "0 \<le> k" "k < n - 1" "t = c + minutes (k + 1)" "m t" "\<forall>j. 0 \<le> j \<and> j < k \<longrightarrow> \<not> m (c + minutes (j + 1))" by blast
      have "\<not> m (c + minutes j)" if "0 \<le> j" "j < k + 1" for j
        using that k(5) [rule_format, of "j - 1"] 3(2) by (cases "j = 0") (auto simp: minutes_def seconds_def)
      with k show "\<exists>k. 0 \<le> k \<and> k < n \<and> t = c + minutes k \<and> m t \<and> (\<forall>j. 0 \<le> j \<and> j < k \<longrightarrow> \<not> m (c + minutes j))"
        by (intro exI [of _ "k + 1"]) auto
    next
      assume "\<exists>k. 0 \<le> k \<and> k < n \<and> t = c + minutes k \<and> m t \<and> (\<forall>j. 0 \<le> j \<and> j < k \<longrightarrow> \<not> m (c + minutes j))"
      then obtain k where k: "0 \<le> k" "k < n" "t = c + minutes k" "m t" "\<forall>j. 0 \<le> j \<and> j < k \<longrightarrow> \<not> m (c + minutes j)" by blast
      then have "k \<noteq> 0" using 3(2) by (auto simp: minutes_def seconds_def)
      with k show "\<exists>k. 0 \<le> k \<and> k < n - 1 \<and> t = c + minutes (k + 1) \<and> m t \<and> (\<forall>j. 0 \<le> j \<and> j < k \<longrightarrow> \<not> m (c + minutes (j + 1)))"
        by (intro exI [of _ "k - 1"]) auto
    qed
    finally show ?thesis .
  qed
qed

text \<open>The whole minutes after an instant, by their distance from the first of them.\<close>

lemma whole_minute:
  "u mod minutes 1 = 0 \<and> a < u \<longleftrightarrow> (\<exists>j. 0 \<le> j \<and> u = next_minute a + minutes j)"
proof
  assume u: "u mod minutes 1 = 0 \<and> a < u"
  have pos: "0 < minutes 1" by (simp add: minutes_def seconds_def)
  define q where "q = u div minutes 1 - a div minutes 1 - 1"
  have ud: "u = (u div minutes 1) * minutes 1" using u by (metis add_0_right div_mult_mod_eq)
  have ad: "a = (a div minutes 1) * minutes 1 + a mod minutes 1" by simp
  have r: "0 \<le> a mod minutes 1" "a mod minutes 1 < minutes 1" using pos by simp_all
  have "a div minutes 1 < u div minutes 1"
  proof (rule ccontr)
    assume "\<not> a div minutes 1 < u div minutes 1"
    then have "(u div minutes 1) * minutes 1 \<le> (a div minutes 1) * minutes 1" using pos by simp
    with ud ad r(1) u show False by linarith
  qed
  then have "0 \<le> q" by (simp add: q_def)
  moreover have "u = next_minute a + minutes q"
  proof -
    have "minutes q = (u div minutes 1) * minutes 1 - (a div minutes 1) * minutes 1 - minutes 1"
      unfolding q_def minutes_def seconds_def by simp
    with ud ad show ?thesis unfolding next_minute_def by linarith
  qed
  ultimately show "\<exists>j. 0 \<le> j \<and> u = next_minute a + minutes j" by blast
next
  assume "\<exists>j. 0 \<le> j \<and> u = next_minute a + minutes j"
  then obtain j where j: "0 \<le> j" "u = next_minute a + minutes j" by blast
  have "a mod minutes 1 < minutes 1" "0 \<le> minutes j" using j(1) by (simp_all add: minutes_def seconds_def)
  moreover have "u mod minutes 1 = 0"
  proof -
    have "u = (a div minutes 1) * minutes 1 + minutes 1 + j * minutes 1"
      using j(2) by (simp add: next_minute_def minus_mod_eq_div_mult minutes_def seconds_def)
    then show ?thesis by simp
  qed
  ultimately show "u mod minutes 1 = 0 \<and> a < u" using j(2) by (simp add: next_minute_def)
qed

lemma minutes_mono: "minutes j < minutes k \<longleftrightarrow> j < k"
  by (simp add: minutes_def seconds_def)

lemma cron_next_Inr:
  assumes "cron_fields e = Inr fs" "zi_open Z tz = Inr ()"
  shows "cron_next Z e (Aware a) tz = Inr t \<longleftrightarrow>
    t mod minutes 1 = 0 \<and> a < t \<and> t < next_minute a + minutes cron_horizon \<and> cron_matches fs (zi_local Z tz t) \<and>
    (\<forall>u. u mod minutes 1 = 0 \<and> a < u \<and> u < t \<longrightarrow> \<not> cron_matches fs (zi_local Z tz u))"
proof -
  define m where "m = (\<lambda>u. cron_matches fs (zi_local Z tz u))"
  define c where "c = next_minute a"
  note minute = whole_minute [of _ a, folded c_def]
  have scan: "cron_next Z e (Aware a) tz = Inr t \<longleftrightarrow>
      (\<exists>k. 0 \<le> k \<and> k < cron_horizon \<and> t = c + minutes k \<and> m t \<and> (\<forall>j. 0 \<le> j \<and> j < k \<longrightarrow> \<not> m (c + minutes j)))"
    using assms by (simp add: cron_next_def aware_def cron_scan_Inr m_def c_def)
  have "(\<exists>k. 0 \<le> k \<and> k < cron_horizon \<and> t = c + minutes k \<and> m t \<and> (\<forall>j. 0 \<le> j \<and> j < k \<longrightarrow> \<not> m (c + minutes j))) \<longleftrightarrow>
    t mod minutes 1 = 0 \<and> a < t \<and> t < c + minutes cron_horizon \<and> m t \<and> (\<forall>u. u mod minutes 1 = 0 \<and> a < u \<and> u < t \<longrightarrow> \<not> m u)"
    (is "?scan \<longleftrightarrow> ?spec")
  proof
    assume ?scan
    then obtain k where k: "0 \<le> k" "k < cron_horizon" "t = c + minutes k" "m t" "\<forall>j. 0 \<le> j \<and> j < k \<longrightarrow> \<not> m (c + minutes j)" by blast
    have "\<not> m u" if "u mod minutes 1 = 0 \<and> a < u" "u < t" for u
    proof -
      from that(1) obtain j where "0 \<le> j" "u = c + minutes j" unfolding minute by blast
      with that(2) k(3,5) show ?thesis by (simp add: minutes_mono)
    qed
    moreover have "t mod minutes 1 = 0 \<and> a < t" unfolding minute using k(1,3) by blast
    ultimately show ?spec using k(2,3,4) by (simp add: minutes_mono)
  next
    assume spec: ?spec
    then have "t mod minutes 1 = 0 \<and> a < t" by (elim conjE) (intro conjI)
    then obtain k where k: "0 \<le> k" "t = c + minutes k" unfolding minute by blast
    have "\<not> m (c + minutes j)" if "0 \<le> j \<and> j < k" for j
    proof -
      have "(c + minutes j) mod minutes 1 = 0 \<and> a < c + minutes j" unfolding minute using that by blast
      then show ?thesis using spec that k(2) by (simp add: minutes_mono)
    qed
    moreover have "k < cron_horizon" "m t" using spec k(2) by (simp_all add: minutes_mono)
    ultimately show ?scan using k by blast
  qed
  with scan show ?thesis by (simp only: m_def c_def)
qed

lemma cron_next_later: "cron_next Z e (Aware a) tz = Inr t \<Longrightarrow> a < t"
proof -
  assume n: "cron_next Z e (Aware a) tz = Inr t"
  then obtain fs where "cron_fields e = Inr fs" "zi_open Z tz = Inr ()" by (auto simp: cron_next_def rbind_eq_Inr)
  from cron_next_Inr [OF this] n show "a < t" by blast
qed

lemma cron_scan_Inl: "cron_scan m n c = Inl e \<Longrightarrow> 0 \<le> k \<Longrightarrow> k < n \<Longrightarrow> \<not> m (c + minutes k)"
proof (induction m n c arbitrary: k rule: cron_scan.induct)
  case (1 m n c)
  from "1.prems" have n: "0 < n" "\<not> m c" "cron_scan m (n - 1) (c + minutes 1) = Inl e"
    by (auto simp: cron_scan.simps [of m n c] split: if_splits)
  show ?case
  proof (cases "k = 0")
    case True
    with n(2) show ?thesis by (simp add: minutes_def seconds_def)
  next
    case False
    with "1.IH" [OF _ n(2,3), of "k - 1"] n(1) "1.prems"(2,3) show ?thesis by (simp add: minutes_def seconds_def)
  qed
qed

section \<open>What a tick fires\<close>

lemma interval_times_ok:
  assumes "0 < interval" "1 \<le> m" "due \<le> current" "interval_times interval m due current = (ts, nxt)"
  shows "ts \<noteq> [] \<and> int (length ts) \<le> m \<and> sorted_wrt (<) ts \<and> (\<forall>t\<in>set ts. due \<le> t \<and> t \<le> current) \<and> current < nxt"
proof -
  define d where "d = seconds interval"
  define missed where "missed = (current - due) div d"
  define latest where "latest = due + d * missed"
  define count where "count = min (missed + 1) m"
  have d: "0 < d" using assms(1) by (simp add: d_def seconds_def)
  have ts: "ts = map (\<lambda>i. latest - d * i) (rev [0..count - 1])" "nxt = latest + d"
    using assms(4) by (simp_all add: interval_times_def d_def missed_def latest_def count_def Let_def)
  have missed: "0 \<le> missed" using assms(3) d by (simp add: missed_def pos_imp_zdiv_nonneg_iff)
  then have count: "1 \<le> count" "count \<le> missed + 1" "count \<le> m" using assms(2) by (auto simp: count_def)
  have div: "d * missed \<le> current - due" "current - due < d * missed + d"
    unfolding missed_def using d mult_div_mod_eq [of d "current - due"] pos_mod_bound [OF d, of "current - due"] pos_mod_sign [OF d, of "current - due"]
    by linarith+
  have in_range: "due \<le> latest - d * i \<and> latest - d * i \<le> current" if "0 \<le> i" "i \<le> count - 1" for i
  proof -
    have "d * i \<le> d * missed" "0 \<le> d * i" using that count(2) d by (simp_all add: mult_left_mono)
    with div show ?thesis by (simp add: latest_def)
  qed
  have "sorted_wrt (<) ts"
    unfolding ts using d by (auto simp: sorted_wrt_map sorted_wrt_rev intro: sorted_wrt_mono_rel [OF _ sorted_wrt_upto])
  moreover have "int (length ts) \<le> m" "ts \<noteq> []" using count by (simp_all add: ts)
  moreover have "current < nxt" using div by (simp add: ts latest_def)
  ultimately show ?thesis using in_range by (auto simp: ts)
qed

lemma last_n_snoc_sorted:
  assumes "sorted_wrt (<) (xs :: int list)" "\<forall>t\<in>set xs. t < c"
  shows "sorted_wrt (<) (last_n k (xs @ [c]))"
  using assms by (intro last_n_sorted) (auto simp: sorted_wrt_append)

lemma cron_times_ok:
  assumes "\<And>c c'. next c = Inr c' \<Longrightarrow> c < c'" "1 \<le> m"
  shows "cron_times next n m current os cursor = Inr (ts, nxt) \<Longrightarrow> sorted_wrt (<) os \<Longrightarrow> int (length os) \<le> m \<Longrightarrow>
    (\<forall>t\<in>set os. due \<le> t \<and> t \<le> current \<and> t < cursor) \<Longrightarrow> due \<le> cursor \<Longrightarrow> os \<noteq> [] \<or> cursor \<le> current \<Longrightarrow>
    ts \<noteq> [] \<and> int (length ts) \<le> m \<and> sorted_wrt (<) ts \<and> (\<forall>t\<in>set ts. due \<le> t \<and> t \<le> current) \<and> current < nxt"
proof (induction n arbitrary: os cursor rule: measure_induct_rule [where f = nat])
  case (less n)
  from less.prems(1) have n: "0 < n" by (subst (asm) cron_times.simps) (auto split: if_splits)
  show ?case
  proof (cases "current < cursor")
    case True
    with n less.prems(1) have "ts = os" "nxt = cursor" by (simp_all add: cron_times.simps)
    with less.prems True show ?thesis by auto
  next
    case False
    let ?os = "last_n (nat m) (os @ [cursor])"
    from False n less.prems(1) obtain c where c: "next cursor = Inr c" "cron_times next (n - 1) m current ?os c = Inr (ts, nxt)"
      by (subst (asm) cron_times.simps) (auto simp: rbind_eq_Inr)
    have "cursor < c" by (rule assms(1) [OF c(1)])
    moreover have "?os \<noteq> []" using assms(2) last_n_last [of "nat m" "os @ [cursor]"] by simp
    moreover have "\<forall>t\<in>set (os @ [cursor]). due \<le> t \<and> t \<le> current \<and> t < c" using less.prems(4,5) False \<open>cursor < c\<close> by auto
    then have "\<forall>t\<in>set ?os. due \<le> t \<and> t \<le> current \<and> t < c" using last_n_subset [of "nat m" "os @ [cursor]"] by blast
    moreover have "int (length ?os) \<le> m" using last_n_length [of "nat m" "os @ [cursor]"] assms(2) by linarith
    ultimately show ?thesis
      using less.prems(2,4,5) n by (intro less.IH [OF _ c(2)]) (auto intro!: last_n_snoc_sorted)
  qed
qed

lemma check_schedule_Inr:
  assumes "check_schedule Z d = Inr ()"
  obtains n where "catch_up_value d = VInt n" "1 \<le> n" "n \<le> 10"
    "get_value d ''interval_seconds'' = VNone \<or> (\<exists>i. get_value d ''interval_seconds'' = VInt i \<and> 30 \<le> i)"
proof -
  from assms have "int_between 1 10 (catch_up_value d)"
    "get_value d ''interval_seconds'' = VNone \<or> int_between 30 31536000 (get_value d ''interval_seconds'')"
    by (auto simp: check_schedule_def rbind_eq_Inr)
  then show ?thesis using that by (auto simp: int_between_def split: pyval.splits)
qed

lemma misfire_ok:
  assumes "ts \<noteq> [] \<and> int (length ts) \<le> m \<and> sorted_wrt (<) ts \<and> (\<forall>t\<in>set ts. due \<le> t \<and> t \<le> current)" "1 \<le> m"
  shows "int (length (misfire p due current ts)) \<le> m \<and> sorted_wrt (<) (misfire p due current ts) \<and>
    (\<forall>t\<in>set (misfire p due current ts). due \<le> t \<and> t \<le> current)"
  using assms by (auto simp: misfire_def)

lemma planned_ok:
  assumes "check_schedule Z d = Inr ()" "planned Z d due current = Inr (ts, nxt)" "due \<le> current"
  shows "int (length ts) \<le> int_of (catch_up_value d) \<and> sorted_wrt (<) ts \<and> (\<forall>t\<in>set ts. due \<le> t \<and> t \<le> current) \<and> current < nxt"
proof -
  obtain n where n: "catch_up_value d = VInt n" "1 \<le> n" and
    kind: "get_value d ''interval_seconds'' = VNone \<or> (\<exists>i. get_value d ''interval_seconds'' = VInt i \<and> 30 \<le> i)"
    using check_schedule_Inr [OF assms(1)] by metis
  from assms(2) obtain os where os: "due_times Z d due current = Inr (os, nxt)" "ts = misfire (get_value d ''misfire_policy'') due current os"
    by (auto simp: planned_def rbind_eq_Inr)
  have "os \<noteq> [] \<and> int (length os) \<le> n \<and> sorted_wrt (<) os \<and> (\<forall>t\<in>set os. due \<le> t \<and> t \<le> current) \<and> current < nxt"
    using kind
  proof
    assume "get_value d ''interval_seconds'' = VNone"
    with os(1) n(1) have c: "cron_times (\<lambda>c. cron_next Z (str_of (get_value d ''cron'')) (Aware c) (str_of (get_value d ''timezone'')))
        1440 n current [] due = Inr (os, nxt)" by (simp add: due_times_def int_of_def)
    show ?thesis by (rule cron_times_ok [OF _ n(2) c]) (use cron_next_later n(2) assms(3) in auto)
  next
    assume "\<exists>i. get_value d ''interval_seconds'' = VInt i \<and> 30 \<le> i"
    then obtain i where i: "get_value d ''interval_seconds'' = VInt i" "0 < i" by auto
    with os(1) n(1) have "interval_times i n due current = (os, nxt)" by (simp add: due_times_def int_of_def)
    with i(2) n(2) assms(3) show ?thesis by (intro interval_times_ok)
  qed
  with misfire_ok [OF _ n(2), of os due current "get_value d ''misfire_policy''"] n(1) os(2) show ?thesis by (simp add: int_of_def)
qed

lemma enqueue_keeps_keys:
  assumes "enqueue q now uid kind payload key at0 mx = (Inr j, q')"
  shows "jq_idempotency q' (kind, key) \<noteq> None" "jq_idempotency q k \<noteq> None \<Longrightarrow> jq_idempotency q' k \<noteq> None"
  using assms by (auto simp: enqueue_def Let_def put_job_def split: if_splits option.splits)

lemma enqueue_polls_keys:
  "enqueue_polls F uid clock i d ts w = (Inr u, w') \<Longrightarrow> rw_store w' = rw_store w \<and>
     (\<forall>k. jq_idempotency (rw_jobs w) k \<noteq> None \<longrightarrow> jq_idempotency (rw_jobs w') k \<noteq> None) \<and>
     (\<forall>t\<in>set ts. jq_idempotency (rw_jobs w') (''event.poll'', ''schedule:'' @ i @ '':'' @ iso_text F t) \<noteq> None)"
proof (induction ts arbitrary: w)
  case (Cons t ts)
  let ?key = "''schedule:'' @ i @ '':'' @ iso_text F t"
  from Cons.prems obtain j q where q: "enqueue (rw_jobs w) clock (uid ?key) ''event.poll''
      [(''extension_id'', get_value d ''extension_id''), (''extension_version'', get_value d ''extension_version''),
       (''source_id'', get_value d ''source_id'')] ?key None 5 = (Inr j, q)"
    "enqueue_polls F uid clock i d ts (w\<lparr>rw_jobs := q\<rparr>) = (Inr u, w')"
    by (auto simp: Let_def split: prod.splits sum.splits)
  from Cons.IH [OF q(2)] enqueue_keeps_keys [OF q(1)] show ?case by simp
qed simp

lemma put_record_ok:
  assumes "put_record L bucket key v n w = (Inr x, w')"
  shows "rec_get (rw_store w') bucket key = Some \<lparr>sr_id = key, sr_version = n + 1, sr_value = v\<rparr>" "rw_jobs w' = rw_jobs w"
  using assms by (cases rule: put_record_cases; simp add: rec_get_def)+

lemma fire_ok:
  assumes "fire L F uid clock r d ts nxt w = (Inr res, w')"
    and "rc_commands (rw_store w) (''schedule-tick:'' @ sr_id r @ '':'' @ int_str (sr_version r)) = None"
  shows "rec_get (rw_store w') ''schedules'' (sr_id r) = Some \<lparr>sr_id = sr_id r, sr_version = sr_version r + 1,
      sr_value = VDict (dset ''next_at'' (VStr (iso_text F nxt)) (dict_of (sr_value r)))\<rparr> \<and>
    (\<forall>t\<in>set ts. jq_idempotency (rw_jobs w') (''event.poll'', ''schedule:'' @ sr_id r @ '':'' @ iso_text F t) \<noteq> None)"
proof -
  define v where "v = VDict (dset ''next_at'' (VStr (iso_text F nxt)) (dict_of (sr_value r)))"
  from assms obtain digest w1 w2 x where w: "enqueue_polls F uid clock (sr_id r) d ts w = (Inr (), w1)"
    "put_record L ''schedules'' (sr_id r) v (sr_version r) w1 = (Inr x, w2)"
    "rec_get (rw_store w') ''schedules'' (sr_id r) = rec_get (rw_store w2) ''schedules'' (sr_id r)" "rw_jobs w' = rw_jobs w2"
    by (auto simp: fire_def command_def sbind_eq_Inr raise_def v_def rec_get_def split: if_splits sum.splits)
  with put_record_ok [OF w(2)] enqueue_polls_keys [OF w(1)] show ?thesis by (simp add: v_def)
qed

section \<open>A calendar and a schedule\<close>

text \<open>Hours and minutes of the day and a month that never ends.\<close>

definition demo_zone :: zone_db where
  "demo_zone = \<lparr>zi_open = (\<lambda>z. if z = ''UTC'' then Inr () else raise ZoneInfoNotFoundError z),
     zi_local = (\<lambda>_ t. \<lparr>lt_minute = t div 60000000 mod 60, lt_hour = t div 3600000000 mod 24, lt_day = 1, lt_month = 1, lt_weekday = 0\<rparr>)\<rparr>"

definition demo_iso :: iso_format where
  "demo_iso = \<lparr>iso_text = int_str, iso_parse = (\<lambda>s. case s of [] \<Rightarrow> None
     | c # cs \<Rightarrow> Some (Aware (if c = CHR ''-'' then - decimal cs else decimal s)))\<rparr>"

definition demo_schedule :: "(string \<times> pyval) list" where
  "demo_schedule = [(''id'', VStr ''s1''), (''source_id'', VStr ''mail''), (''extension_id'', VStr ''ext''), (''extension_version'', VStr ''1''),
     (''interval_seconds'', VInt 60), (''timezone'', VStr ''UTC''), (''misfire_policy'', VStr ''catch_up''), (''max_catch_up'', VInt 2)]"

definition demo_record :: store_record where
  "demo_record = \<lparr>sr_id = ''s1'', sr_version = 1,
     sr_value = VDict [(''definition'', VDict demo_schedule), (''next_at'', VStr ''60000000''), (''enabled'', VBool True)]\<rparr>"

definition demo_records :: records_world where
  "demo_records = empty_records\<lparr>rw_store := \<lparr>rc_records = [((''schedules'', ''s1''), demo_record)], rc_commands = Map.empty\<rparr>\<rparr>"

lemma decimal_int: "decimal s = int (digits_val s)" if "\<forall>c\<in>set s. is_digit c"
  using that
proof (induction s rule: rev_induct)
  case (snoc c s)
  then have "(of_char c :: int) - 48 = int (of_char c - 48)" by (simp add: is_digit_def of_nat_diff of_nat_of_char)
  with snoc show ?case by (simp add: decimal_def digits_val_def)
qed (simp add: decimal_def digits_val_def)

lemma demo_iso_ok: "iso_parse demo_iso (iso_text demo_iso t) = Some (Aware t)"
proof (cases "t < 0")
  case True
  then show ?thesis using nat_str_digits [of "nat (- t)"]
    by (simp add: demo_iso_def int_str_def decimal_int digits_val_nat_str)
next
  case False
  obtain c cs where n: "nat_str (nat t) = c # cs" by (cases "nat_str (nat t)") simp_all
  then have "c \<noteq> CHR ''-''" using nat_str_digits [of "nat t"] by auto
  moreover have "decimal (c # cs) = t"
    using False nat_str_digits [of "nat t"] digits_val_nat_str [of "nat t"] decimal_int [of "c # cs"] by (simp add: n)
  ultimately show ?thesis using False n by (simp add: demo_iso_def int_str_def)
qed

section \<open>Properties\<close>

text \<open>
  C21. \<open>cron_next\<close> returns the first whole minute after the given instant at which the expression matches
  the local calendar. When it gives up instead, no minute of the horizon matches.
\<close>

theorem cron_next_first:
  assumes "cron_fields e = Inr fs" "zi_open Z tz = Inr ()"
  shows "case cron_next Z e (Aware a) tz of
      Inr t \<Rightarrow> t mod minutes 1 = 0 \<and> a < t \<and> t < next_minute a + minutes cron_horizon \<and> cron_matches fs (zi_local Z tz t) \<and>
        (\<forall>u. u mod minutes 1 = 0 \<and> a < u \<and> u < t \<longrightarrow> \<not> cron_matches fs (zi_local Z tz u))
    | Inl _ \<Rightarrow> \<forall>u. u mod minutes 1 = 0 \<and> a < u \<and> u < next_minute a + minutes cron_horizon \<longrightarrow> \<not> cron_matches fs (zi_local Z tz u)"
proof (cases "cron_next Z e (Aware a) tz")
  case (Inl x)
  then have scan: "cron_scan (\<lambda>u. cron_matches fs (zi_local Z tz u)) cron_horizon (next_minute a) = Inl x"
    using assms by (simp add: cron_next_def aware_def)
  have "\<not> cron_matches fs (zi_local Z tz u)"
    if u: "u mod minutes 1 = 0 \<and> a < u" "u < next_minute a + minutes cron_horizon" for u
  proof -
    from u(1) obtain j where "0 \<le> j" "u = next_minute a + minutes j" unfolding whole_minute by blast
    with cron_scan_Inl [OF scan, of j] u(2) show ?thesis by (simp add: minutes_mono)
  qed
  with Inl show ?thesis by simp
next
  case (Inr t)
  with cron_next_Inr [OF assms, of a t] show ?thesis by simp
qed

theorem cron_next_first_witness:
  "cron_next demo_zone ''5-40/5 0,1 * * *'' (Aware 1) ''UTC'' = Inr 300000000 \<and>
   \<not> (\<exists>u. u mod minutes 1 = 0 \<and> 1 < u \<and> u < 300000000 \<and>
      cron_matches [set [5, 10, 15, 20, 25, 30, 35, 40], set [0, 1], set [1..31], set [1..12], set [0..6]] (zi_local demo_zone ''UTC'' u))"
proof -
  have f: "cron_fields ''5-40/5 0,1 * * *'' =
      Inr [set [5, 10, 15, 20, 25, 30, 35, 40], set [0, 1], set [1..31], set [1..12], set [0..6]]" by code_simp
  have z: "zi_open demo_zone ''UTC'' = Inr ()" by code_simp
  have "cron_next demo_zone ''5-40/5 0,1 * * *'' (Aware 1) ''UTC'' = Inr 300000000" by code_simp
  with cron_next_first [OF f z, of 1] show ?thesis by simp
qed



end
