(* ===== verification/PA_Workflows.thy ===== *)
theory PA_Workflows
  imports PA_Schemas PA_Scheduling
begin

text \<open>
  \<open>core/workflows.py\<close>: the check of a declarative workflow, the resolution of references to inputs and
  outputs, and the interpreter that turns a workflow and the snapshot of a run into the next proposal. The
  interpreter updates the snapshot it is given, also when it raises afterwards, so it returns the snapshot
  with its outcome. The two closing messages, which the source has in Chinese, are arguments.
\<close>

section \<open>Definitions of workflows\<close>

definition workflow_keys :: "string set" where
  "workflow_keys = {''id'', ''version'', ''steps'', ''extension_id'', ''extension_version'', ''name'', ''description'',
     ''input_schema'', ''policy_snapshot''}"

definition is_str_value :: "pyval \<Rightarrow> bool" where
  "is_str_value v = (case v of VStr _ \<Rightarrow> True | _ \<Rightarrow> False)"

definition is_dict_value :: "pyval \<Rightarrow> bool" where
  "is_dict_value v = (case v of VDict _ \<Rightarrow> True | _ \<Rightarrow> False)"

definition check_kind :: "(string \<times> pyval) list \<Rightarrow> string set result" where
  "check_kind step =
     (let kind = get_value step ''type'' in
      if kind = VStr ''ask'' then
        ensure (ident_value (get_value step ''field'') \<and>
                (case get_value step ''question'' of VStr q \<Rightarrow> \<not> blank q | _ \<Rightarrow> False) \<and> is_dict_value (get_value step ''schema''))
          ValidationError ''question step is incomplete'' (Inr {''id'', ''type'', ''field'', ''question'', ''schema''})
      else if kind = VStr ''tool'' then
        ensure (is_str_value (get_value step ''tool_id'') \<and> is_str_value (get_value step ''tool_version'') \<and>
                is_dict_value (get_value step ''arguments''))
          ValidationError ''tool step is incomplete'' (Inr {''id'', ''type'', ''tool_id'', ''tool_version'', ''arguments''})
      else ensure (kind = VStr ''archive'') ValidationError ''unsupported workflow step type'' (Inr {''id'', ''type''}))"

fun check_steps :: "string list \<Rightarrow> pyval list \<Rightarrow> unit result" where
  "check_steps names [] = Inr ()"
| "check_steps names (v # vs) =
     (case v of
        VDict step \<Rightarrow>
          (case get_value step ''id'' of
             VStr i \<Rightarrow>
               ensure (is_ident i \<and> i \<notin> set names) ValidationError ''workflow step ids must be unique''
                (rbind (check_kind step) (\<lambda>allowed.
                  ensure (dkeys step \<subseteq> allowed) ValidationError ''workflow cannot supply grants, scripts or approval ids''
                   (check_steps (i # names) vs)))
           | _ \<Rightarrow> raise ValidationError ''workflow step identity is required'')
      | _ \<Rightarrow> raise ValidationError ''workflow step identity is required'')"

definition validate_workflow :: "stdlib \<Rightarrow> pyval \<Rightarrow> (string \<times> pyval) list result" where
  "validate_workflow L v =
     (case v of
        VDict d \<Rightarrow>
          ensure (dkeys d \<subseteq> workflow_keys) ValidationError ''unsupported workflow fields; executable code is not accepted''
         (ensure (ident_value (get_value d ''id'') \<and> ident_value (get_value d ''version'')) ValidationError
            ''workflow id/version is invalid''
           (case get_value d ''steps'' of
              VList steps \<Rightarrow>
                ensure (1 \<le> int (length steps) \<and> int (length steps) \<le> 128) ValidationError
                  ''workflow requires one to 128 declarative steps''
                 (rbind (check_steps [] steps) (\<lambda>_. rbind (fingerprint L v) (\<lambda>_. Inr d)))
            | _ \<Rightarrow> raise ValidationError ''workflow requires one to 128 declarative steps''))
      | _ \<Rightarrow> raise ValidationError ''unsupported workflow fields; executable code is not accepted'')"

section \<open>References\<close>

fun walk :: "pyval \<Rightarrow> string list \<Rightarrow> pyval result" where
  "walk current [] = Inr current"
| "walk current (part # parts) =
     (case as_map current of
        None \<Rightarrow> raise ValidationError ''required workflow material is not available''
      | Some d \<Rightarrow>
          (case dget d part of
             None \<Rightarrow> raise ValidationError ''required workflow material is not available''
           | Some v \<Rightarrow> walk v parts))"

definition reference :: "(string \<times> pyval) list \<Rightarrow> pyval \<Rightarrow> pyval \<Rightarrow> pyval result" where
  "reference d inputs outputs =
     (case dget d ''$value'' of
        Some (VStr path) \<Rightarrow>
          ensure (dkeys d = {''$value''}) ValidationError ''invalid workflow reference''
           (case split_char (CHR ''.'') path of
              p # parts \<Rightarrow>
                ensure (p \<in> {''inputs'', ''outputs''}) ValidationError ''reference must address this run's inputs or outputs''
                  (walk (if p = ''inputs'' then inputs else outputs) parts)
            | [] \<Rightarrow> raise ValidationError ''reference must address this run's inputs or outputs'')
      | _ \<Rightarrow> raise ValidationError ''invalid workflow reference'')"

function resolve_value :: "pyval \<Rightarrow> pyval \<Rightarrow> pyval \<Rightarrow> int \<Rightarrow> pyval result" where
  "resolve_value v inputs outputs depth =
     (if depth > 32 then raise ValidationError ''workflow references are too deep''
      else case v of
        VDict d \<Rightarrow>
          if dget d ''$value'' \<noteq> None then reference d inputs outputs
          else rbind (rmap (\<lambda>(k, x). rbind (resolve_value x inputs outputs (depth + 1)) (\<lambda>y. Inr (k, y))) d) (\<lambda>e. Inr (VDict e))
      | VList xs \<Rightarrow> rbind (rmap (\<lambda>x. resolve_value x inputs outputs (depth + 1)) xs) (\<lambda>ys. Inr (VList ys))
      | _ \<Rightarrow> Inr v)"
  by pat_completeness auto
termination by (relation "measure (\<lambda>(v, i, os, depth). nat (33 - depth))") auto

declare resolve_value.simps [simp del]

section \<open>The next proposal\<close>

record workflow_texts =
  wt_archived :: string
  wt_done :: string

definition outputs_of :: "(string \<times> pyval) list \<Rightarrow> pyval" where
  "outputs_of snapshot = (case dget snapshot ''outputs'' of None \<Rightarrow> VDict [] | Some v \<Rightarrow> v)"

definition step_at :: "pyval list \<Rightarrow> int \<Rightarrow> (string \<times> pyval) list" where
  "step_at steps cursor = dict_of (steps ! nat cursor)"

function proposal_loop ::
  "stdlib \<Rightarrow> workflow_texts \<Rightarrow> pyval list \<Rightarrow> (string \<times> pyval) list \<Rightarrow> int \<Rightarrow> (string \<times> pyval) list
   \<Rightarrow> pyval result \<times> (string \<times> pyval) list" where
  "proposal_loop L T steps inputs cursor snapshot =
     (if cursor < int (length steps) then
        let step = step_at steps cursor;
            snapshot = dset ''step_id'' (get_value step ''id'') (dset ''cursor'' (VInt cursor) snapshot) in
        if get_value step ''type'' = VStr ''ask'' then
          (case dget inputs (str_of (get_value step ''field'')) of
             None \<Rightarrow>
               (Inr (VDict [(''kind'', VStr ''NEEDS_USER''), (''message'', get_value step ''question'')]),
                dset ''pending_input'' (VDict [(''field'', get_value step ''field''), (''question'', get_value step ''question''),
                  (''schema'', get_value step ''schema'')]) snapshot)
           | Some x \<Rightarrow>
               (case validate_json_schema L x (get_value step ''schema'') ''$'' of
                  Inl e \<Rightarrow> (Inl e, snapshot)
                | Inr _ \<Rightarrow>
                    proposal_loop L T steps inputs (cursor + 1)
                      (dset ''cursor'' (VInt (cursor + 1)) (dpop ''pending_input'' snapshot))))
        else if get_value step ''type'' = VStr ''tool'' then
          (rbind (resolve_value (get_value step ''arguments'') (VDict inputs) (outputs_of snapshot) 0) (\<lambda>arguments.
             Inr (VDict [(''kind'', VStr ''CALL_TOOL''), (''tool_id'', get_value step ''tool_id''),
                         (''tool_version'', get_value step ''tool_version''), (''arguments'', arguments)])), snapshot)
        else (Inr (VDict [(''kind'', VStr ''COMPLETE''), (''message'', VStr (wt_archived T)), (''result'', outputs_of snapshot)]), snapshot)
      else (Inr (VDict [(''kind'', VStr ''COMPLETE''), (''message'', VStr (wt_done T)), (''result'', outputs_of snapshot)]), snapshot))"
  by pat_completeness auto
termination by (relation "measure (\<lambda>(L, T, steps, inputs, cursor, snapshot). nat (int (length steps) - cursor))") auto

declare proposal_loop.simps [simp del]

text \<open>From the binding of the snapshot on.\<close>

definition run_workflow ::
  "stdlib \<Rightarrow> workflow_texts \<Rightarrow> (string \<times> pyval) list \<Rightarrow> (string \<times> pyval) list \<Rightarrow> (string \<times> pyval) list
   \<Rightarrow> pyval result \<times> (string \<times> pyval) list" where
  "run_workflow L T workflow snapshot inputs =
     (case (case dget workflow ''input_schema'' of
              None \<Rightarrow> Inr () | Some schema \<Rightarrow> validate_json_schema L (VDict inputs) schema ''$'') of
        Inl e \<Rightarrow> (Inl e, snapshot)
      | Inr _ \<Rightarrow>
          (let steps = (case get_value workflow ''steps'' of VList vs \<Rightarrow> vs | _ \<Rightarrow> []) in
           case (case dget snapshot ''cursor'' of None \<Rightarrow> VInt 0 | Some c \<Rightarrow> c) of
             VInt cursor \<Rightarrow>
               if 0 \<le> cursor \<and> cursor \<le> int (length steps) then proposal_loop L T steps inputs cursor snapshot
               else (raise ValidationError ''invalid workflow checkpoint'', snapshot)
           | _ \<Rightarrow> (raise ValidationError ''invalid workflow checkpoint'', snapshot)))"

definition next_proposal ::
  "stdlib \<Rightarrow> workflow_texts \<Rightarrow> pyval \<Rightarrow> (string \<times> pyval) list \<Rightarrow> (string \<times> pyval) list
   \<Rightarrow> pyval result \<times> (string \<times> pyval) list" where
  "next_proposal L T def snapshot inputs =
     (case rbind (validate_workflow L def) (\<lambda>workflow. rbind (fingerprint L (VDict workflow)) (\<lambda>digest. Inr (workflow, digest))) of
        Inl e \<Rightarrow> (Inl e, snapshot)
      | Inr (workflow, digest) \<Rightarrow>
          if dget snapshot ''workflow_digest'' \<noteq> None \<and> dget snapshot ''workflow_digest'' \<noteq> Some (VStr digest)
          then (raise WorkflowBindingConflict ''workflow is already bound; create a new task to change its definition or mode'', snapshot)
          else run_workflow L T workflow
                 (dset ''workflow'' (VDict workflow) (dset ''workflow_digest'' (VStr digest) snapshot)) inputs)"

section \<open>What a call does to the snapshot\<close>

definition cursor_of :: "(string \<times> pyval) list \<Rightarrow> pyval" where
  "cursor_of snapshot = (case dget snapshot ''cursor'' of None \<Rightarrow> VInt 0 | Some c \<Rightarrow> c)"

definition workflow_steps :: "pyval \<Rightarrow> pyval list" where
  "workflow_steps def = (case get_value (dict_of def) ''steps'' of VList vs \<Rightarrow> vs | _ \<Rightarrow> [])"

lemma map_of_dpop: "dget (dpop k d) j = (if j = k then None else dget d j)"
  by (simp add: delete_conv')

lemma proposal_loop_snapshot:
  assumes "proposal_loop L T steps inputs cursor snapshot = (res, snapshot')"
    and "0 \<le> cursor" "cursor \<le> int (length steps)" "cursor_of snapshot = VInt cursor"
  shows "(\<forall>k. k \<notin> {''cursor'', ''step_id'', ''pending_input''} \<longrightarrow> dget snapshot' k = dget snapshot k) \<and>
    (\<exists>c. cursor_of snapshot' = VInt c \<and> cursor \<le> c \<and> c \<le> int (length steps))"
  using assms
proof (induction L T steps inputs cursor snapshot rule: proposal_loop.induct)
  case (1 L T steps inputs cursor snapshot)
  show ?case
  proof (cases "cursor < int (length steps)")
    case False
    with "1.prems" show ?thesis by (simp add: proposal_loop.simps)
  next
    case True
    define step where "step = step_at steps cursor"
    define snap where "snap = dset ''step_id'' (get_value step ''id'') (dset ''cursor'' (VInt cursor) snapshot)"
    have snap: "k \<notin> {''cursor'', ''step_id'', ''pending_input''} \<Longrightarrow> dget snap k = dget snapshot k" "cursor_of snap = VInt cursor" for k
      by (simp_all add: snap_def cursor_of_def)
    note loop = "1.prems"(1) [unfolded proposal_loop.simps [of L T steps inputs cursor snapshot] if_P [OF True] Let_def,
        folded step_def, folded snap_def]
    consider (ask) "get_value step ''type'' = VStr ''ask''" | (tool) "get_value step ''type'' \<noteq> VStr ''ask''" by blast
    then show ?thesis
    proof cases
      case tool
      with loop have "snapshot' = snap" by (auto split: if_splits)
      with snap True show ?thesis by auto
    next
      case ask
      show ?thesis
      proof (cases "dget inputs (str_of (get_value step ''field''))")
        case None
        with ask loop have "snapshot' = dset ''pending_input'' (VDict [(''field'', get_value step ''field''),
            (''question'', get_value step ''question''), (''schema'', get_value step ''schema'')]) snap" by simp
        with snap True show ?thesis by (auto simp: cursor_of_def)
      next
        case (Some x)
        show ?thesis
        proof (cases "validate_json_schema L x (get_value step ''schema'') ''$''")
          case (Inl e)
          with ask Some loop have "snapshot' = snap" by simp
          with snap True show ?thesis by auto
        next
          case (Inr u)
          define next_snap where "next_snap = dset ''cursor'' (VInt (cursor + 1)) (dpop ''pending_input'' snap)"
          have l: "proposal_loop L T steps inputs (cursor + 1) next_snap = (res, snapshot')"
            using ask Some Inr loop by (simp add: next_snap_def)
          have "(\<forall>k. k \<notin> {''cursor'', ''step_id'', ''pending_input''} \<longrightarrow> dget snapshot' k = dget next_snap k) \<and>
              (\<exists>c. cursor_of snapshot' = VInt c \<and> cursor + 1 \<le> c \<and> c \<le> int (length steps))"
            using "1.IH" [OF True step_def snap_def ask Some Inr, folded next_snap_def, OF l] "1.prems"(2) True
            by (simp add: next_snap_def cursor_of_def)
          then obtain c where c: "cursor_of snapshot' = VInt c" "cursor + 1 \<le> c" "c \<le> int (length steps)"
            and same: "\<And>k. k \<notin> {''cursor'', ''step_id'', ''pending_input''} \<Longrightarrow> dget snapshot' k = dget next_snap k" by blast
          have "dget snapshot' k = dget snapshot k" if "k \<notin> {''cursor'', ''step_id'', ''pending_input''}" for k
            using that same [OF that] snap(1) [OF that] by (simp add: next_snap_def map_of_dpop)
          with c show ?thesis by (intro conjI allI impI exI [of _ c]) simp_all
        qed
      qed
    qed
  qed
qed

lemma validate_workflow_Inr:
  assumes "validate_workflow L def = Inr d"
  shows "def = VDict d" "get_value d ''steps'' = VList (workflow_steps def)" "check_steps [] (workflow_steps def) = Inr ()"
proof -
  from assms obtain steps where d: "def = VDict d" "get_value d ''steps'' = VList steps" "check_steps [] steps = Inr ()"
    by (auto simp: validate_workflow_def rbind_eq_Inr split: pyval.splits)
  then show "def = VDict d" "get_value d ''steps'' = VList (workflow_steps def)" "check_steps [] (workflow_steps def) = Inr ()"
    by (simp_all add: workflow_steps_def dict_of_def)
qed

lemma next_proposal_Inr:
  assumes "next_proposal L T def snapshot inputs = (Inr p, snapshot')"
  shows "\<exists>d digest c. validate_workflow L def = Inr d \<and> fingerprint L def = Inr digest \<and>
    (dget snapshot ''workflow_digest'' = None \<or> dget snapshot ''workflow_digest'' = Some (VStr digest)) \<and>
    cursor_of snapshot = VInt c \<and> 0 \<le> c \<and> c \<le> int (length (workflow_steps def)) \<and>
    proposal_loop L T (workflow_steps def) inputs c
      (dset ''workflow'' (VDict d) (dset ''workflow_digest'' (VStr digest) snapshot)) = (Inr p, snapshot')"
proof -
  from assms obtain d digest where d: "validate_workflow L def = Inr d" "fingerprint L (VDict d) = Inr digest"
    "dget snapshot ''workflow_digest'' = None \<or> dget snapshot ''workflow_digest'' = Some (VStr digest)"
    "run_workflow L T d (dset ''workflow'' (VDict d) (dset ''workflow_digest'' (VStr digest) snapshot)) inputs = (Inr p, snapshot')"
    by (auto simp: next_proposal_def rbind_eq_Inr rbind_eq_Inl raise_def split: sum.splits if_splits)
  note w = validate_workflow_Inr [OF d(1)]
  have "(case get_value d ''steps'' of VList vs \<Rightarrow> vs | _ \<Rightarrow> []) = workflow_steps def" using w(2) by simp
  with d(4) obtain c where "cursor_of snapshot = VInt c" "0 \<le> c" "c \<le> int (length (workflow_steps def))"
    "proposal_loop L T (workflow_steps def) inputs c
      (dset ''workflow'' (VDict d) (dset ''workflow_digest'' (VStr digest) snapshot)) = (Inr p, snapshot')"
    by (auto simp: run_workflow_def cursor_of_def raise_def Let_def split: sum.splits option.splits pyval.splits if_splits)
  with d w(1) show ?thesis by blast
qed

section \<open>What a proposal looks like\<close>

lemma check_steps_kind:
  "check_steps names steps = Inr () \<Longrightarrow> v \<in> set steps \<Longrightarrow> \<exists>step allowed. v = VDict step \<and> check_kind step = Inr allowed"
  by (induction names steps rule: check_steps.induct) (auto simp: rbind_eq_Inr split: pyval.splits)

lemma check_kind_Inr:
  assumes "check_kind step = Inr allowed"
  shows "get_value step ''type'' = VStr ''ask'' \<Longrightarrow> \<exists>q. get_value step ''question'' = VStr q \<and> \<not> blank q"
    "get_value step ''type'' = VStr ''tool'' \<Longrightarrow> \<exists>i v args. get_value step ''tool_id'' = VStr i \<and>
       get_value step ''tool_version'' = VStr v \<and> get_value step ''arguments'' = VDict args"
  using assms by (auto simp: check_kind_def is_str_value_def is_dict_value_def Let_def split: pyval.splits)

text \<open>The proposals of a workflow: a question of one of its steps, a tool of one of its steps, or the end.\<close>

inductive proposes :: "workflow_texts \<Rightarrow> pyval list \<Rightarrow> (string \<times> pyval) list \<Rightarrow> pyval \<Rightarrow> pyval \<Rightarrow> bool" for T steps inputs outputs where
  question: "VDict step \<in> set steps \<Longrightarrow> get_value step ''type'' = VStr ''ask'' \<Longrightarrow> get_value step ''question'' = VStr q \<Longrightarrow> \<not> blank q \<Longrightarrow>
     dget inputs (str_of (get_value step ''field'')) = None \<Longrightarrow>
     proposes T steps inputs outputs (VDict [(''kind'', VStr ''NEEDS_USER''), (''message'', VStr q)])"
| tool: "VDict step \<in> set steps \<Longrightarrow> get_value step ''type'' = VStr ''tool'' \<Longrightarrow> get_value step ''tool_id'' = VStr i \<Longrightarrow>
     get_value step ''tool_version'' = VStr v \<Longrightarrow> get_value step ''arguments'' = VDict args \<Longrightarrow>
     resolve_value (VDict args) (VDict inputs) outputs 0 = Inr a \<Longrightarrow>
     proposes T steps inputs outputs (VDict [(''kind'', VStr ''CALL_TOOL''), (''tool_id'', VStr i), (''tool_version'', VStr v), (''arguments'', a)])"
| finish: "m \<in> {wt_archived T, wt_done T} \<Longrightarrow>
     proposes T steps inputs outputs (VDict [(''kind'', VStr ''COMPLETE''), (''message'', VStr m), (''result'', outputs)])"

lemma proposal_loop_proposes:
  assumes "proposal_loop L T steps inputs cursor snapshot = (Inr p, snapshot')" "0 \<le> cursor" "check_steps [] steps = Inr ()"
  shows "proposes T steps inputs (outputs_of snapshot) p"
  using assms
proof (induction L T steps inputs cursor snapshot rule: proposal_loop.induct)
  case (1 L T steps inputs cursor snapshot)
  show ?case
  proof (cases "cursor < int (length steps)")
    case False
    with "1.prems"(1) show ?thesis by (auto simp: proposal_loop.simps intro!: finish)
  next
    case True
    define step where "step = step_at steps cursor"
    define snap where "snap = dset ''step_id'' (get_value step ''id'') (dset ''cursor'' (VInt cursor) snapshot)"
    have outs: "outputs_of snap = outputs_of snapshot" by (simp add: snap_def outputs_of_def)
    have mem: "steps ! nat cursor \<in> set steps" using True "1.prems"(2) by simp
    then obtain allowed where kind: "steps ! nat cursor = VDict step" "check_kind step = Inr allowed"
      using check_steps_kind [OF "1.prems"(3) mem] by (auto simp: step_def step_at_def dict_of_def)
    note loop = "1.prems"(1) [unfolded proposal_loop.simps [of L T steps inputs cursor snapshot] if_P [OF True] Let_def,
        folded step_def, folded snap_def]
    consider (ask) "get_value step ''type'' = VStr ''ask''" | (tool) "get_value step ''type'' = VStr ''tool''"
      | (other) "get_value step ''type'' \<noteq> VStr ''ask''" "get_value step ''type'' \<noteq> VStr ''tool''" by blast
    then show ?thesis
    proof cases
      case other
      with loop outs show ?thesis by (auto intro!: finish)
    next
      case tool
      with loop outs obtain a where a: "resolve_value (get_value step ''arguments'') (VDict inputs) (outputs_of snapshot) 0 = Inr a"
        "p = VDict [(''kind'', VStr ''CALL_TOOL''), (''tool_id'', get_value step ''tool_id''),
             (''tool_version'', get_value step ''tool_version''), (''arguments'', a)]"
        by (auto simp: rbind_eq_Inr)
      from check_kind_Inr(2) [OF kind(2) tool] a kind(1) mem tool show ?thesis by (auto intro!: proposes.tool)
    next
      case ask
      from check_kind_Inr(1) [OF kind(2) ask] obtain q where q: "get_value step ''question'' = VStr q" "\<not> blank q" by blast
      show ?thesis
      proof (cases "dget inputs (str_of (get_value step ''field''))")
        case None
        with ask loop q(1) have "p = VDict [(''kind'', VStr ''NEEDS_USER''), (''message'', VStr q)]" by simp
        with mem kind(1) ask q None show ?thesis by (auto intro: question)
      next
        case (Some x)
        from ask Some loop obtain u where Inr: "validate_json_schema L x (get_value step ''schema'') ''$'' = Inr u"
          by (cases "validate_json_schema L x (get_value step ''schema'') ''$''") auto
        define next_snap where "next_snap = dset ''cursor'' (VInt (cursor + 1)) (dpop ''pending_input'' snap)"
        have "proposal_loop L T steps inputs (cursor + 1) next_snap = (Inr p, snapshot')"
          using ask Some Inr loop by (simp add: next_snap_def)
        then have "proposes T steps inputs (outputs_of next_snap) p"
          using "1.IH" [OF True step_def snap_def ask Some Inr, folded next_snap_def] "1.prems"(2,3) by simp
        then show ?thesis by (simp add: next_snap_def outputs_of_def map_of_dpop snap_def)
      qed
    qed
  qed
qed

lemma next_proposal_proposes:
  assumes "next_proposal L T def snapshot inputs = (Inr p, snapshot')"
  shows "proposes T (workflow_steps def) inputs (outputs_of snapshot) p"
proof -
  from next_proposal_Inr [OF assms] obtain d digest c where d: "validate_workflow L def = Inr d" "0 \<le> c"
    "proposal_loop L T (workflow_steps def) inputs c
      (dset ''workflow'' (VDict d) (dset ''workflow_digest'' (VStr digest) snapshot)) = (Inr p, snapshot')" by blast
  from proposal_loop_proposes [OF d(3,2) validate_workflow_Inr(3) [OF d(1)]] show ?thesis by (simp add: outputs_of_def)
qed

section \<open>A workflow with a question and a tool\<close>

definition demo_texts :: workflow_texts where
  "demo_texts = \<lparr>wt_archived = ''archived'', wt_done = ''done''\<rparr>"

definition demo_workflow :: "string \<Rightarrow> pyval" where
  "demo_workflow version = VDict [(''id'', VStr ''wf''), (''version'', VStr version), (''steps'', VList
     [VDict [(''id'', VStr ''a''), (''type'', VStr ''ask''), (''field'', VStr ''name''), (''question'', VStr ''who?''), (''schema'', VDict [])],
      VDict [(''id'', VStr ''b''), (''type'', VStr ''tool''), (''tool_id'', VStr ''t''), (''tool_version'', VStr ''1''),
             (''arguments'', VDict [(''to'', VDict [(''$value'', VStr ''inputs.name'')])])]])]"

section \<open>Properties\<close>

text \<open>
  C23. A run stays on the workflow it started with. Once a call has proposed something, a call with a valid
  definition of another digest is refused as a conflict and leaves the snapshot alone; and the call that
  proposed kept the outputs and never moved the cursor back or past the last step.
\<close>

theorem workflow_stays_bound:
  assumes "next_proposal L T def1 snap1 in1 = (Inr p, snap2)"
    and "validate_workflow L def2 = Inr w2" "fingerprint L def2 \<noteq> fingerprint L def1"
  shows "(\<exists>m. next_proposal L T def2 snap2 in2 = (Inl (WorkflowBindingConflict, m), snap2)) \<and>
    outputs_of snap2 = outputs_of snap1 \<and>
    (\<exists>c c'. cursor_of snap1 = VInt c \<and> cursor_of snap2 = VInt c' \<and> 0 \<le> c \<and> c \<le> c' \<and> c' \<le> int (length (workflow_steps def1)))"
proof -
  from next_proposal_Inr [OF assms(1)] obtain d digest c where d: "fingerprint L def1 = Inr digest" "cursor_of snap1 = VInt c" "0 \<le> c"
    "c \<le> int (length (workflow_steps def1))"
    "proposal_loop L T (workflow_steps def1) in1 c
      (dset ''workflow'' (VDict d) (dset ''workflow_digest'' (VStr digest) snap1)) = (Inr p, snap2)" by blast
  let ?snap = "dset ''workflow'' (VDict d) (dset ''workflow_digest'' (VStr digest) snap1)"
  have cur: "cursor_of ?snap = VInt c" using d(2) by (simp add: cursor_of_def)
  note eff = proposal_loop_snapshot [OF d(5,3,4) cur]
  then have keep: "dget snap2 ''outputs'' = dget ?snap ''outputs''" "dget snap2 ''workflow_digest'' = Some (VStr digest)"
    by simp_all
  from validate_workflow_Inr(1) [OF assms(2)] have "def2 = VDict w2" .
  moreover obtain digest2 where "fingerprint L def2 = Inr digest2"
    using assms(2) by (auto simp: validate_workflow_def rbind_eq_Inr split: pyval.splits)
  ultimately have "next_proposal L T def2 snap2 in2 = (Inl (WorkflowBindingConflict,
      ''workflow is already bound; create a new task to change its definition or mode''), snap2)"
    using assms(2,3) keep(2) d(1) by (auto simp: next_proposal_def raise_def)
  moreover have "outputs_of snap2 = outputs_of snap1" using keep(1) by (simp add: outputs_of_def)
  ultimately show ?thesis using eff d(2,3) by blast
qed

theorem workflow_stays_bound_witness:
  "\<exists>snap2. next_proposal sample_lib demo_texts (demo_workflow ''1'') [] [(''name'', VStr ''bob'')] =
       (Inr (VDict [(''kind'', VStr ''CALL_TOOL''), (''tool_id'', VStr ''t''), (''tool_version'', VStr ''1''),
          (''arguments'', VDict [(''to'', VStr ''bob'')])]), snap2) \<and> cursor_of snap2 = VInt 1 \<and>
     (\<exists>m. next_proposal sample_lib demo_texts (demo_workflow ''2'') snap2 [] = (Inl (WorkflowBindingConflict, m), snap2))"
proof -
  let ?n = "next_proposal sample_lib demo_texts (demo_workflow ''1'') [] [(''name'', VStr ''bob'')]"
  have p: "fst ?n = Inr (VDict [(''kind'', VStr ''CALL_TOOL''), (''tool_id'', VStr ''t''), (''tool_version'', VStr ''1''),
      (''arguments'', VDict [(''to'', VStr ''bob'')])])" "cursor_of (snd ?n) = VInt 1" by code_simp+
  then have run: "?n = (Inr (VDict [(''kind'', VStr ''CALL_TOOL''), (''tool_id'', VStr ''t''), (''tool_version'', VStr ''1''),
      (''arguments'', VDict [(''to'', VStr ''bob'')])]), snd ?n)" by (metis prod.collapse)
  have "is_ok (validate_workflow sample_lib (demo_workflow ''2''))" by code_simp
  then obtain w2 where w2: "validate_workflow sample_lib (demo_workflow ''2'') = Inr w2" by (auto simp: is_ok_iff)
  have "fingerprint sample_lib (demo_workflow ''2'') \<noteq> fingerprint sample_lib (demo_workflow ''1'')" by code_simp
  from workflow_stays_bound [OF run w2 this, of "[]"] p(2) run show ?thesis by blast
qed

end
