(* ===== verification/PA_Manifest.thy ===== *)
theory PA_Manifest
  imports PA_Values
begin

text \<open>
  \<open>core/extensions/manifest.py\<close>: the static check of an extension before any of its code runs. The
  manifest table, the dependency lock and the hash of the artifact tree. Reading TOML, resolving a
  path and listing a directory are the operating system's: an \<open>artifact_tree\<close> says what they
  return.
\<close>

section \<open>Identifiers and versions\<close>

definition lower_letter :: "char \<Rightarrow> bool" where
  "lower_letter c = (97 \<le> (of_char c :: nat) \<and> (of_char c :: nat) \<le> 122)"

definition letter :: "char \<Rightarrow> bool" where
  "letter c = (lower_letter c \<or> 65 \<le> (of_char c :: nat) \<and> (of_char c :: nat) \<le> 90)"

definition alnum :: "char \<Rightarrow> bool" where
  "alnum c = (letter c \<or> is_digit c)"

text \<open>\<open>\w\<close> for a character below 256.\<close>

definition word_char :: "char \<Rightarrow> bool" where
  "word_char c = (let n = (of_char c :: nat) in
     alnum c \<or> n \<in> {95, 170, 178, 179, 181, 185, 186, 188, 189, 190} \<or> 192 \<le> n \<and> n \<noteq> 215 \<and> n \<noteq> 247)"

text \<open>\<open>_ID_RE\<close>: lowercase words joined by \<open>.\<close>, \<open>_\<close> or \<open>-\<close>, at least two.\<close>

definition is_id :: "string \<Rightarrow> bool" where
  "is_id s =
     (case split_char (CHR ''.'') (map (\<lambda>c. if c \<in> set ''_-'' then CHR ''.'' else c) s) of
        first # second # rest \<Rightarrow>
          list_all (\<lambda>w. w \<noteq> [] \<and> list_all (\<lambda>c. lower_letter c \<or> is_digit c) w) (first # second # rest) \<and> lower_letter (hd first)
      | _ \<Rightarrow> False)"

fun expect :: "char \<Rightarrow> string \<Rightarrow> string option" where
  "expect c [] = None"
| "expect c (x # xs) = (if x = c then Some xs else None)"

definition semver_number :: "string \<Rightarrow> string option" where
  "semver_number s =
     (let d = takeWhile is_digit s in
      if d = [] \<or> hd d = CHR ''0'' \<and> tl d \<noteq> [] then None else Some (dropWhile is_digit s))"

definition semver_suffix :: "char \<Rightarrow> string \<Rightarrow> string option" where
  "semver_suffix c s =
     (case expect c s of
        None \<Rightarrow> Some s
      | Some t \<Rightarrow>
          let suffix_char = (\<lambda>x. alnum x \<or> x \<in> set ''.-'') in
          if takeWhile suffix_char t = [] then None else Some (dropWhile suffix_char t))"

definition is_semver :: "string \<Rightarrow> bool" where
  "is_semver s =
     (Option.bind (semver_number s) (\<lambda>s. Option.bind (expect (CHR ''.'') s) (\<lambda>s.
      Option.bind (semver_number s) (\<lambda>s. Option.bind (expect (CHR ''.'') s) (\<lambda>s.
      Option.bind (semver_number s) (\<lambda>s. Option.bind (semver_suffix (CHR ''-'') s) (semver_suffix (CHR ''+''))))))) = Some [])"

definition is_name :: "string \<Rightarrow> bool" where
  "is_name s = (case s of [] \<Rightarrow> False | c # cs \<Rightarrow> (letter c \<or> c = CHR ''_'') \<and> list_all word_char cs)"

definition is_entrypoint :: "string \<Rightarrow> bool" where
  "is_entrypoint s =
     (case partition_char (CHR '':'') s of
        (m, Some f) \<Rightarrow> list_all is_name (split_char (CHR ''.'') m) \<and> is_name f
      | _ \<Rightarrow> False)"

section \<open>Version ranges\<close>

definition range_operator :: "string \<Rightarrow> (string \<times> string) option" where
  "range_operator s =
     (if take 2 s \<in> {''>='', ''<='', ''==''} then Some (take 2 s, drop 2 s)
      else if take 1 s \<in> {''>'', ''<''} then Some (take 1 s, drop 1 s) else None)"

definition range_constraint :: "string \<Rightarrow> (string \<times> int \<times> int) option" where
  "range_constraint s =
     (case range_operator s of
        None \<Rightarrow> None
      | Some (op, t) \<Rightarrow>
          (case partition_char (CHR ''.'') t of
             (major, None) \<Rightarrow> if is_decimal major then Some (op, decimal major, 0) else None
           | (major, Some minor) \<Rightarrow>
               if is_decimal major \<and> is_decimal minor then Some (op, decimal major, decimal minor) else None))"

definition version_less :: "int \<times> int \<Rightarrow> int \<times> int \<Rightarrow> bool" where
  "version_less a b = (fst a < fst b \<or> fst a = fst b \<and> snd a < snd b)"

definition satisfies :: "string \<Rightarrow> int \<times> int \<Rightarrow> int \<times> int \<Rightarrow> bool" where
  "satisfies op actual target =
     (if op = ''>='' then \<not> version_less actual target
      else if op = ''>'' then version_less target actual
      else if op = ''<='' then \<not> version_less target actual
      else if op = ''<'' then version_less actual target
      else actual = target)"

definition validate_range :: "string \<Rightarrow> int \<times> int \<Rightarrow> string \<Rightarrow> unit result" where
  "validate_range spec actual field_name =
     (let constraints = filter (\<lambda>c. c \<noteq> []) (map strip (split_char (CHR '','') spec)) in
      ensure (constraints \<noteq> []) ManifestValidationError (field_name @ '' range is empty'')
       (rall (\<lambda>constraint.
          case range_constraint constraint of
            None \<Rightarrow> raise ManifestValidationError (field_name @ '' uses unsupported range syntax: '' @ py_repr constraint)
          | Some (op, target) \<Rightarrow>
              ensure (satisfies op actual target) ManifestValidationError
                (field_name @ '' '' @ int_str (fst actual) @ ''.'' @ int_str (snd actual) @ '' does not satisfy '' @ py_repr spec)
                (Inr ())) constraints))"

section \<open>The dependency lock\<close>

definition line_break :: "char \<Rightarrow> bool" where
  "line_break c = (of_char c \<in> {10 :: nat, 11, 12, 13, 28, 29, 30, 133})"

text \<open>\<open>str.splitlines\<close>; the first argument is the line read so far.\<close>

fun splitlines :: "string \<Rightarrow> string \<Rightarrow> string list" where
  "splitlines acc [] = (if acc = [] then [] else [acc])"
| "splitlines acc (c # cs) =
     (if \<not> line_break c then splitlines (acc @ [c]) cs
      else acc # (case cs of
                    d # ds \<Rightarrow> if c = CHR 0x0D \<and> d = CHR 0x0A then splitlines [] ds else splitlines [] cs
                  | [] \<Rightarrow> []))"

fun logical_lines :: "int \<Rightarrow> string \<Rightarrow> int \<Rightarrow> string list \<Rightarrow> (int \<times> string) list" where
  "logical_lines number buffer start_line [] = (if buffer = [] then [] else [(start_line, buffer)])"
| "logical_lines number buffer start_line (raw # rest) =
     (let stripped = strip raw; start = (if buffer = [] then number else start_line) in
      if stripped \<noteq> [] \<and> last stripped = CHR 0x5C
      then logical_lines (number + 1) (buffer @ butlast stripped @ '' '') start rest
      else (start, buffer @ stripped) # logical_lines (number + 1) [] start rest)"

fun occurs :: "string \<Rightarrow> string \<Rightarrow> bool" where
  "occurs p [] = (p = [])"
| "occurs p (x # xs) = (take (length p) (x # xs) = p \<or> occurs p xs)"

definition pin_extras :: "string \<Rightarrow> string option" where
  "pin_extras s =
     (case expect (CHR ''['') s of
        None \<Rightarrow> Some s
      | Some t \<Rightarrow>
          let extra_char = (\<lambda>x. alnum x \<or> x \<in> set ''._,-'') in
          if takeWhile extra_char t = [] then None else expect (CHR '']'') (dropWhile extra_char t))"

definition pin_version_char :: "char \<Rightarrow> bool" where
  "pin_version_char c = (c \<notin> set ''=;,<>!~*'' \<and> \<not> is_space c)"

text \<open>\<open>_PINNED_REQUIREMENT_RE\<close>: the version of a requirement \<open>name[extras]==version\<close>.\<close>

definition pinned_version :: "string \<Rightarrow> string option" where
  "pinned_version s =
     (let name_char = (\<lambda>x. alnum x \<or> x \<in> set ''._-''); name = takeWhile name_char s in
      if name = [] \<or> \<not> alnum (hd name) then None
      else Option.bind (pin_extras (dropWhile name_char s)) (\<lambda>t.
           Option.bind (expect (CHR ''='') t) (\<lambda>t.
           Option.bind (expect (CHR ''='') t) (\<lambda>v.
             if v \<noteq> [] \<and> list_all pin_version_char v then Some v else None))))"

text \<open>\<open>_EXACT_VERSION_RE\<close>.\<close>

definition is_exact_version :: "string \<Rightarrow> bool" where
  "is_exact_version s =
     (let release_char = (\<lambda>x. is_digit x \<or> x = CHR ''.''); tail_char = (\<lambda>x. alnum x \<or> x = CHR ''.'');
          rest = dropWhile release_char s;
          rest = (if rest \<noteq> [] \<and> letter (hd rest) then dropWhile tail_char rest else rest) in
      list_all is_decimal (split_char (CHR ''.'') (takeWhile release_char s)) \<and>
      (case rest of [] \<Rightarrow> True | c # cs \<Rightarrow> c = CHR ''+'' \<and> cs \<noteq> [] \<and> list_all tail_char cs))"

definition is_hash_token :: "string \<Rightarrow> bool" where
  "is_hash_token t = (take 14 t = ''--hash=sha256:'' \<and> is_digest (drop 14 t))"

definition check_lock_line :: "int \<times> string \<Rightarrow> unit result" where
  "check_lock_line l =
     (case l of (number, line) \<Rightarrow>
        if line = [] \<or> hd line = CHR ''#'' then Inr ()
        else ensure (CHR '';'' \<notin> set line \<and> \<not> occurs ''://'' line \<and> hd line \<noteq> CHR ''-'') ManifestValidationError
          (''dependency_lock line '' @ int_str number @ '' is not a plain pinned requirement'')
         (case words line of
            [] \<Rightarrow> raise IndexError ''list index out of range''
          | requirement # hashes \<Rightarrow>
              ensure (case pinned_version requirement of None \<Rightarrow> False | Some v \<Rightarrow> is_exact_version v) ManifestValidationError
                (''dependency_lock line '' @ int_str number @ '' must pin one exact version with '' @ py_repr ''=='')
               (ensure (hashes \<noteq> []) ManifestValidationError
                  (''dependency_lock line '' @ int_str number @ '' must declare --hash=sha256:...'')
                 (rall (\<lambda>t. ensure (is_hash_token t) ManifestValidationError
                    (''dependency_lock line '' @ int_str number @ '' has an unsupported hash token'') (Inr ())) hashes))))"

definition validate_lockfile :: "string \<Rightarrow> unit result" where
  "validate_lockfile txt = rall check_lock_line (logical_lines 1 [] 0 (splitlines [] txt))"

section \<open>The manifest\<close>

record manifest_tool =
  mt_id :: string
  mt_risk :: string
  mt_input_schema :: string
  mt_output_schema :: string
  mt_capabilities :: "string list"

record declared_capabilities =
  dc_required :: "string list"
  dc_optional :: "string list"

record manifest =
  mf_root :: string
  mf_manifest_version :: string
  mf_id :: string
  mf_name :: string
  mf_version :: string
  mf_core_api :: string
  mf_python :: string
  mf_entrypoint :: string
  mf_dependency_lock :: string
  mf_config_schema :: "string option"
  mf_state_schema_version :: int
  mf_healthcheck :: string
  mf_tools :: "manifest_tool list"
  mf_event_sources :: "string list"
  mf_context_providers :: "string list"
  mf_workflows :: "string list"
  mf_schedules :: "string list"
  mf_notifications :: "string list"
  mf_migrations :: "string list"
  mf_forms :: "string list"
  mf_capabilities :: declared_capabilities

definition slots :: "manifest \<Rightarrow> (string \<times> string list) list" where
  "slots m = (''ToolProvider'', map mt_id (mf_tools m)) #
     filter (\<lambda>(_, declared). declared \<noteq> [])
       [(''EventSource'', mf_event_sources m), (''ContextProvider'', mf_context_providers m),
        (''WorkflowProvider'', mf_workflows m), (''ScheduleProvider'', mf_schedules m),
        (''NotificationProvider'', mf_notifications m), (''MigrationProvider'', mf_migrations m),
        (''FormSchemaProvider'', mf_forms m)]"

definition capability_ids :: "manifest \<Rightarrow> string list" where
  "capability_ids m = concat (map snd (slots m))"

definition entry_module :: "manifest \<Rightarrow> string" where
  "entry_module m = fst (partition_char (CHR '':'') (mf_entrypoint m))"

definition entry_callable :: "manifest \<Rightarrow> string" where
  "entry_callable m = (case snd (partition_char (CHR '':'') (mf_entrypoint m)) of None \<Rightarrow> [] | Some f \<Rightarrow> f)"

text \<open>
  What the file system says about a staged artifact: the parsed \<open>extension.toml\<close>, and for a
  reference whether it resolves inside the root to a regular file, with its text.
\<close>

datatype toml_file = TomlMissing | TomlInvalid string | TomlTable "(string \<times> pyval) list"

datatype file_status = FileEscapes | FileIrregular | FileRegular "string result"

record tree_entry =
  te_parts :: "string list"
  te_symlink :: bool
  te_content :: "string option"

record artifact_tree =
  at_root :: string
  at_is_dir :: bool
  at_toml :: toml_file
  at_file :: "string \<Rightarrow> file_status"
  at_entries :: "tree_entry list"

record manifest_parser =
  mp_manifest_version :: string
  mp_core_api :: "int \<times> int"
  mp_python :: "int \<times> int"

definition mk_parser :: "int \<times> int \<Rightarrow> manifest_parser" where
  "mk_parser python = \<lparr>mp_manifest_version = ''1'', mp_core_api = (1, 0), mp_python = python\<rparr>"

definition required_string :: "(string \<times> pyval) list \<Rightarrow> string \<Rightarrow> string \<Rightarrow> string result" where
  "required_string raw prefix key =
     (case dget raw key of
        Some (VStr s) \<Rightarrow> ensure (\<not> blank s) ManifestValidationError (prefix @ key @ '' must be a non-empty string'') (Inr (strip s))
      | _ \<Rightarrow> raise ManifestValidationError (prefix @ key @ '' must be a non-empty string''))"

text \<open>\<open>sorted\<close> of the values that occur more than once.\<close>

definition duplicates :: "string list \<Rightarrow> string list" where
  "duplicates xs = sort (remdups (filter (\<lambda>x. 1 < length (filter ((=) x) xs)) xs))"

definition repr_list :: "string list \<Rightarrow> string" where
  "repr_list xs = ''['' @ join '', '' (map py_repr xs) @ '']''"

fun all_strings :: "pyval list \<Rightarrow> string list option" where
  "all_strings [] = Some []"
| "all_strings (VStr s # xs) = map_option (\<lambda>ss. s # ss) (all_strings xs)"
| "all_strings (_ # xs) = None"

definition identifier_list :: "pyval \<Rightarrow> string \<Rightarrow> string list result" where
  "identifier_list value field_name =
     (case value of
        VList xs \<Rightarrow>
          (case all_strings xs of
             None \<Rightarrow> raise ManifestValidationError (field_name @ '' must be an array of strings'')
           | Some ss \<Rightarrow>
               let normalized = map strip ss in
               ensure (list_all is_id normalized) ManifestValidationError (field_name @ '' contains an invalid identifier'')
                (ensure (duplicates normalized = []) ManifestValidationError
                   (field_name @ '' contains duplicates: '' @ repr_list (duplicates normalized)) (Inr normalized)))
      | _ \<Rightarrow> raise ManifestValidationError (field_name @ '' must be an array of strings''))"

definition require_safe_file :: "artifact_tree \<Rightarrow> string \<Rightarrow> string \<Rightarrow> string result result" where
  "require_safe_file tr reference field_name =
     (case at_file tr reference of
        FileEscapes \<Rightarrow> raise ManifestValidationError (field_name @ '' escapes the extension root'')
      | FileIrregular \<Rightarrow> raise ManifestValidationError (field_name @ '' does not name a regular file'')
      | FileRegular content \<Rightarrow> Inr content)"

definition get_or :: "(string \<times> pyval) list \<Rightarrow> string \<Rightarrow> pyval \<Rightarrow> pyval" where
  "get_or raw key fallback = (case dget raw key of None \<Rightarrow> fallback | Some v \<Rightarrow> v)"

definition unknown_keys :: "(string \<times> pyval) list \<Rightarrow> string list \<Rightarrow> string list" where
  "unknown_keys raw allowed = sort (filter (\<lambda>k. k \<notin> set allowed) (map fst raw))"

definition risk_levels :: "string list" where
  "risk_levels = [''READ'', ''INTERNAL_WRITE'', ''EXTERNAL_WRITE'', ''PROHIBITED'']"

definition parse_tool :: "artifact_tree \<Rightarrow> nat \<times> pyval \<Rightarrow> manifest_tool result" where
  "parse_tool tr entry =
     (case entry of (index, raw) \<Rightarrow>
        let label = ''tools['' @ nat_str index @ '']''; prefix = label @ ''.'' in
        case raw of
          VDict d \<Rightarrow>
            ensure (unknown_keys d [''id'', ''risk'', ''input_schema'', ''output_schema'', ''capabilities''] = []) ManifestValidationError
              (''unknown '' @ label @ '' keys: '' @
                 repr_list (unknown_keys d [''id'', ''risk'', ''input_schema'', ''output_schema'', ''capabilities'']))
             (rbind (required_string d prefix ''id'') (\<lambda>tool_id.
              ensure (is_id tool_id) ManifestValidationError (''invalid tool id: '' @ py_repr tool_id)
             (rbind (required_string d prefix ''risk'') (\<lambda>risk.
              ensure (risk \<in> set risk_levels) ManifestValidationError (''unsupported risk level: '' @ py_repr risk)
             (rbind (required_string d prefix ''input_schema'') (\<lambda>input_schema.
              rbind (required_string d prefix ''output_schema'') (\<lambda>output_schema.
              rbind (require_safe_file tr input_schema (label @ ''.input_schema'')) (\<lambda>_.
              rbind (require_safe_file tr output_schema (label @ ''.output_schema'')) (\<lambda>_.
              rbind (identifier_list (get_or d ''capabilities'' (VList [])) (label @ ''.capabilities'')) (\<lambda>capabilities.
                Inr \<lparr>mt_id = tool_id, mt_risk = risk, mt_input_schema = input_schema, mt_output_schema = output_schema,
                     mt_capabilities = capabilities\<rparr>))))))))))
        | _ \<Rightarrow> raise ManifestValidationError (label @ '' must be a table''))"

definition parse_tools :: "artifact_tree \<Rightarrow> pyval \<Rightarrow> manifest_tool list result" where
  "parse_tools tr raw_tools =
     (case raw_tools of
        VList xs \<Rightarrow> rmap (parse_tool tr) (enumerate 0 xs)
      | _ \<Rightarrow> raise ManifestValidationError ''tools must be an array of tables'')"

definition slot_keys :: "string list" where
  "slot_keys = [''event_sources'', ''context_providers'', ''workflows'', ''schedules'', ''notifications'', ''migrations'', ''forms'']"

definition manifest_keys :: "string list" where
  "manifest_keys = [''manifest_version'', ''id'', ''name'', ''version'', ''core_api'', ''python'', ''entrypoint'', ''dependency_lock'',
     ''config_schema'', ''state_schema_version'', ''healthcheck'', ''tools'', ''capabilities''] @ slot_keys"

definition parse_config_schema :: "artifact_tree \<Rightarrow> (string \<times> pyval) list \<Rightarrow> string option result" where
  "parse_config_schema tr raw =
     (case get_or raw ''config_schema'' VNone of
        VNone \<Rightarrow> Inr None
      | VStr reference \<Rightarrow>
          ensure (reference \<noteq> []) ManifestValidationError ''config_schema must be a non-empty path''
            (rbind (require_safe_file tr reference ''config_schema'') (\<lambda>_. Inr (Some reference)))
      | _ \<Rightarrow> raise ManifestValidationError ''config_schema must be a non-empty path'')"

text \<open>A Python \<open>bool\<close> is an \<open>int\<close>: \<open>true\<close> counts as 1.\<close>

definition parse_schema_version :: "(string \<times> pyval) list \<Rightarrow> int result" where
  "parse_schema_version raw =
     (case get_or raw ''state_schema_version'' VNone of
        VInt i \<Rightarrow> ensure (0 \<le> i) ManifestValidationError ''state_schema_version must be a non-negative integer'' (Inr i)
      | VBool b \<Rightarrow> Inr (if b then 1 else 0)
      | _ \<Rightarrow> raise ManifestValidationError ''state_schema_version must be a non-negative integer'')"

definition parse_capabilities :: "(string \<times> pyval) list \<Rightarrow> declared_capabilities result" where
  "parse_capabilities raw =
     (case get_or raw ''capabilities'' (VDict []) of
        VDict d \<Rightarrow>
          ensure (unknown_keys d [''required'', ''optional''] = []) ManifestValidationError
            (''unknown capabilities keys: '' @ repr_list (unknown_keys d [''required'', ''optional'']))
           (rbind (identifier_list (get_or d ''required'' (VList [])) ''capabilities.required'') (\<lambda>required.
            rbind (identifier_list (get_or d ''optional'' (VList [])) ''capabilities.optional'') (\<lambda>optional.
            let overlap = sort (filter (\<lambda>x. x \<in> set optional) required) in
            ensure (overlap = []) ManifestValidationError
              (''capabilities cannot be both required and optional: '' @ repr_list overlap)
              (Inr \<lparr>dc_required = required, dc_optional = optional\<rparr>))))
      | _ \<Rightarrow> raise ManifestValidationError ''capabilities must be a table'')"

definition parse_table :: "manifest_parser \<Rightarrow> artifact_tree \<Rightarrow> (string \<times> pyval) list \<Rightarrow> manifest result" where
  "parse_table P tr raw =
     ensure (unknown_keys raw manifest_keys = []) ManifestValidationError
       (''unknown manifest keys: '' @ repr_list (unknown_keys raw manifest_keys))
      (rbind (required_string raw [] ''manifest_version'') (\<lambda>manifest_version.
       ensure (manifest_version = mp_manifest_version P) ManifestValidationError
         (''unsupported manifest_version '' @ py_repr manifest_version)
      (rbind (required_string raw [] ''id'') (\<lambda>extension_id.
       ensure (is_id extension_id) ManifestValidationError ''id must be a namespaced lowercase identifier''
      (rbind (required_string raw [] ''version'') (\<lambda>version.
       ensure (is_semver version) ManifestValidationError ''version must be semantic versioning''
      (rbind (required_string raw [] ''entrypoint'') (\<lambda>entrypoint.
       ensure (is_entrypoint entrypoint) ManifestValidationError ''entrypoint must have module.path:callable form''
      (rbind (required_string raw [] ''core_api'') (\<lambda>core_api.
       rbind (required_string raw [] ''python'') (\<lambda>python_spec.
       rbind (validate_range core_api (mp_core_api P) ''core_api'') (\<lambda>_.
       rbind (validate_range python_spec (mp_python P) ''python'') (\<lambda>_.
       rbind (required_string raw [] ''dependency_lock'') (\<lambda>dependency_lock.
       rbind (require_safe_file tr dependency_lock ''dependency_lock'') (\<lambda>content.
       rbind content (\<lambda>lock_text.
       rbind (validate_lockfile lock_text) (\<lambda>_.
       rbind (parse_config_schema tr raw) (\<lambda>config_schema.
       rbind (parse_schema_version raw) (\<lambda>state_schema_version.
       rbind (parse_tools tr (get_or raw ''tools'' (VList []))) (\<lambda>tools.
       rbind (rmap (\<lambda>key. identifier_list (get_or raw key (VList [])) key) slot_keys) (\<lambda>slot_values.
       let ids = map mt_id tools @ concat slot_values in
       ensure (duplicates ids = []) ManifestValidationError
         (''capability ids must be globally unique in an extension: '' @ repr_list (duplicates ids))
      (rbind (parse_capabilities raw) (\<lambda>capabilities.
       rbind (required_string raw [] ''name'') (\<lambda>nm.
       rbind (required_string raw [] ''healthcheck'') (\<lambda>healthcheck.
         Inr \<lparr>mf_root = at_root tr, mf_manifest_version = manifest_version, mf_id = extension_id, mf_name = nm, mf_version = version,
              mf_core_api = core_api, mf_python = python_spec, mf_entrypoint = entrypoint, mf_dependency_lock = dependency_lock,
              mf_config_schema = config_schema, mf_state_schema_version = state_schema_version, mf_healthcheck = healthcheck,
              mf_tools = tools, mf_event_sources = slot_values ! 0, mf_context_providers = slot_values ! 1,
              mf_workflows = slot_values ! 2, mf_schedules = slot_values ! 3, mf_notifications = slot_values ! 4,
              mf_migrations = slot_values ! 5, mf_forms = slot_values ! 6, mf_capabilities = capabilities\<rparr>)))))))))))))))))))))))))"

definition parse_manifest :: "manifest_parser \<Rightarrow> artifact_tree \<Rightarrow> manifest result" where
  "parse_manifest P tr =
     (case at_toml tr of
        TomlMissing \<Rightarrow> raise ManifestValidationError ''extension.toml is required at the extension root''
      | TomlInvalid e \<Rightarrow> raise ManifestValidationError (''invalid extension.toml: '' @ e)
      | TomlTable raw \<Rightarrow> parse_table P tr raw)"

section \<open>The hash of an artifact\<close>

text \<open>Bytes are characters; a text is encoded in UTF-8.\<close>

definition utf8_char :: "char \<Rightarrow> string" where
  "utf8_char c = (let n = (of_char c :: nat) in
     if n < 128 then [c] else [char_of (192 + n div 64), char_of (128 + n mod 64)])"

definition utf8 :: "string \<Rightarrow> string" where
  "utf8 s = concat (map utf8_char s)"

fun be_bytes :: "nat \<Rightarrow> int \<Rightarrow> string" where
  "be_bytes 0 n = []"
| "be_bytes (Suc k) n = be_bytes k (n div 256) @ [char_of (nat (n mod 256))]"

text \<open>\<open>int.to_bytes(k, "big")\<close>.\<close>

definition to_bytes :: "nat \<Rightarrow> int \<Rightarrow> string result" where
  "to_bytes k n = ensure (n < 256 ^ k) OverflowError ''int too big to convert'' (Inr (be_bytes k n))"

definition ignored_parts :: "string list" where
  "ignored_parts = [''.git'', ''.venv'', ''__pycache__'', ''.pytest_cache'']"

definition included :: "tree_entry \<Rightarrow> bool" where
  "included e = list_all (\<lambda>p. p \<notin> set ignored_parts) (te_parts e)"

definition posix :: "string list \<Rightarrow> string" where
  "posix parts = join ''/'' parts"

definition artifact_files :: "tree_entry list \<Rightarrow> (string \<times> string) list result" where
  "artifact_files es =
     (let inside = filter included es in
      ensure (\<not> list_ex te_symlink inside) ManifestValidationError ''extension artifacts may not contain symlinks''
        (Inr (concat (map (\<lambda>e. case te_content e of None \<Rightarrow> [] | Some bytes \<Rightarrow> [(posix (te_parts e), bytes)]) inside))))"

definition file_material :: "string \<times> string \<Rightarrow> string result" where
  "file_material f =
     (case f of (path, bytes) \<Rightarrow>
        rbind (to_bytes 4 (int (length (utf8 path)))) (\<lambda>n.
        rbind (to_bytes 8 (int (length bytes))) (\<lambda>size. Inr (n @ utf8 path @ size @ bytes))))"

definition artifact_material :: "artifact_tree \<Rightarrow> string result" where
  "artifact_material tr =
     ensure (at_is_dir tr) ManifestValidationError ''extension artifact root must be a directory''
      (rbind (artifact_files (at_entries tr)) (\<lambda>files.
       rbind (rmap file_material (sort_key fst files)) (\<lambda>parts. Inr (concat parts))))"

definition compute_artifact_hash :: "(string \<Rightarrow> string) \<Rightarrow> artifact_tree \<Rightarrow> string result" where
  "compute_artifact_hash digest tr = rbind (artifact_material tr) (\<lambda>m. Inr (''sha256:'' @ digest m))"

section \<open>Lemmas\<close>

lemma distinct_filter_eq: "distinct xs \<longleftrightarrow> (\<forall>x\<in>set xs. \<not> 1 < length (filter ((=) x) xs))"
proof (induction xs)
  case (Cons a xs)
  have "filter ((=) a) xs = [] \<longleftrightarrow> a \<notin> set xs" by (auto simp: filter_empty_conv)
  moreover have "(\<forall>x\<in>set xs. \<not> 1 < length (filter ((=) x) (a # xs))) \<longleftrightarrow> (\<forall>x\<in>set xs. \<not> 1 < length (filter ((=) x) xs))"
    if "a \<notin> set xs" using that by auto
  ultimately show ?case using Cons.IH by auto
qed simp

lemma duplicates_Nil [simp]: "duplicates xs = [] \<longleftrightarrow> distinct xs"
proof -
  have "duplicates xs = [] \<longleftrightarrow> set (duplicates xs) = {}" by simp
  also have "\<dots> \<longleftrightarrow> distinct xs" unfolding distinct_filter_eq by (auto simp: duplicates_def)
  finally show ?thesis .
qed

lemma unknown_keys_Nil [simp]: "unknown_keys raw allowed = [] \<longleftrightarrow> fst ` set raw \<subseteq> set allowed"
proof -
  have "unknown_keys raw allowed = [] \<longleftrightarrow> set (unknown_keys raw allowed) = {}" by simp
  then show ?thesis by (auto simp: unknown_keys_def)
qed

lemma identifier_list_Inr:
  "identifier_list v n = Inr xs \<Longrightarrow> list_all is_id xs \<and> distinct xs"
  by (auto simp: identifier_list_def Let_def split: pyval.splits option.splits)

lemma parse_tool_Inr: "parse_tool tr e = Inr t \<Longrightarrow> is_id (mt_id t) \<and> mt_risk t \<in> set risk_levels \<and> list_all is_id (mt_capabilities t)"
  by (cases e) (auto simp: parse_tool_def Let_def rbind_eq_Inr dest!: identifier_list_Inr split: pyval.splits)

lemma parse_tools_Inr:
  "parse_tools tr v = Inr ts \<Longrightarrow> list_all (\<lambda>t. is_id (mt_id t) \<and> mt_risk t \<in> set risk_levels \<and> list_all is_id (mt_capabilities t)) ts"
  by (auto simp: parse_tools_def list_all_iff dest!: rmap_in parse_tool_Inr split: pyval.splits)

lemma parse_capabilities_Inr:
  "parse_capabilities raw = Inr c \<Longrightarrow> set (dc_required c) \<inter> set (dc_optional c) = {} \<and>
     list_all is_id (dc_required c) \<and> list_all is_id (dc_optional c)"
proof -
  assume *: "parse_capabilities raw = Inr c"
  have "sort (filter (\<lambda>x. x \<in> set b) a) = [] \<longleftrightarrow> set a \<inter> set b = {}" for a b :: "string list"
    by (metis (no_types, lifting) Int_emptyI IntI empty_iff filter_empty_conv set_empty set_sort)
  with * show ?thesis
    by (auto simp: parse_capabilities_def Let_def rbind_eq_Inr dest!: identifier_list_Inr split: pyval.splits)
qed

lemma parse_schema_version_Inr: "parse_schema_version raw = Inr i \<Longrightarrow> 0 \<le> i"
  by (auto simp: parse_schema_version_def split: pyval.splits if_splits)

lemma concat_filter_nonempty: "concat (map snd (filter (\<lambda>(_, d). d \<noteq> []) xs)) = concat (map snd xs)"
  by (induction xs) auto

lemma capability_ids_all:
  "capability_ids m = map mt_id (mf_tools m) @ concat [mf_event_sources m, mf_context_providers m, mf_workflows m, mf_schedules m,
     mf_notifications m, mf_migrations m, mf_forms m]"
  unfolding capability_ids_def slots_def list.map concat.simps concat_filter_nonempty by simp

lemma partition_char_Some:
  assumes "partition_char c s = (a, Some b)"
  shows "s = a @ c # b"
proof -
  from assms obtain d where ab: "a = takeWhile (\<lambda>x. x \<noteq> c) s" "dropWhile (\<lambda>x. x \<noteq> c) s = d # b"
    by (auto simp: partition_char_def split: list.splits)
  from hd_dropWhile [of "\<lambda>x. x \<noteq> c" s] ab(2) have "d = c" by auto
  with takeWhile_dropWhile_id [of "\<lambda>x. x \<noteq> c" s] ab show ?thesis by simp
qed

subsection \<open>Encodings\<close>

lemma of_char_less: "(of_char c :: nat) < 256"
  by (rule nat_of_char_less_256)

lemma utf8_char_prefix:
  assumes "utf8_char c @ r = utf8_char d @ s"
  shows "c = d \<and> r = s"
proof -
  have n: "(of_char c :: nat) < 256" "(of_char d :: nat) < 256" by (simp_all add: of_char_less)
  have inj: "char_of m = char_of k \<longleftrightarrow> m = k" if "m < 256" "k < 256" for m k :: nat
    using that by (metis of_char_of mod_less)
  have div: "192 + m div 64 < 256" "128 + m mod 64 < (256::nat)" if "m < 256" for m :: nat using that by auto
  have high: "(192 + of_char x div 64) mod 256 = 192 + (of_char x div 64 :: nat)" for x :: char
    using div(1) [OF of_char_less, of x] by (rule mod_less)
  show ?thesis
  proof (cases "(of_char c :: nat) < 128"; cases "(of_char d :: nat) < 128")
    assume "\<not> (of_char c :: nat) < 128" "\<not> (of_char d :: nat) < 128"
    with assms have "192 + (of_char c :: nat) div 64 = 192 + of_char d div 64" "128 + (of_char c :: nat) mod 64 = 128 + of_char d mod 64" "r = s"
      using inj div n by (auto simp: utf8_char_def Let_def)
    then show ?thesis by (metis add_left_cancel div_mult_mod_eq char_of_char)
  qed (use assms in \<open>auto simp: utf8_char_def Let_def high\<close>)
qed

lemma utf8_inject [simp]: "utf8 s = utf8 t \<longleftrightarrow> s = t"
proof
  assume "utf8 s = utf8 t"
  then show "s = t"
  proof (induction s arbitrary: t)
    case Nil
    then show ?case by (cases t) (auto simp: utf8_def utf8_char_def Let_def split: if_splits)
  next
    case (Cons c s)
    then obtain d t' where t: "t = d # t'"
      by (cases t) (auto simp: utf8_def utf8_char_def Let_def split: if_splits)
    with Cons.prems have "utf8_char c @ utf8 s = utf8_char d @ utf8 t'" by (simp add: utf8_def)
    from utf8_char_prefix [OF this] Cons.IH t show ?case by auto
  qed
qed simp

lemma length_be_bytes [simp]: "length (be_bytes k n) = k"
  by (induction k arbitrary: n) auto

lemma be_bytes_inject:
  assumes "be_bytes k m = be_bytes k n" "0 \<le> m" "0 \<le> n" "m < 256 ^ k" "n < 256 ^ k"
  shows "m = n"
  using assms
proof (induction k arbitrary: m n)
  case (Suc k)
  have "nat (m mod 256) < 256" "nat (n mod 256) < 256" by (simp_all add: nat_less_iff)
  moreover from Suc.prems(1) have "char_of (nat (m mod 256)) = char_of (nat (n mod 256))" "be_bytes k (m div 256) = be_bytes k (n div 256)" by simp_all
  ultimately have "nat (m mod 256) = nat (n mod 256)" by (metis of_char_of mod_less)
  then have "m mod 256 = n mod 256" by (simp add: eq_nat_nat_iff)
  moreover have "m div 256 = n div 256"
    using Suc.prems(2-5) \<open>be_bytes k (m div 256) = be_bytes k (n div 256)\<close> by (intro Suc.IH) (auto simp: div_less_iff_less_mult pos_imp_zdiv_nonneg_iff mult.commute)
  ultimately show ?case by (metis div_mult_mod_eq)
qed simp

lemma file_material_prefix:
  assumes "file_material f = Inr x" "file_material g = Inr y" "x @ r = y @ s"
  shows "f = g \<and> r = s"
proof -
  obtain p b q c where fg: "f = (p, b)" "g = (q, c)" by (cases f, cases g)
  from assms(1,2) fg have
    x: "x = be_bytes 4 (int (length (utf8 p))) @ utf8 p @ be_bytes 8 (int (length b)) @ b" "int (length (utf8 p)) < 256 ^ 4" "int (length b) < 256 ^ 8"
    and y: "y = be_bytes 4 (int (length (utf8 q))) @ utf8 q @ be_bytes 8 (int (length c)) @ c" "int (length (utf8 q)) < 256 ^ 4" "int (length c) < 256 ^ 8"
    by (auto simp: file_material_def to_bytes_def rbind_eq_Inr)
  from assms(3) x(1) y(1) have "be_bytes 4 (int (length (utf8 p))) = be_bytes 4 (int (length (utf8 q)))"
    and rest: "utf8 p @ be_bytes 8 (int (length b)) @ b @ r = utf8 q @ be_bytes 8 (int (length c)) @ c @ s" by simp_all
  with x(2) y(2) have "int (length (utf8 p)) = int (length (utf8 q))" by (intro be_bytes_inject) auto
  with rest have pq: "p = q" and "be_bytes 8 (int (length b)) @ b @ r = be_bytes 8 (int (length c)) @ c @ s" by auto
  then have "be_bytes 8 (int (length b)) = be_bytes 8 (int (length c))" and br: "b @ r = c @ s" by simp_all
  with x(3) y(3) have "int (length b) = int (length c)" by (intro be_bytes_inject) auto
  with br pq fg show ?thesis by simp
qed

lemma file_material_nonempty:
  assumes "file_material f = Inr x"
  shows "x \<noteq> []"
proof -
  from assms have "4 \<le> length x" by (cases f) (auto simp: file_material_def to_bytes_def rbind_eq_Inr)
  then show ?thesis by auto
qed

lemma materials_inject:
  assumes "rmap file_material fs = Inr xs" "rmap file_material gs = Inr ys" "concat xs = concat ys"
  shows "fs = gs"
  using assms
proof (induction fs arbitrary: xs gs ys)
  case Nil
  then show ?case by (cases gs) (auto simp: rbind_eq_Inr dest!: file_material_nonempty)
next
  case (Cons f fs)
  then obtain x xs' where x: "xs = x # xs'" "file_material f = Inr x" "rmap file_material fs = Inr xs'" by (auto simp: rbind_eq_Inr)
  from Cons.prems(2,3) x(1) file_material_nonempty [OF x(2)] have "gs \<noteq> []" by auto
  with Cons.prems(2) obtain g gs' y ys' where y: "gs = g # gs'" "ys = y # ys'" "file_material g = Inr y" "rmap file_material gs' = Inr ys'"
    by (cases gs) (auto simp: rbind_eq_Inr)
  from file_material_prefix [OF x(2) y(3), of "concat xs'" "concat ys'"] Cons.prems(3) x(1) y(2)
  have "f = g" "concat xs' = concat ys'" by auto
  with Cons.IH [OF x(3) y(4)] y(1) show ?case by simp
qed

lemma artifact_material_inject:
  assumes "artifact_material s = Inr m" "artifact_material t = Inr m"
  shows "\<exists>fs gs. artifact_files (at_entries s) = Inr fs \<and> artifact_files (at_entries t) = Inr gs \<and> set fs = set gs"
proof -
  from assms obtain fs gs xs ys where *: "artifact_files (at_entries s) = Inr fs" "artifact_files (at_entries t) = Inr gs"
    "rmap file_material (sort_key fst fs) = Inr xs" "rmap file_material (sort_key fst gs) = Inr ys" "concat xs = concat ys"
    by (auto simp: artifact_material_def rbind_eq_Inr)
  from materials_inject [OF *(3-5)] have "set (sort_key fst fs) = set (sort_key fst gs)" by simp
  with *(1,2) show ?thesis by simp
qed

lemma compute_artifact_hash_Inr: "compute_artifact_hash digest tr = Inr h \<longleftrightarrow> (\<exists>m. artifact_material tr = Inr m \<and> h = ''sha256:'' @ digest m)"
  by (auto simp: compute_artifact_hash_def rbind_eq_Inr)

subsection \<open>The lock\<close>

lemma expect_Some: "expect c s = Some t \<longleftrightarrow> s = c # t"
  by (cases s) auto

lemma pin_extras_Some:
  assumes "pin_extras s = Some t"
  shows "\<exists>e. s = e @ t"
proof (cases "expect (CHR ''['') s")
  case (Some u)
  let ?c = "\<lambda>x. alnum x \<or> x \<in> set ''._,-''"
  from assms Some have "dropWhile ?c u = CHR '']'' # t"
    by (simp add: pin_extras_def Let_def expect_Some split: if_splits)
  then have "u = takeWhile ?c u @ CHR '']'' # t" by (metis takeWhile_dropWhile_id)
  with Some show ?thesis unfolding expect_Some by (intro exI [of _ "CHR ''['' # takeWhile ?c u @ '']''"]) simp
qed (use assms in \<open>simp add: pin_extras_def\<close>)

lemma pinned_version_Some:
  assumes "pinned_version s = Some v"
  shows "\<exists>name. s = name @ ''=='' @ v \<and> name \<noteq> [] \<and> v \<noteq> [] \<and> list_all pin_version_char v"
proof -
  let ?c = "\<lambda>x. alnum x \<or> x \<in> set ''._-''"
  from assms obtain t where t: "takeWhile ?c s \<noteq> []" "pin_extras (dropWhile ?c s) = Some t" "t = CHR ''='' # CHR ''='' # v"
      "v \<noteq> []" "list_all pin_version_char v"
    unfolding pinned_version_def Let_def by (auto simp: expect_Some bind_eq_Some_conv split: if_splits)
  from pin_extras_Some [OF t(2)] obtain e where e: "dropWhile ?c s = e @ t" by blast
  have "s = takeWhile ?c s @ e @ t" by (metis e takeWhile_dropWhile_id)
  with t show ?thesis by (intro exI [of _ "takeWhile ?c s @ e"]) auto
qed

lemma hash_tokens:
  assumes "\<forall>t\<in>set ts. is_hash_token t"
  shows "ts = map ((@) ''--hash=sha256:'') (map (drop 14) ts) \<and> list_all is_digest (map (drop 14) ts)"
proof -
  have "''--hash=sha256:'' @ drop 14 t = t" if "is_hash_token t" for t
    using that unfolding is_hash_token_def by (metis append_take_drop_id)
  then have "map ((@) ''--hash=sha256:'' \<circ> drop 14) ts = ts" using assms by (intro map_idI) simp
  with assms show ?thesis by (auto simp: is_hash_token_def list_all_iff simp del: append.simps)
qed

text \<open>A requirement line as pip reads it: one version, and every file it may install by its hash.\<close>

definition pinned_line :: "string \<Rightarrow> bool" where
  "pinned_line line \<longleftrightarrow>
     (\<exists>name v hs. words line = (name @ ''=='' @ v) # map ((@) ''--hash=sha256:'') hs \<and> name \<noteq> [] \<and> v \<noteq> [] \<and> hs \<noteq> [] \<and>
        is_exact_version v \<and> list_all pin_version_char v \<and> list_all is_digest hs)"

lemma check_lock_line_Inr:
  assumes "check_lock_line (n, line) = Inr ()" "line \<noteq> []" "hd line \<noteq> CHR ''#''"
  shows "CHR '';'' \<notin> set line \<and> \<not> occurs ''://'' line \<and> pinned_line line"
proof -
  from assms obtain r hs v where *: "words line = r # hs" "pinned_version r = Some v" "is_exact_version v" "hs \<noteq> []" "\<forall>t\<in>set hs. is_hash_token t"
    and line: "CHR '';'' \<notin> set line \<and> \<not> occurs ''://'' line"
    unfolding check_lock_line_def by (auto split: list.splits option.splits)
  note ds = hash_tokens [OF *(5)]
  from pinned_version_Some [OF *(2)] obtain name where "r = name @ ''=='' @ v" "name \<noteq> []" "v \<noteq> []" "list_all pin_version_char v" by blast
  with * ds have "pinned_line line"
    unfolding pinned_line_def by (intro exI [of _ name] exI [of _ v] exI [of _ "map (drop 14) hs"]) simp
  with line show ?thesis by simp
qed

definition manifest_ok :: "manifest \<Rightarrow> bool" where
  "manifest_ok m \<longleftrightarrow>
     is_id (mf_id m) \<and> is_semver (mf_version m) \<and>
     mf_entrypoint m = entry_module m @ '':'' @ entry_callable m \<and> list_all is_name (split_char (CHR ''.'') (entry_module m)) \<and>
     is_name (entry_callable m) \<and> 0 \<le> mf_state_schema_version m \<and>
     distinct (capability_ids m) \<and> list_all is_id (capability_ids m) \<and>
     list_all (\<lambda>t. mt_risk t \<in> set risk_levels) (mf_tools m) \<and>
     set (dc_required (mf_capabilities m)) \<inter> set (dc_optional (mf_capabilities m)) = {}"

lemma entrypoint_parts:
  assumes "is_entrypoint (mf_entrypoint m)"
  shows "mf_entrypoint m = entry_module m @ '':'' @ entry_callable m \<and> list_all is_name (split_char (CHR ''.'') (entry_module m)) \<and>
    is_name (entry_callable m)"
proof -
  from assms obtain a b where ab: "partition_char (CHR '':'') (mf_entrypoint m) = (a, Some b)" "list_all is_name (split_char (CHR ''.'') a)" "is_name b"
    by (auto simp: is_entrypoint_def split: prod.splits option.splits)
  with partition_char_Some [OF ab(1)] show ?thesis by (simp add: entry_module_def entry_callable_def)
qed

lemma slot_values_ids:
  assumes "rmap (\<lambda>key. identifier_list (get_or raw key (VList [])) key) slot_keys = Inr vs"
  shows "list_all (list_all is_id) vs" "vs = [vs ! 0, vs ! 1, vs ! 2, vs ! 3, vs ! 4, vs ! 5, vs ! 6]"
proof -
  show "list_all (list_all is_id) vs" unfolding list_all_iff [of "list_all is_id"] using rmap_in [OF assms] identifier_list_Inr by blast
  from assms show "vs = [vs ! 0, vs ! 1, vs ! 2, vs ! 3, vs ! 4, vs ! 5, vs ! 6]"
    by (auto simp: slot_keys_def rbind_eq_Inr)
qed

lemma parse_table_Inr:
  assumes "parse_table P tr raw = Inr m"
  shows "is_id (mf_id m) \<and> is_semver (mf_version m) \<and> is_entrypoint (mf_entrypoint m)"
    and "\<exists>lock. at_file tr (mf_dependency_lock m) = FileRegular (Inr lock) \<and> validate_lockfile lock = Inr ()"
    and "0 \<le> mf_state_schema_version m"
    and "\<exists>v. parse_tools tr v = Inr (mf_tools m)"
    and "\<exists>vs. rmap (\<lambda>key. identifier_list (get_or raw key (VList [])) key) slot_keys = Inr vs \<and> distinct (map mt_id (mf_tools m) @ concat vs) \<and>
      capability_ids m = map mt_id (mf_tools m) @ concat vs"
    and "parse_capabilities raw = Inr (mf_capabilities m)"
proof -
  note step = assms [unfolded parse_table_def Let_def rbind_eq_Inr ensure_eq_Inr duplicates_Nil]
  from step show "is_id (mf_id m) \<and> is_semver (mf_version m) \<and> is_entrypoint (mf_entrypoint m)" by (elim exE conjE) clarsimp
  from step show "\<exists>lock. at_file tr (mf_dependency_lock m) = FileRegular (Inr lock) \<and> validate_lockfile lock = Inr ()"
    by (elim exE conjE) (auto simp: require_safe_file_def split: file_status.splits)
  from step show "0 \<le> mf_state_schema_version m" by (elim exE conjE) (auto dest: parse_schema_version_Inr)
  from step show "\<exists>v. parse_tools tr v = Inr (mf_tools m)" by (elim exE conjE) auto
  from step show "parse_capabilities raw = Inr (mf_capabilities m)" by (elim exE conjE) clarsimp
  from step obtain vs where vs: "rmap (\<lambda>key. identifier_list (get_or raw key (VList [])) key) slot_keys = Inr vs"
    "distinct (map mt_id (mf_tools m) @ concat vs)" "mf_event_sources m = vs ! 0" "mf_context_providers m = vs ! 1" "mf_workflows m = vs ! 2"
    "mf_schedules m = vs ! 3" "mf_notifications m = vs ! 4" "mf_migrations m = vs ! 5" "mf_forms m = vs ! 6"
    by (elim exE conjE) (simp only: sum.inject, hypsubst, simp)
  have "capability_ids m = map mt_id (mf_tools m) @ concat vs"
    unfolding capability_ids_all vs(3-9) by (subst (8) slot_values_ids(2) [OF vs(1)]) simp
  with vs(1,2) show "\<exists>vs. rmap (\<lambda>key. identifier_list (get_or raw key (VList [])) key) slot_keys = Inr vs \<and>
    distinct (map mt_id (mf_tools m) @ concat vs) \<and> capability_ids m = map mt_id (mf_tools m) @ concat vs" by blast
qed

lemma parse_manifest_ok:
  assumes "parse_manifest P tr = Inr m"
  shows "manifest_ok m"
proof -
  from assms obtain raw where raw: "parse_table P tr raw = Inr m" by (auto simp: parse_manifest_def split: toml_file.splits)
  note facts = parse_table_Inr [OF raw]
  from facts(5) obtain vs where vs: "rmap (\<lambda>key. identifier_list (get_or raw key (VList [])) key) slot_keys = Inr vs"
    "distinct (capability_ids m)" "capability_ids m = map mt_id (mf_tools m) @ concat vs" by auto
  from facts(4) parse_tools_Inr have tools: "list_all (\<lambda>t. is_id (mt_id t) \<and> mt_risk t \<in> set risk_levels) (mf_tools m)"
    by (fastforce simp: list_all_iff)
  with slot_values_ids(1) [OF vs(1)] have "list_all is_id (capability_ids m)" unfolding vs(3) by (auto simp: list_all_iff)
  with facts(1,3) vs(2) tools parse_capabilities_Inr [OF facts(6)] entrypoint_parts [of m] show ?thesis
    unfolding manifest_ok_def by (auto simp: list_all_iff)
qed

lemma validate_lockfile_Inr:
  assumes "validate_lockfile lock = Inr ()" "(n, line) \<in> set (logical_lines 1 [] 0 (splitlines [] lock))" "line \<noteq> []" "hd line \<noteq> CHR ''#''"
  shows "CHR '';'' \<notin> set line \<and> \<not> occurs ''://'' line \<and> pinned_line line"
  using assms by (intro check_lock_line_Inr) (auto simp: validate_lockfile_def)

lemma artifact_files_keys:
  assumes "artifact_files es = Inr fs" "distinct (map (posix \<circ> te_parts) es)"
  shows "distinct (map fst fs)"
proof -
  let ?f = "\<lambda>e. case te_content e of None \<Rightarrow> [] | Some bytes \<Rightarrow> [(posix (te_parts e), bytes)]"
  have keys: "fst ` set (concat (map ?f xs)) \<subseteq> set (map (posix \<circ> te_parts) xs)" for xs
    by (induction xs) (auto split: option.splits)
  have "distinct (map fst (concat (map ?f xs)))" if "distinct (map (posix \<circ> te_parts) xs)" for xs
    using that
  proof (induction xs)
    case (Cons e xs)
    with keys [of xs] show ?case by (auto split: option.splits)
  qed simp
  moreover have "distinct (map (posix \<circ> te_parts) (filter included es))" using assms(2) by (rule distinct_map_filter)
  ultimately show ?thesis using assms(1) by (auto simp: artifact_files_def Let_def)
qed

lemma sort_key_set_eq:
  fixes xs ys :: "(string \<times> string) list"
  assumes "set xs = set ys" "distinct (map fst xs)" "distinct (map fst ys)"
  shows "sort_key fst xs = sort_key fst ys"
proof (rule map_sorted_distinct_set_unique)
  show "inj_on fst (set (sort_key fst xs) \<union> set (sort_key fst ys))" using assms by (simp add: distinct_map)
qed (use assms in \<open>simp_all add: distinct_map\<close>)

section \<open>Sample artifact\<close>

definition demo_raw :: "(string \<times> pyval) list" where
  "demo_raw = [(''manifest_version'', VStr ''1''), (''id'', VStr ''nju.mail''), (''name'', VStr ''Mail''), (''version'', VStr ''1.2.0''),
     (''core_api'', VStr ''>=1.0,<2''), (''python'', VStr ''>=3.12''), (''entrypoint'', VStr ''mail.worker:main''),
     (''dependency_lock'', VStr ''lock''), (''state_schema_version'', VInt 1), (''healthcheck'', VStr ''ping''),
     (''tools'', VList [VDict [(''id'', VStr ''mail.send''), (''risk'', VStr ''EXTERNAL_WRITE''), (''input_schema'', VStr ''in''),
        (''output_schema'', VStr ''out''), (''capabilities'', VList [VStr ''host.mail''])]]),
     (''workflows'', VList [VStr ''mail.daily''])]"

definition demo_hash :: string where
  "demo_hash = replicate 64 (CHR ''a'')"

definition demo_lock :: string where
  "demo_lock = ''# pinned'' @ [CHR 0x0A] @ ''httpx==0.27.0 '' @ [CHR 0x5C, CHR 0x0A] @ ''  --hash=sha256:'' @ demo_hash @ [CHR 0x0A]"

definition demo_entries :: "tree_entry list" where
  "demo_entries = [\<lparr>te_parts = [''lock''], te_symlink = False, te_content = Some demo_lock\<rparr>,
     \<lparr>te_parts = [''src''], te_symlink = False, te_content = None\<rparr>,
     \<lparr>te_parts = [''src'', ''a.py''], te_symlink = False, te_content = Some ''pass''\<rparr>,
     \<lparr>te_parts = [''.git'', ''HEAD''], te_symlink = True, te_content = Some ''x''\<rparr>]"

definition demo_tree :: artifact_tree where
  "demo_tree = \<lparr>at_root = ''/ext'', at_is_dir = True, at_toml = TomlTable demo_raw,
     at_file = (\<lambda>r. if r = ''lock'' then FileRegular (Inr demo_lock) else FileRegular (Inr [])), at_entries = demo_entries\<rparr>"

lemma demo_parses: "is_ok (parse_manifest (mk_parser (3, 12)) demo_tree)"
  by code_simp

definition edited_tree :: artifact_tree where
  "edited_tree = demo_tree\<lparr>at_entries := [\<lparr>te_parts = [''src'', ''a.py''], te_symlink = False, te_content = Some ''exit''\<rparr>]\<rparr>"

lemma demo_hash_ok: "is_ok (compute_artifact_hash id demo_tree)" "is_ok (compute_artifact_hash id edited_tree)"
  by code_simp+

section \<open>Properties\<close>

text \<open>
  C28. A manifest that the static check accepts is well formed (identifiers, semantic version,
  entry point, risk levels, capability identifiers unique across all slots, no capability both
  required and optional), and every requirement line of its dependency lock pins one exact version
  and lists the SHA-256 hashes of the files, with no environment marker and no URL.
\<close>

theorem manifest_check_sound:
  assumes "parse_manifest P tr = Inr m"
  shows "manifest_ok m \<and>
    (\<exists>lock. at_file tr (mf_dependency_lock m) = FileRegular (Inr lock) \<and>
      (\<forall>(n, line)\<in>set (logical_lines 1 [] 0 (splitlines [] lock)).
         line = [] \<or> hd line = CHR ''#'' \<or> CHR '';'' \<notin> set line \<and> \<not> occurs ''://'' line \<and> pinned_line line))"
proof -
  from assms obtain raw where "parse_table P tr raw = Inr m" by (auto simp: parse_manifest_def split: toml_file.splits)
  from parse_table_Inr(2) [OF this] obtain lock where
    lock: "at_file tr (mf_dependency_lock m) = FileRegular (Inr lock)" "validate_lockfile lock = Inr ()" by blast
  from validate_lockfile_Inr [OF lock(2)] lock(1) parse_manifest_ok [OF assms] show ?thesis by blast
qed

theorem manifest_check_sound_witness:
  "\<exists>m lock. parse_manifest (mk_parser (3, 12)) demo_tree = Inr m \<and> manifest_ok m \<and>
     at_file demo_tree (mf_dependency_lock m) = FileRegular (Inr lock)"
proof -
  from demo_parses obtain m where m: "parse_manifest (mk_parser (3, 12)) demo_tree = Inr m" unfolding is_ok_iff by blast
  from manifest_check_sound [OF m] m show ?thesis by blast
qed

text \<open>
  C27. The hash the user confirms identifies the artifact: two staged trees have the same hash exactly
  when they contain the same files under the same names, apart from the ignored directories,
  provided the digest does not collide on the two encodings.
\<close>

theorem artifact_hash_exact:
  assumes "compute_artifact_hash digest s = Inr h" "compute_artifact_hash digest t = Inr h'"
    and "distinct (map (posix \<circ> te_parts) (at_entries s))" "distinct (map (posix \<circ> te_parts) (at_entries t))"
    and "\<And>m m'. artifact_material s = Inr m \<Longrightarrow> artifact_material t = Inr m' \<Longrightarrow> digest m = digest m' \<Longrightarrow> m = m'"
  shows "\<exists>fs gs. artifact_files (at_entries s) = Inr fs \<and> artifact_files (at_entries t) = Inr gs \<and> (h = h' \<longleftrightarrow> set fs = set gs)"
proof -
  from assms(1,2) obtain m m' where m: "artifact_material s = Inr m" "artifact_material t = Inr m'"
    and h: "h = ''sha256:'' @ digest m" "h' = ''sha256:'' @ digest m'" unfolding compute_artifact_hash_Inr by blast
  from m obtain fs gs where f: "artifact_files (at_entries s) = Inr fs" "artifact_files (at_entries t) = Inr gs"
    by (auto simp: artifact_material_def rbind_eq_Inr)
  have "set fs = set gs" if "h = h'"
  proof -
    from that h assms(5) [OF m] have "m = m'" by simp
    with artifact_material_inject [of s m t] m f show ?thesis by auto
  qed
  moreover have "h = h'" if "set fs = set gs"
  proof -
    from sort_key_set_eq [OF that] artifact_files_keys f assms(3,4) have "sort_key fst fs = sort_key fst gs" by blast
    with m f h show ?thesis by (auto simp: artifact_material_def rbind_eq_Inr)
  qed
  ultimately show ?thesis using f by blast
qed

theorem artifact_hash_exact_witness:
  "\<exists>h h'. compute_artifact_hash id demo_tree = Inr h \<and> compute_artifact_hash id edited_tree = Inr h' \<and> h \<noteq> h'"
proof -
  obtain h h' where h: "compute_artifact_hash id demo_tree = Inr h" "compute_artifact_hash id edited_tree = Inr h'"
    using demo_hash_ok unfolding is_ok_iff by blast
  have d: "distinct (map (posix \<circ> te_parts) (at_entries demo_tree))" "distinct (map (posix \<circ> te_parts) (at_entries edited_tree))"
    by code_simp+
  from artifact_hash_exact [OF h d] obtain fs gs where
    *: "artifact_files (at_entries demo_tree) = Inr fs" "artifact_files (at_entries edited_tree) = Inr gs" "h = h' \<longleftrightarrow> set fs = set gs" by auto
  have "artifact_files (at_entries demo_tree) = Inr [(''lock'', demo_lock), (''src/a.py'', ''pass'')]"
    "artifact_files (at_entries edited_tree) = Inr [(''src/a.py'', ''exit'')]" by code_simp+
  with * h show ?thesis by auto
qed

end
