(* ===== verification/PA_Extensions.thy ===== *)
theory PA_Extensions
  imports PA_Manifest
begin

text \<open>
  The extension host's own state: \<open>core/extensions/models.py\<close> (lifecycle states, records and the
  name of an extension's data schema), \<open>core/extensions/registry.py\<close> (the snapshots of published
  capabilities) and \<open>infrastructure/memory/extensions.py\<close> (the store of records).
\<close>

section \<open>Models\<close>

datatype extension_state =
    ES_DISCOVERED | ES_STAGED | ES_REJECTED | ES_INSTALLED_DISABLED | ES_STARTING | ES_ENABLED | ES_QUARANTINED
  | ES_DRAINING | ES_DISABLED | ES_UNINSTALLING | ES_UNINSTALLED | ES_UPGRADING | ES_ROLLED_BACK

fun extension_state_value :: "extension_state \<Rightarrow> string" where
  "extension_state_value ES_DISCOVERED = ''DISCOVERED''"
| "extension_state_value ES_STAGED = ''STAGED''"
| "extension_state_value ES_REJECTED = ''REJECTED''"
| "extension_state_value ES_INSTALLED_DISABLED = ''INSTALLED_DISABLED''"
| "extension_state_value ES_STARTING = ''STARTING''"
| "extension_state_value ES_ENABLED = ''ENABLED''"
| "extension_state_value ES_QUARANTINED = ''QUARANTINED''"
| "extension_state_value ES_DRAINING = ''DRAINING''"
| "extension_state_value ES_DISABLED = ''DISABLED''"
| "extension_state_value ES_UNINSTALLING = ''UNINSTALLING''"
| "extension_state_value ES_UNINSTALLED = ''UNINSTALLED''"
| "extension_state_value ES_UPGRADING = ''UPGRADING''"
| "extension_state_value ES_ROLLED_BACK = ''ROLLED_BACK''"

record extension_record =
  er_manifest :: manifest
  er_artifact_hash :: string
  er_state :: extension_state
  er_install_path :: "string option"
  er_data_retained :: bool
  er_tombstone :: bool

abbreviation er_id :: "extension_record \<Rightarrow> string" where
  "er_id r \<equiv> mf_id (er_manifest r)"

definition new_extension_record :: "manifest \<Rightarrow> string \<Rightarrow> extension_state \<Rightarrow> string option \<Rightarrow> extension_record" where
  "new_extension_record m h st path =
     \<lparr>er_manifest = m, er_artifact_hash = h, er_state = st, er_install_path = path, er_data_retained = True, er_tombstone = False\<rparr>"

record capability_owner =
  co_extension_id :: string
  co_extension_version :: string
  co_slot :: string

record ext_snapshot =
  xs_generation :: int
  xs_extensions :: "(string \<times> extension_record) list"
  xs_capabilities :: "(string \<times> capability_owner) list"

definition empty_registry :: ext_snapshot where
  "empty_registry = \<lparr>xs_generation = 0, xs_extensions = [], xs_capabilities = []\<rparr>"

definition owner_of :: "ext_snapshot \<Rightarrow> string \<Rightarrow> capability_owner option" where
  "owner_of s capability_id = dget (xs_capabilities s) capability_id"

subsection \<open>The data namespace\<close>

definition hex_str :: "nat \<Rightarrow> string" where
  "hex_str n = (if n < 16 then [hex_digit n] else [hex_digit (n div 16), hex_digit (n mod 16)])"

definition namespace_char :: "char \<Rightarrow> string" where
  "namespace_char c = (if lower_letter c \<or> is_digit c then [c] else ''_'' @ hex_str (of_char c) @ ''_'')"

definition namespace_encode :: "string \<Rightarrow> string" where
  "namespace_encode s = concat (map namespace_char s)"

definition data_namespace :: "(string \<Rightarrow> string) \<Rightarrow> string \<Rightarrow> string" where
  "data_namespace digest extension_id =
     (let encoded = namespace_encode extension_id; namespace = ''ext_'' @ encoded in
      if length namespace \<le> 63 then namespace
      else ''ext_'' @ take 40 encoded @ ''_'' @ take 16 (digest (utf8 extension_id)))"

section \<open>The registry\<close>

fun claim_ids :: "manifest \<Rightarrow> string \<Rightarrow> string list \<Rightarrow> (string \<times> capability_owner) list \<Rightarrow> (string \<times> capability_owner) list result" where
  "claim_ids m slot [] caps = Inr caps"
| "claim_ids m slot (identifier # rest) caps =
     (case dget caps identifier of
        Some previous \<Rightarrow> raise DuplicateCapabilityError (''capability '' @ py_repr identifier @ '' is declared by both '' @
          py_repr (co_extension_id previous) @ '' and '' @ py_repr (mf_id m))
      | None \<Rightarrow> claim_ids m slot rest
          (dset identifier \<lparr>co_extension_id = mf_id m, co_extension_version = mf_version m, co_slot = slot\<rparr> caps))"

fun claim_slots :: "manifest \<Rightarrow> (string \<times> string list) list \<Rightarrow> (string \<times> capability_owner) list \<Rightarrow> (string \<times> capability_owner) list result" where
  "claim_slots m [] caps = Inr caps"
| "claim_slots m ((slot, identifiers) # rest) caps = rbind (claim_ids m slot identifiers caps) (claim_slots m rest)"

fun build_from ::
  "extension_record list \<Rightarrow> (string \<times> extension_record) list \<Rightarrow> (string \<times> capability_owner) list
   \<Rightarrow> ((string \<times> extension_record) list \<times> (string \<times> capability_owner) list) result" where
  "build_from [] exts caps = Inr (exts, caps)"
| "build_from (r # rs) exts caps =
     (if dget exts (er_id r) \<noteq> None
      then raise DuplicateCapabilityError (''extension id already registered: '' @ er_id r)
      else rbind (claim_slots (er_manifest r) (slots (er_manifest r)) caps) (build_from rs (dset (er_id r) r exts)))"

definition registry_build :: "int \<Rightarrow> extension_record list \<Rightarrow> ext_snapshot result" where
  "registry_build generation records =
     rbind (build_from records [] []) (\<lambda>(exts, caps).
       Inr \<lparr>xs_generation = generation, xs_extensions = exts, xs_capabilities = caps\<rparr>)"

text \<open>The lock makes each operation one step; the snapshot changes only when \<open>registry_build\<close> returns.\<close>

definition publish_records :: "extension_record list \<Rightarrow> ext_snapshot \<Rightarrow> ext_snapshot result \<times> ext_snapshot" where
  "publish_records records s =
     (case registry_build (xs_generation s + 1) records of Inl e \<Rightarrow> (Inl e, s) | Inr s' \<Rightarrow> (Inr s', s'))"

definition registry_enable :: "extension_record \<Rightarrow> ext_snapshot \<Rightarrow> ext_snapshot result \<times> ext_snapshot" where
  "registry_enable r s =
     (if er_state r \<noteq> ES_ENABLED then (raise ExtensionError ''only a healthy ENABLED record can enter the registry'', s)
      else publish_records (map snd (dset (er_id r) r (xs_extensions s))) s)"

definition registry_disable :: "string \<Rightarrow> ext_snapshot \<Rightarrow> ext_snapshot result \<times> ext_snapshot" where
  "registry_disable extension_id s = publish_records (map snd (dpop extension_id (xs_extensions s))) s"

definition registry_replace_all :: "extension_record list \<Rightarrow> ext_snapshot \<Rightarrow> ext_snapshot result \<times> ext_snapshot" where
  "registry_replace_all records s =
     (let invalid = map er_id (filter (\<lambda>r. er_state r \<noteq> ES_ENABLED) records) in
      if invalid \<noteq> [] then (raise ExtensionError (''registry records are not enabled: '' @ repr_list invalid), s)
      else publish_records records s)"

text \<open>\<open>discover\<close>: the trees are the directories with a manifest, in the order of their paths.\<close>

definition registry_discover :: "manifest_parser \<Rightarrow> artifact_tree list \<Rightarrow> manifest list result" where
  "registry_discover P trees =
     rbind (rmap (parse_manifest P) trees) (\<lambda>ms.
       ensure (duplicates (map mf_id ms) = []) ExtensionError
         (''duplicate extension ids: '' @ repr_list (duplicates (map mf_id ms))) (Inr ms))"

section \<open>The lifecycle store\<close>

type_synonym ext_store = "(string \<times> extension_record) list"

definition store_all :: "ext_store \<Rightarrow> extension_record list" where
  "store_all s = map snd (sort_key fst s)"

definition store_save :: "extension_record \<Rightarrow> (extension_state \<times> string) option \<Rightarrow> ext_store \<Rightarrow> bool \<times> ext_store" where
  "store_save r expected s =
     (let current = dget s (er_id r) in
      if (case expected of
            None \<Rightarrow> False
          | Some e \<Rightarrow> (case current of None \<Rightarrow> True | Some c \<Rightarrow> (er_state c, mf_version (er_manifest c)) \<noteq> e))
      then (False, s) else (True, dset (er_id r) r s))"

section \<open>Lemmas on the registry\<close>

definition owners :: "manifest \<Rightarrow> (string \<times> capability_owner) list" where
  "owners m = concat (map (\<lambda>(slot, ids). map (\<lambda>i. (i, \<lparr>co_extension_id = mf_id m, co_extension_version = mf_version m, co_slot = slot\<rparr>)) ids) (slots m))"

lemma owners_keys: "map fst (owners m) = capability_ids m"
  by (simp add: owners_def capability_ids_def map_concat comp_def case_prod_unfold)

lemma dset_fresh: "dget d k = None \<Longrightarrow> dset k v d = d @ [(k, v)]"
  by (induction d) (auto split: if_splits)

lemma dget_None_keys: "dget d k = None \<longleftrightarrow> k \<notin> set (map fst d)"
  by (simp add: map_of_eq_None_iff)

lemma claim_ids_Inr:
  "claim_ids m slot ids caps = Inr caps' \<longleftrightarrow>
     distinct ids \<and> set ids \<inter> fst ` set caps = {} \<and>
     caps' = caps @ map (\<lambda>i. (i, \<lparr>co_extension_id = mf_id m, co_extension_version = mf_version m, co_slot = slot\<rparr>)) ids"
proof (induction ids arbitrary: caps)
  case (Cons i ids)
  show ?case
  proof (cases "dget caps i")
    case None
    then have "i \<notin> fst ` set caps" by (simp add: map_of_eq_None_iff)
    with None show ?thesis by (auto simp: Cons.IH dset_fresh)
  next
    case (Some o')
    then have "i \<in> fst ` set caps" by (force dest: map_of_SomeD)
    with Some show ?thesis by auto
  qed
qed auto

lemma claim_slots_Inr:
  "claim_slots m ss caps = Inr caps' \<longleftrightarrow>
     distinct (concat (map snd ss)) \<and> set (concat (map snd ss)) \<inter> fst ` set caps = {} \<and>
     caps' = caps @ concat (map (\<lambda>(slot, ids). map (\<lambda>i. (i, \<lparr>co_extension_id = mf_id m, co_extension_version = mf_version m, co_slot = slot\<rparr>)) ids) ss)"
proof (induction ss arbitrary: caps)
  case (Cons x ss)
  obtain slot ids where x: "x = (slot, ids)" by (cases x)
  show ?case unfolding x claim_slots.simps rbind_eq_Inr claim_ids_Inr Cons.IH
    by (auto simp: image_Un image_image)
qed auto

lemma claim_manifest_Inr:
  "claim_slots m (slots m) caps = Inr caps' \<longleftrightarrow>
     distinct (capability_ids m) \<and> set (capability_ids m) \<inter> fst ` set caps = {} \<and> caps' = caps @ owners m"
  by (simp add: claim_slots_Inr capability_ids_def owners_def)

lemma owners_fst: "fst ` set (owners m) = set (capability_ids m)"
  by (metis owners_keys set_map)

abbreviation er_capabilities :: "extension_record \<Rightarrow> string list" where
  "er_capabilities r \<equiv> capability_ids (er_manifest r)"

lemma build_from_Inr:
  "build_from rs exts caps = Inr (exts', caps') \<longleftrightarrow>
     distinct (map er_id rs) \<and> er_id ` set rs \<inter> fst ` set exts = {} \<and>
     distinct (concat (map er_capabilities rs)) \<and> set (concat (map er_capabilities rs)) \<inter> fst ` set caps = {} \<and>
     exts' = exts @ map (\<lambda>r. (er_id r, r)) rs \<and> caps' = caps @ concat (map (\<lambda>r. owners (er_manifest r)) rs)"
proof (induction rs arbitrary: exts caps)
  case (Cons r rs)
  show ?case
  proof (cases "dget exts (er_id r)")
    case None
    then have "er_id r \<notin> fst ` set exts" by (simp add: map_of_eq_None_iff)
    with None show ?thesis
      by (auto simp: rbind_eq_Inr claim_manifest_Inr Cons.IH dset_fresh image_Un owners_fst)
  next
    case (Some q)
    then have "er_id r \<in> fst ` set exts" by (force dest: map_of_SomeD)
    with Some show ?thesis by auto
  qed
qed auto

text \<open>Records that can be published together: distinct identifiers, no capability declared twice.\<close>

definition compatible :: "extension_record list \<Rightarrow> bool" where
  "compatible rs \<longleftrightarrow> distinct (map er_id rs) \<and> distinct (concat (map er_capabilities rs))"

definition snapshot_of :: "int \<Rightarrow> extension_record list \<Rightarrow> ext_snapshot" where
  "snapshot_of g rs = \<lparr>xs_generation = g, xs_extensions = map (\<lambda>r. (er_id r, r)) rs,
     xs_capabilities = concat (map (\<lambda>r. owners (er_manifest r)) rs)\<rparr>"

lemma registry_build_Inr: "registry_build g rs = Inr s \<longleftrightarrow> compatible rs \<and> s = snapshot_of g rs"
  by (auto simp: registry_build_def rbind_eq_Inr build_from_Inr compatible_def snapshot_of_def)

definition registry_ok :: "ext_snapshot \<Rightarrow> bool" where
  "registry_ok s \<longleftrightarrow> (\<exists>rs. compatible rs \<and> (\<forall>r\<in>set rs. er_state r = ES_ENABLED) \<and> s = snapshot_of (xs_generation s) rs)"

definition published :: "ext_snapshot \<Rightarrow> string \<Rightarrow> extension_record option" where
  "published s i = dget (xs_extensions s) i"

lemma registry_ok_empty [simp]: "registry_ok empty_registry"
  by (auto simp: registry_ok_def empty_registry_def snapshot_of_def compatible_def intro!: exI [of _ "[]"])

lemma published_empty [simp]: "published empty_registry i = None"
  by (simp add: published_def empty_registry_def)

lemma published_snapshot:
  assumes "compatible rs"
  shows "published (snapshot_of g rs) i = Some r \<longleftrightarrow> r \<in> set rs \<and> er_id r = i"
proof -
  have "distinct (map fst (map (\<lambda>r. (er_id r, r)) rs))" using assms by (simp add: compatible_def comp_def)
  from map_of_eq_Some_iff [OF this] show ?thesis by (auto simp: published_def snapshot_of_def)
qed

lemma published_enabled:
  assumes "registry_ok s" "published s i = Some r"
  shows "er_state r = ES_ENABLED \<and> er_id r = i"
proof -
  from assms(1) obtain rs where rs: "compatible rs" "\<forall>r\<in>set rs. er_state r = ES_ENABLED" "s = snapshot_of (xs_generation s) rs"
    unfolding registry_ok_def by blast
  from assms(2) published_snapshot [OF rs(1), of "xs_generation s"] rs(3) have "r \<in> set rs \<and> er_id r = i" by metis
  with rs(2) show ?thesis by blast
qed

lemma publish_records_cases:
  obtains s' where "publish_records rs s = (Inr s', s')" "compatible rs" "s' = snapshot_of (xs_generation s + 1) rs"
    | e where "publish_records rs s = (Inl e, s)" "\<not> compatible rs"
proof (cases "registry_build (xs_generation s + 1) rs")
  case (Inl e)
  then have "\<not> compatible rs" by (metis registry_build_Inr sum.distinct(1))
  with that(2) Inl show ?thesis by (simp add: publish_records_def)
next
  case (Inr s')
  with registry_build_Inr that(1) show ?thesis by (simp add: publish_records_def)
qed

lemma publish_ok:
  assumes "registry_ok s" "\<forall>r\<in>set rs. er_state r = ES_ENABLED"
  shows "registry_ok (snd (publish_records rs s))"
proof (rule publish_records_cases [of rs s])
  fix s' assume "publish_records rs s = (Inr s', s')" "compatible rs" "s' = snapshot_of (xs_generation s + 1) rs"
  moreover from this(3) have "s' = snapshot_of (xs_generation s') rs" by (simp add: snapshot_of_def)
  ultimately show ?thesis unfolding registry_ok_def using assms(2) by auto
qed (use assms(1) in simp)

lemma dpop_snapshot: "dpop i (map (\<lambda>r. (er_id r, r)) rs) = map (\<lambda>r. (er_id r, r)) (filter (\<lambda>r. er_id r \<noteq> i) rs)"
  by (induction rs) auto

lemma compatible_filter: "compatible rs \<Longrightarrow> compatible (filter P rs)"
proof (induction rs)
  case (Cons r rs)
  then have "compatible rs" "er_id r \<notin> er_id ` set rs" "distinct (er_capabilities r)"
    "set (er_capabilities r) \<inter> set (concat (map er_capabilities rs)) = {}" by (auto simp: compatible_def)
  with Cons.IH show ?case by (auto simp: compatible_def)
qed simp

text \<open>Revoking an extension never fails: the remaining records stay compatible.\<close>

lemma registry_disable_ok:
  assumes "registry_ok s"
  obtains s' where "registry_disable i s = (Inr s', s')" "registry_ok s'"
    "\<And>j. published s' j = (if j = i then None else published s j)"
proof -
  from assms obtain rs where rs: "compatible rs" "\<forall>r\<in>set rs. er_state r = ES_ENABLED" "s = snapshot_of (xs_generation s) rs"
    unfolding registry_ok_def by blast
  let ?rs = "filter (\<lambda>r. er_id r \<noteq> i) rs"
  have ext: "xs_extensions s = map (\<lambda>r. (er_id r, r)) rs" by (subst rs(3)) (simp add: snapshot_of_def)
  then have "map snd (dpop i (xs_extensions s)) = ?rs" by (simp add: dpop_snapshot comp_def)
  moreover have c: "compatible ?rs" using rs(1) by (rule compatible_filter)
  ultimately have eq: "registry_disable i s = (Inr (snapshot_of (xs_generation s + 1) ?rs), snapshot_of (xs_generation s + 1) ?rs)"
    by (simp add: registry_disable_def publish_records_def registry_build_Inr [THEN iffD2, OF conjI])
  have "registry_ok (snapshot_of (xs_generation s + 1) ?rs)"
    using c rs(2) unfolding registry_ok_def by (intro exI [of _ ?rs]) (auto simp: snapshot_of_def)
  moreover have "published (snapshot_of (xs_generation s + 1) ?rs) j = (if j = i then None else published s j)" for j
  proof -
    have "published (snapshot_of (xs_generation s + 1) ?rs) j = dget (dpop i (map (\<lambda>r. (er_id r, r)) rs)) j"
      unfolding dpop_snapshot by (simp add: published_def snapshot_of_def)
    then show ?thesis by (simp add: delete_conv' published_def ext)
  qed
  ultimately show ?thesis using eq that by blast
qed

lemma dset_snapshot_set:
  "distinct (map er_id rs) \<Longrightarrow>
   set (map snd (dset (er_id r) r (map (\<lambda>r. (er_id r, r)) rs))) = insert r {q \<in> set rs. er_id q \<noteq> er_id r}"
  by (induction rs) (auto simp: image_image image_iff)

lemma option_eqI: "(\<And>y. x = Some y \<longleftrightarrow> z = Some y) \<Longrightarrow> x = z"
  by (cases x; cases z) auto

lemma registry_enable_cases:
  assumes "registry_ok s"
  obtains s' where "registry_enable r s = (Inr s', s')" "registry_ok s'" "er_state r = ES_ENABLED"
      "\<And>j. published s' j = (if j = er_id r then Some r else published s j)"
    | e where "registry_enable r s = (Inl e, s)"
proof -
  from assms obtain rs where rs: "compatible rs" "\<forall>r\<in>set rs. er_state r = ES_ENABLED" "s = snapshot_of (xs_generation s) rs"
    unfolding registry_ok_def by blast
  have ext: "xs_extensions s = map (\<lambda>r. (er_id r, r)) rs" by (subst rs(3)) (simp add: snapshot_of_def)
  let ?rs = "map snd (dset (er_id r) r (xs_extensions s))"
  have "distinct (map er_id rs)" using rs(1) by (simp add: compatible_def)
  then have set: "set ?rs = insert r {q \<in> set rs. er_id q \<noteq> er_id r}" unfolding ext by (rule dset_snapshot_set)
  show ?thesis
  proof (cases "er_state r = ES_ENABLED")
    case True
    then have eq: "registry_enable r s = publish_records ?rs s" by (simp add: registry_enable_def)
    show ?thesis
    proof (rule publish_records_cases [of ?rs s])
      fix s' assume s': "publish_records ?rs s = (Inr s', s')" "compatible ?rs" "s' = snapshot_of (xs_generation s + 1) ?rs"
      have "\<forall>q\<in>set ?rs. er_state q = ES_ENABLED" using set rs(2) True by auto
      from publish_ok [OF assms this] s'(1) have ok: "registry_ok s'" by simp
      have "published s' j = Some q \<longleftrightarrow> (if j = er_id r then Some r else published s j) = Some q" for j q
        using published_snapshot [OF s'(2), of "xs_generation s + 1" j q] published_snapshot [OF rs(1), of "xs_generation s" j q] set rs(3) s'(3) by auto
      then have "published s' j = (if j = er_id r then Some r else published s j)" for j by (rule option_eqI)
      with eq s'(1) ok True show ?thesis using that(1) by simp
    qed (use eq that(2) in auto)
  qed (use that(2) in \<open>auto simp: registry_enable_def raise_def\<close>)
qed

lemma replace_all_cases:
  obtains s' where "registry_replace_all rs s = (Inr s', s')" "registry_ok s'" "\<And>j q. published s' j = Some q \<longleftrightarrow> q \<in> set rs \<and> er_id q = j"
    | e where "registry_replace_all rs s = (Inl e, s)"
proof (cases "map er_id (filter (\<lambda>r. er_state r \<noteq> ES_ENABLED) rs) = []")
  case True
  then have en: "\<forall>r\<in>set rs. er_state r = ES_ENABLED" by (simp add: filter_empty_conv)
  from True have eq: "registry_replace_all rs s = publish_records rs s" by (simp add: registry_replace_all_def)
  show ?thesis
  proof (rule publish_records_cases [of rs s])
    fix s' assume s': "publish_records rs s = (Inr s', s')" "compatible rs" "s' = snapshot_of (xs_generation s + 1) rs"
    then have "registry_ok s'" using en unfolding registry_ok_def by (intro exI [of _ rs]) (auto simp: snapshot_of_def)
    with s' eq published_snapshot [OF s'(2)] show ?thesis using that(1) by simp
  qed (use eq that(2) in auto)
qed (use that(2) in \<open>auto simp: registry_replace_all_def Let_def raise_def\<close>)

datatype registry_op = RegEnable extension_record | RegDisable string | RegReplace "extension_record list"

fun registry_apply :: "registry_op \<Rightarrow> ext_snapshot \<Rightarrow> ext_snapshot" where
  "registry_apply (RegEnable r) s = snd (registry_enable r s)"
| "registry_apply (RegDisable i) s = snd (registry_disable i s)"
| "registry_apply (RegReplace rs) s = snd (registry_replace_all rs s)"

lemma registry_apply_ok: "registry_ok s \<Longrightarrow> registry_ok (registry_apply x s)"
proof (cases x)
  case (RegEnable r)
  assume "registry_ok s"
  with RegEnable show ?thesis by (auto intro: registry_enable_cases [of s r])
next
  case (RegDisable i)
  assume "registry_ok s"
  with RegDisable show ?thesis by (auto intro: registry_disable_ok [of s i])
next
  case (RegReplace rs)
  assume "registry_ok s"
  with RegReplace show ?thesis by (auto intro: replace_all_cases [of rs s])
qed

lemma registry_fold_ok: "registry_ok (fold registry_apply ops empty_registry)"
  using registry_ok_empty by (induction ops rule: rev_induct) (auto intro: registry_apply_ok)

lemma owners_iff:
  "(c, w) \<in> set (owners m) \<longleftrightarrow> (\<exists>slot ids. (slot, ids) \<in> set (slots m) \<and> c \<in> set ids \<and>
     w = \<lparr>co_extension_id = mf_id m, co_extension_version = mf_version m, co_slot = slot\<rparr>)"
  by (auto simp: owners_def)

lemma owner_of_snapshot:
  assumes "compatible rs"
  shows "owner_of (snapshot_of g rs) c = Some w \<longleftrightarrow> (\<exists>r\<in>set rs. (c, w) \<in> set (owners (er_manifest r)))"
proof -
  have "map fst (concat (map (\<lambda>r. owners (er_manifest r)) rs)) = concat (map er_capabilities rs)"
    by (simp add: map_concat comp_def owners_keys)
  with assms have "distinct (map fst (concat (map (\<lambda>r. owners (er_manifest r)) rs)))" by (simp add: compatible_def)
  from map_of_eq_Some_iff [OF this] show ?thesis by (simp add: owner_of_def snapshot_of_def)
qed

lemma compatible_unique:
  assumes "compatible rs" "r \<in> set rs" "q \<in> set rs" "c \<in> set (er_capabilities r)" "c \<in> set (er_capabilities q)"
  shows "r = q"
  using assms by (induction rs) (auto simp: compatible_def)

section \<open>Lemmas on the data namespace\<close>

lemma hex_digit_inject:
  assumes "m < 16" "n < 16" "hex_digit m = hex_digit n"
  shows "m = n"
proof -
  have "distinct hex_chars" "length hex_chars = 16" by code_simp+
  with assms nth_eq_iff_index_eq [of hex_chars m n] show ?thesis by (simp add: hex_digit_def)
qed

lemma hex_digit_safe: "n < 16 \<Longrightarrow> lower_letter (hex_digit n) \<or> is_digit (hex_digit n)"
proof -
  have "list_all (\<lambda>c. lower_letter c \<or> is_digit c) hex_chars" "length hex_chars = 16" by code_simp+
  then show "n < 16 \<Longrightarrow> ?thesis" by (simp add: hex_digit_def list_all_length)
qed

lemma hex_str_inject:
  assumes "hex_str m = hex_str n" "m < 256" "n < 256"
  shows "m = n"
proof (cases "m < 16"; cases "n < 16")
  assume "\<not> m < 16" "\<not> n < 16"
  with assms have "hex_digit (m div 16) = hex_digit (n div 16)" "hex_digit (m mod 16) = hex_digit (n mod 16)" by (simp_all add: hex_str_def)
  with assms(2,3) have "m div 16 = n div 16" "m mod 16 = n mod 16" by (auto intro!: hex_digit_inject)
  then show ?thesis by (metis div_mult_mod_eq)
qed (use assms in \<open>auto simp: hex_str_def intro: hex_digit_inject\<close>)

lemma hex_str_safe: "n < 256 \<Longrightarrow> list_all (\<lambda>c. lower_letter c \<or> is_digit c) (hex_str n)"
  using hex_digit_safe [of n] hex_digit_safe [of "n div 16"] hex_digit_safe [of "n mod 16"] by (auto simp: hex_str_def)

lemma underscore_unsafe [simp]: "\<not> lower_letter (CHR ''_'')" "\<not> is_digit (CHR ''_'')"
  by (simp_all add: lower_letter_def is_digit_def)

lemma takeWhile_hex: "n < 256 \<Longrightarrow> takeWhile (\<lambda>c. c \<noteq> CHR ''_'') (hex_str n @ CHR ''_'' # r) = hex_str n"
  using hex_str_safe [of n] by (subst takeWhile_append2) (auto simp: list_all_iff)

lemma namespace_char_prefix:
  assumes "namespace_char c @ r = namespace_char d @ t"
  shows "c = d \<and> r = t"
proof (cases "lower_letter c \<or> is_digit c"; cases "lower_letter d \<or> is_digit d")
  assume u: "\<not> (lower_letter c \<or> is_digit c)" "\<not> (lower_letter d \<or> is_digit d)"
  with assms have eq: "hex_str (of_char c) @ CHR ''_'' # r = hex_str (of_char d) @ CHR ''_'' # t" by (simp add: namespace_char_def)
  then have hex: "hex_str (of_char c) = hex_str (of_char d)" by (metis takeWhile_hex of_char_less)
  with eq hex_str_inject [OF hex of_char_less of_char_less] show ?thesis by auto
qed (use assms in \<open>auto simp: namespace_char_def split: if_splits\<close>)

lemma namespace_char_nonempty: "namespace_char c \<noteq> []"
  by (simp add: namespace_char_def)

lemma namespace_encode_inject: "namespace_encode s = namespace_encode t \<Longrightarrow> s = t"
proof (induction s arbitrary: t)
  case Nil
  then show ?case using namespace_char_nonempty by (cases t) (auto simp: namespace_encode_def)
next
  case (Cons c s)
  then obtain d t' where t: "t = d # t'" using namespace_char_nonempty by (cases t) (auto simp: namespace_encode_def)
  with Cons.prems have "namespace_char c @ namespace_encode s = namespace_char d @ namespace_encode t'" by (simp add: namespace_encode_def)
  from namespace_char_prefix [OF this] Cons.IH t show ?case by auto
qed

text \<open>An identifier whose shortened name is also the plain name of another identifier.\<close>

definition long_id :: string where
  "long_id = replicate 37 (CHR ''a'') @ ''.'' @ replicate 20 (CHR ''b'')"

definition squatter :: "(string \<Rightarrow> string) \<Rightarrow> string" where
  "squatter digest = replicate 37 (CHR ''a'') @ ''.'' @ take 16 (digest (utf8 long_id))"

lemma namespace_encode_append: "namespace_encode (s @ t) = namespace_encode s @ namespace_encode t"
  by (simp add: namespace_encode_def)

lemma namespace_encode_safe: "list_all (\<lambda>c. lower_letter c \<or> is_digit c) s \<Longrightarrow> namespace_encode s = s"
  by (induction s) (auto simp: namespace_encode_def namespace_char_def)

lemma split_char_none: "c \<notin> set s \<Longrightarrow> split_char c s = [s]"
  by (induction s) auto

lemma split_char_append: "c \<notin> set s \<Longrightarrow> split_char c (s @ c # t) = s # split_char c t"
  by (induction s) auto

definition safe_word :: "string \<Rightarrow> bool" where
  "safe_word s = (s \<noteq> [] \<and> list_all (\<lambda>c. lower_letter c \<or> is_digit c) s)"

lemma safe_word_chars: "safe_word s \<Longrightarrow> c \<in> set s \<Longrightarrow> c \<notin> set ''._-''"
proof
  assume "safe_word s" "c \<in> set s" "c \<in> set ''._-''"
  then have "lower_letter c \<or> is_digit c" "c = CHR ''.'' \<or> c = CHR ''_'' \<or> c = CHR ''-''" by (auto simp: safe_word_def list_all_iff)
  then show False by (auto simp: lower_letter_def is_digit_def)
qed

lemma is_id_two:
  assumes "safe_word s" "safe_word t" "lower_letter (hd s)"
  shows "is_id (s @ ''.'' @ t)"
proof -
  let ?f = "\<lambda>c. if c \<in> set ''_-'' then CHR ''.'' else c"
  have "?f c = c" if "safe_word w" "c \<in> set w" for c w using safe_word_chars [OF that] by simp
  then have id: "map ?f s = s" "map ?f t = t" using assms(1,2) by (blast intro: map_idI)+
  have "CHR ''.'' \<notin> set w" if "safe_word w" for w using safe_word_chars [OF that, of "CHR ''.''"] by auto
  with assms(1,2) have "CHR ''.'' \<notin> set s" "CHR ''.'' \<notin> set t" by blast+
  then have "split_char (CHR ''.'') (map ?f s @ CHR ''.'' # map ?f t) = [s, t]" unfolding id by (simp add: split_char_append split_char_none)
  then have "split_char (CHR ''.'') (map ?f (s @ ''.'' @ t)) = [s, t]" by simp
  with assms show ?thesis unfolding is_id_def by (simp add: safe_word_def)
qed

lemma safe_replicate: "safe_word (replicate 37 (CHR ''a''))" "safe_word (replicate 20 (CHR ''b''))" "lower_letter (hd (replicate 37 (CHR ''a'')))"
  by code_simp+

lemma namespace_two:
  assumes "safe_word s" "safe_word t"
  shows "namespace_encode (s @ ''.'' @ t) = s @ ''_2e_'' @ t"
proof -
  have "namespace_encode ''.'' = ''_2e_''" by code_simp
  with assms show ?thesis unfolding namespace_encode_append by (simp add: namespace_encode_safe safe_word_def)
qed

section \<open>Sample records\<close>

definition demo_manifest :: "string \<Rightarrow> string \<Rightarrow> string list \<Rightarrow> manifest" where
  "demo_manifest i v workflows =
     \<lparr>mf_root = ''/x'', mf_manifest_version = ''1'', mf_id = i, mf_name = ''n'', mf_version = v, mf_core_api = ''>=1'', mf_python = ''>=3'',
      mf_entrypoint = ''m:f'', mf_dependency_lock = ''lock'', mf_config_schema = None, mf_state_schema_version = 0, mf_healthcheck = ''h'',
      mf_tools = [], mf_event_sources = [], mf_context_providers = [], mf_workflows = workflows, mf_schedules = [],
      mf_notifications = [], mf_migrations = [], mf_forms = [], mf_capabilities = \<lparr>dc_required = [], dc_optional = []\<rparr>\<rparr>"

definition demo_ext :: "string \<Rightarrow> extension_state \<Rightarrow> extension_record" where
  "demo_ext i st = new_extension_record (demo_manifest i ''1.0.0'' [i @ ''.w'']) ''sha256:0'' st (Some ''/x'')"

section \<open>Properties\<close>

text \<open>
  C26. However extensions were enabled, disabled and replaced, the registry routes a capability to
  exactly the published extension that declares it: it names an owner if and only if a published,
  ENABLED record declares the capability in that slot, and no two published records declare the same
  capability.
\<close>

theorem registry_routes_exactly:
  assumes "s = fold registry_apply ops empty_registry"
  shows "(owner_of s c = Some w \<longleftrightarrow>
      (\<exists>i r slot ids. published s i = Some r \<and> (slot, ids) \<in> set (slots (er_manifest r)) \<and> c \<in> set ids \<and>
         w = \<lparr>co_extension_id = i, co_extension_version = mf_version (er_manifest r), co_slot = slot\<rparr>)) \<and>
    (published s i = Some r \<longrightarrow> er_id r = i \<and> er_state r = ES_ENABLED) \<and>
    (published s i = Some r \<and> published s j = Some q \<and> c \<in> set (er_capabilities r) \<and> c \<in> set (er_capabilities q) \<longrightarrow> i = j)"
proof -
  have ok: "registry_ok s" unfolding assms by (rule registry_fold_ok)
  then obtain rs where rs: "compatible rs" "s = snapshot_of (xs_generation s) rs" unfolding registry_ok_def by blast
  have pub: "published s i = Some r \<longleftrightarrow> r \<in> set rs \<and> er_id r = i" for i r
    using published_snapshot [OF rs(1), of "xs_generation s"] rs(2) by metis
  have "owner_of s c = Some w \<longleftrightarrow> (\<exists>r\<in>set rs. (c, w) \<in> set (owners (er_manifest r)))"
    using owner_of_snapshot [OF rs(1), of "xs_generation s"] rs(2) by metis
  then have 1: "owner_of s c = Some w \<longleftrightarrow>
      (\<exists>i r slot ids. published s i = Some r \<and> (slot, ids) \<in> set (slots (er_manifest r)) \<and> c \<in> set ids \<and>
         w = \<lparr>co_extension_id = i, co_extension_version = mf_version (er_manifest r), co_slot = slot\<rparr>)"
    by (auto simp: owners_iff pub)
  from published_enabled [OF ok] have 2: "published s i = Some r \<longrightarrow> er_id r = i \<and> er_state r = ES_ENABLED" by blast
  have "i = j" if "published s i = Some r" "published s j = Some q" "c \<in> set (er_capabilities r)" "c \<in> set (er_capabilities q)"
    using compatible_unique [OF rs(1), of r q c] that pub by auto
  with 1 2 show ?thesis by simp
qed

theorem registry_routes_exactly_witness:
  "owner_of (fold registry_apply [RegEnable (demo_ext ''a.x'' ES_ENABLED)] empty_registry) ''a.x.w'' =
     Some \<lparr>co_extension_id = ''a.x'', co_extension_version = ''1.0.0'', co_slot = ''WorkflowProvider''\<rparr>"
proof -
  let ?s = "fold registry_apply [RegEnable (demo_ext ''a.x'' ES_ENABLED)] empty_registry"
  have "published ?s ''a.x'' = Some (demo_ext ''a.x'' ES_ENABLED)"
    "(''WorkflowProvider'', [''a.x.w'']) \<in> set (slots (er_manifest (demo_ext ''a.x'' ES_ENABLED)))"
    "mf_version (er_manifest (demo_ext ''a.x'' ES_ENABLED)) = ''1.0.0''" by code_simp+
  with registry_routes_exactly [OF refl, of "[RegEnable (demo_ext ''a.x'' ES_ENABLED)]" "''a.x.w''"
      "\<lparr>co_extension_id = ''a.x'', co_extension_version = ''1.0.0'', co_slot = ''WorkflowProvider''\<rparr>"]
  show ?thesis by fastforce
qed

text \<open>
  Extensions whose encoded identifier fits a schema name never share their data: two such
  identifiers have the same namespace only when they are equal.
\<close>

theorem data_namespace_injective:
  assumes "length (namespace_encode i) \<le> 59" "length (namespace_encode j) \<le> 59" "data_namespace digest i = data_namespace digest j"
  shows "i = j"
proof -
  from assms have "namespace_encode i = namespace_encode j" by (simp add: data_namespace_def Let_def)
  then show ?thesis by (rule namespace_encode_inject)
qed

theorem data_namespace_injective_witness: "data_namespace id ''a.b'' \<noteq> data_namespace id ''a_b''"
proof -
  have "length (namespace_encode ''a.b'') \<le> 59" "length (namespace_encode ''a_b'') \<le> 59" by code_simp+
  from data_namespace_injective [OF this, of id] show ?thesis by auto
qed

text \<open>
  C40. Beyond that length two valid identifiers can share their data: the shortened name of a long
  identifier is the plain name of a short one, which anybody can compute from the digest.
\<close>

theorem data_namespace_collides:
  assumes "safe_word (take 16 (digest (utf8 long_id)))"
  shows "is_id long_id \<and> is_id (squatter digest) \<and> squatter digest \<noteq> long_id \<and>
    data_namespace digest (squatter digest) = data_namespace digest long_id"
proof -
  have ids: "is_id long_id" "is_id (squatter digest)"
    unfolding squatter_def using is_id_two [OF safe_replicate(1) assms safe_replicate(3)]
      is_id_two [OF safe_replicate(1,2,3), folded long_id_def] by (simp_all only:)
  have "length (squatter digest) \<le> 54" "length long_id = 58" by (simp_all add: squatter_def long_id_def)
  then have "squatter digest \<noteq> long_id" by auto
  have enc: "namespace_encode long_id = replicate 37 (CHR ''a'') @ ''_2e_'' @ replicate 20 (CHR ''b'')"
    "namespace_encode (squatter digest) = replicate 37 (CHR ''a'') @ ''_2e_'' @ take 16 (digest (utf8 long_id))"
    unfolding squatter_def using namespace_two [OF safe_replicate(1) assms] namespace_two [OF safe_replicate(1,2), folded long_id_def]
    by (simp_all only:)
  then have "data_namespace digest long_id = ''ext_'' @ (replicate 37 (CHR ''a'') @ ''_2e'') @ ''_'' @ take 16 (digest (utf8 long_id))"
    by (simp add: data_namespace_def Let_def)
  moreover from enc(2) have "data_namespace digest (squatter digest) = ''ext_'' @ replicate 37 (CHR ''a'') @ ''_2e_'' @ take 16 (digest (utf8 long_id))"
    by (simp add: data_namespace_def Let_def min_le_iff_disj)
  ultimately show ?thesis using ids \<open>squatter digest \<noteq> long_id\<close> by simp
qed

theorem data_namespace_collides_witness:
  "data_namespace (\<lambda>_. replicate 64 (CHR ''c'')) (squatter (\<lambda>_. replicate 64 (CHR ''c''))) =
   data_namespace (\<lambda>_. replicate 64 (CHR ''c'')) long_id"
proof -
  have "safe_word (take 16 ((\<lambda>_. replicate 64 (CHR ''c'')) (utf8 long_id)))" by code_simp
  from data_namespace_collides [OF this] show ?thesis by blast
qed

end
