(* ===== verification/PA_Actions.thy ===== *)
theory PA_Actions
  imports PA_Prelude
begin

text \<open>
  Methods that change state, call other objects and catch what they raise, as functions from a
  state to a result and the state afterwards: sequencing, \<open>try ... except\<close> and
  \<open>contextlib.suppress\<close>, with a Hoare calculus that has one postcondition for the normal and one
  for the exceptional end. The rules are collected in \<open>hoare_rules\<close>.
\<close>

type_synonym ('s, 'a) act = "'s \<Rightarrow> 'a result \<times> 's"

definition areturn :: "'a \<Rightarrow> ('s, 'a) act" where
  "areturn x = (\<lambda>s. (Inr x, s))"

definition araise :: "exn_class \<Rightarrow> string \<Rightarrow> ('s, 'a) act" where
  "araise c m = (\<lambda>s. (raise c m, s))"

definition afail :: "exn \<Rightarrow> ('s, 'a) act" where
  "afail e = (\<lambda>s. (Inl e, s))"

text \<open>A pure computation that may raise.\<close>

definition alift :: "'a result \<Rightarrow> ('s, 'a) act" where
  "alift r = (\<lambda>s. (r, s))"

definition aget :: "('s \<Rightarrow> 'a) \<Rightarrow> ('s, 'a) act" where
  "aget f = (\<lambda>s. (Inr (f s), s))"

definition aput :: "('s \<Rightarrow> 's) \<Rightarrow> ('s, unit) act" where
  "aput f = (\<lambda>s. (Inr (), f s))"

definition abind :: "('s, 'a) act \<Rightarrow> ('a \<Rightarrow> ('s, 'b) act) \<Rightarrow> ('s, 'b) act" where
  "abind m f = (\<lambda>s. sbind (m s) f)"

abbreviation athen :: "('s, 'a) act \<Rightarrow> ('s, 'b) act \<Rightarrow> ('s, 'b) act" where
  "athen m n \<equiv> abind m (\<lambda>_. n)"

text \<open>\<open>if not ok: raise c(m)\<close>.\<close>

definition aguard :: "bool \<Rightarrow> exn_class \<Rightarrow> string \<Rightarrow> ('s, unit) act" where
  "aguard ok c m = (if ok then areturn () else araise c m)"

text \<open>\<open>try: m  except BaseException as e: h(e)\<close>.\<close>

definition acatch :: "('s, 'a) act \<Rightarrow> (exn \<Rightarrow> ('s, 'a) act) \<Rightarrow> ('s, 'a) act" where
  "acatch m h = (\<lambda>s. case m s of (Inl e, s') \<Rightarrow> h e s' | (Inr x, s') \<Rightarrow> (Inr x, s'))"

text \<open>\<open>with contextlib.suppress(...): m\<close> for the classes the predicate accepts.\<close>

definition asuppress :: "(exn_class \<Rightarrow> bool) \<Rightarrow> ('s, 'a) act \<Rightarrow> ('s, unit) act" where
  "asuppress P m = acatch (athen m (areturn ())) (\<lambda>e. if P (fst e) then areturn () else afail e)"

text \<open>\<open>for x in xs: f(x)\<close>, with the values returned.\<close>

fun amap :: "('a \<Rightarrow> ('s, 'b) act) \<Rightarrow> 'a list \<Rightarrow> ('s, 'b list) act" where
  "amap f [] = areturn []"
| "amap f (x # xs) = abind (f x) (\<lambda>y. abind (amap f xs) (\<lambda>ys. areturn (y # ys)))"

section \<open>Hoare triples\<close>

definition hoare :: "('s \<Rightarrow> bool) \<Rightarrow> ('s, 'a) act \<Rightarrow> ('a \<Rightarrow> 's \<Rightarrow> bool) \<Rightarrow> (exn \<Rightarrow> 's \<Rightarrow> bool) \<Rightarrow> bool" where
  "hoare P m Q R \<longleftrightarrow>
     (\<forall>s x s'. P s \<longrightarrow> m s = (Inr x, s') \<longrightarrow> Q x s') \<and> (\<forall>s e s'. P s \<longrightarrow> m s = (Inl e, s') \<longrightarrow> R e s')"

named_theorems hoare_rules "rules of the Hoare calculus, one per construct"

lemma hoareI:
  "(\<And>s x s'. P s \<Longrightarrow> m s = (Inr x, s') \<Longrightarrow> Q x s') \<Longrightarrow> (\<And>s e s'. P s \<Longrightarrow> m s = (Inl e, s') \<Longrightarrow> R e s') \<Longrightarrow> hoare P m Q R"
  unfolding hoare_def by blast

lemma hoareD: "hoare P m Q R \<Longrightarrow> P s \<Longrightarrow> m s = (Inr x, s') \<Longrightarrow> Q x s'"
  unfolding hoare_def by blast

lemma hoareD_Inl: "hoare P m Q R \<Longrightarrow> P s \<Longrightarrow> m s = (Inl e, s') \<Longrightarrow> R e s'"
  unfolding hoare_def by blast

lemma hoare_snd:
  assumes "hoare P m (\<lambda>_. Q) (\<lambda>_. Q)" "P s"
  shows "Q (snd (m s))"
proof (cases "m s")
  case (Pair r s')
  with assms show ?thesis by (cases r) (auto dest: hoareD hoareD_Inl)
qed

lemma act_cases:
  fixes m :: "'a result \<times> 's"
  obtains (ok) x s' where "m = (Inr x, s')" | (error) e s' where "m = (Inl e, s')"
  by (cases m, cases "fst m") auto

lemma hoare_weaken:
  assumes "hoare P m Q R" "\<And>s. P' s \<Longrightarrow> P s" "\<And>x s. Q x s \<Longrightarrow> Q' x s" "\<And>e s. R e s \<Longrightarrow> R' e s"
  shows "hoare P' m Q' R'"
  using assms unfolding hoare_def by blast

lemma hoare_pre: "hoare P m Q R \<Longrightarrow> (\<And>s. P' s \<Longrightarrow> P s) \<Longrightarrow> hoare P' m Q R"
  unfolding hoare_def by blast

lemma hoare_fact: "(\<And>s. P s \<Longrightarrow> c) \<Longrightarrow> (c \<Longrightarrow> hoare P m Q R) \<Longrightarrow> hoare P m Q R"
  unfolding hoare_def by blast

lemma hoare_return [hoare_rules]: "(\<And>s. P s \<Longrightarrow> Q x s) \<Longrightarrow> hoare P (areturn x) Q R"
  by (simp add: hoare_def areturn_def)

lemma hoare_raise [hoare_rules]: "(\<And>s. P s \<Longrightarrow> R (c, t) s) \<Longrightarrow> hoare P (araise c t) Q R"
  by (simp add: hoare_def araise_def raise_def)

lemma hoare_fail [hoare_rules]: "(\<And>s. P s \<Longrightarrow> R e s) \<Longrightarrow> hoare P (afail e) Q R"
  by (simp add: hoare_def afail_def)

lemma hoare_lift [hoare_rules]:
  "(\<And>x s. P s \<Longrightarrow> r = Inr x \<Longrightarrow> Q x s) \<Longrightarrow> (\<And>e s. P s \<Longrightarrow> r = Inl e \<Longrightarrow> R e s) \<Longrightarrow> hoare P (alift r) Q R"
  by (simp add: hoare_def alift_def)

lemma hoare_get [hoare_rules]: "(\<And>s. P s \<Longrightarrow> Q (f s) s) \<Longrightarrow> hoare P (aget f) Q R"
  by (simp add: hoare_def aget_def)

lemma hoare_put [hoare_rules]: "(\<And>s. P s \<Longrightarrow> Q () (f s)) \<Longrightarrow> hoare P (aput f) Q R"
  by (simp add: hoare_def aput_def)

lemma hoare_bind [hoare_rules]:
  assumes "hoare P m M R" "\<And>x. hoare (M x) (f x) Q R"
  shows "hoare P (abind m f) Q R"
proof (rule hoareI)
  fix s x s' assume s: "P s" and "abind m f s = (Inr x, s')"
  then obtain y t where "m s = (Inr y, t)" "f y t = (Inr x, s')" by (auto simp: abind_def sbind_eq_Inr)
  with assms s show "Q x s'" by (blast dest: hoareD)
next
  fix s e s' assume s: "P s" and e: "abind m f s = (Inl e, s')"
  show "R e s'"
  proof (cases "m s" rule: act_cases)
    case (ok y t)
    with e have "f y t = (Inl e, s')" by (simp add: abind_def)
    with assms s ok show ?thesis by (blast dest: hoareD hoareD_Inl)
  qed (use assms(1) s e in \<open>auto simp: abind_def dest: hoareD_Inl\<close>)
qed

lemma hoare_guard [hoare_rules]:
  "(\<And>s. P s \<Longrightarrow> ok \<Longrightarrow> Q () s) \<Longrightarrow> (\<And>s. P s \<Longrightarrow> \<not> ok \<Longrightarrow> R (c, t) s) \<Longrightarrow> hoare P (aguard ok c t) Q R"
  by (auto simp: hoare_def aguard_def areturn_def araise_def raise_def)

lemma hoare_catch [hoare_rules]:
  assumes "hoare P m Q M" "\<And>e. hoare (M e) (h e) Q R"
  shows "hoare P (acatch m h) Q R"
proof -
  have "(case acatch m h s of (Inr x, s') \<Rightarrow> Q x s' | (Inl e, s') \<Rightarrow> R e s')" if s: "P s" for s
  proof (cases "m s" rule: act_cases)
    case (ok x t)
    with assms(1) s show ?thesis by (auto simp: acatch_def dest: hoareD)
  next
    case (error e t)
    with assms(1) s have "M e t" by (blast dest: hoareD_Inl)
    with assms(2) [of e] error show ?thesis
      by (cases "h e t" rule: act_cases) (auto simp: acatch_def dest: hoareD hoareD_Inl)
  qed
  then show ?thesis by (intro hoareI) force+
qed

lemma hoare_suppress [hoare_rules]:
  assumes "hoare P m (\<lambda>_. Q ()) M" "\<And>e s. M e s \<Longrightarrow> Q () s" "\<And>e s. M e s \<Longrightarrow> R e s"
  shows "hoare P (asuppress C m) Q R"
  unfolding asuppress_def
proof (rule hoare_catch [where M = M])
  show "hoare P (athen m (areturn ())) Q M" by (rule hoare_bind [OF assms(1)]) (simp add: hoare_return)
  show "hoare (M e) (if C (fst e) then areturn () else afail e) Q R" for e
    unfolding hoare_def areturn_def afail_def by (auto intro: assms(2,3) simp del: split_paired_All)
qed

lemma hoare_if [hoare_rules]: "(c \<Longrightarrow> hoare P m Q R) \<Longrightarrow> (\<not> c \<Longrightarrow> hoare P n Q R) \<Longrightarrow> hoare P (if c then m else n) Q R"
  by simp

lemma hoare_option [hoare_rules]:
  "(x = None \<Longrightarrow> hoare P m Q R) \<Longrightarrow> (\<And>y. x = Some y \<Longrightarrow> hoare P (f y) Q R) \<Longrightarrow> hoare P (case x of None \<Rightarrow> m | Some y \<Rightarrow> f y) Q R"
  by (cases x) auto

lemma hoare_prod [hoare_rules]: "(\<And>a b. x = (a, b) \<Longrightarrow> hoare P (f a b) Q R) \<Longrightarrow> hoare P (case x of (a, b) \<Rightarrow> f a b) Q R"
  by (cases x) auto

lemma hoare_let [hoare_rules]: "(\<And>y. y = x \<Longrightarrow> hoare P (f y) Q R) \<Longrightarrow> hoare P (Let x f) Q R"
  by simp

lemma hoare_map:
  assumes "\<And>x. x \<in> set xs \<Longrightarrow> hoare P (f x) (\<lambda>_. P) R"
  shows "hoare P (amap f xs) (\<lambda>_. P) R"
  using assms by (induction xs) (auto intro!: hoare_rules)

text \<open>A state predicate that an action keeps however it ends.\<close>

abbreviation keeps :: "('s \<Rightarrow> bool) \<Rightarrow> ('s, 'a) act \<Rightarrow> bool" where
  "keeps P m \<equiv> hoare P m (\<lambda>_. P) (\<lambda>_. P)"

text \<open>A check before the rest of a method.\<close>

lemma hoare_guard_then: "(ok \<Longrightarrow> hoare P m Q R) \<Longrightarrow> (\<And>s. P s \<Longrightarrow> R (c, t) s) \<Longrightarrow> hoare P (athen (aguard ok c t) m) Q R"
  by (cases ok) (auto simp: hoare_def aguard_def abind_def areturn_def araise_def raise_def simp del: split_paired_All)

lemma hoare_lift_then:
  "(\<And>x. r = Inr x \<Longrightarrow> hoare P (f x) Q R) \<Longrightarrow> (\<And>s e. P s \<Longrightarrow> R e s) \<Longrightarrow> hoare P (abind (alift r) f) Q R"
  by (cases r) (auto simp: hoare_def abind_def alift_def simp del: split_paired_All)

lemma hoare_get_then: "(\<And>x. hoare (\<lambda>s. P s \<and> g s = x) (f x) Q R) \<Longrightarrow> hoare P (abind (aget g) f) Q R"
  by (auto simp: hoare_def abind_def aget_def simp del: split_paired_All)

lemma hoare_put_then: "hoare P' m Q R \<Longrightarrow> (\<And>s. P s \<Longrightarrow> P' (g s)) \<Longrightarrow> hoare P (athen (aput g) m) Q R"
  unfolding hoare_def abind_def aput_def sbind_simps by blast

text \<open>The rules for an action that stays within one predicate until it ends.\<close>

named_theorems keeps_rules "rules that keep one precondition"

lemma keeps_bind [keeps_rules]: "hoare P m (\<lambda>_. P) R \<Longrightarrow> (\<And>x. hoare P (f x) Q R) \<Longrightarrow> hoare P (abind m f) Q R"
  by (rule hoare_bind)

lemma keeps_catch [keeps_rules]: "hoare P m Q (\<lambda>_. P) \<Longrightarrow> (\<And>e. hoare P (h e) Q R) \<Longrightarrow> hoare P (acatch m h) Q R"
  by (rule hoare_catch)

lemma keeps_suppress [keeps_rules]: "keeps P m \<Longrightarrow> keeps P (asuppress C m)"
  by (rule hoare_suppress)

lemmas keeps_simple [keeps_rules] =
  hoare_return hoare_raise hoare_fail hoare_lift hoare_get hoare_guard hoare_if hoare_option hoare_prod hoare_let

lemma keeps_conj: "keeps P m \<Longrightarrow> keeps Q m \<Longrightarrow> keeps (\<lambda>s. P s \<and> Q s) m"
  unfolding hoare_def by blast

lemma hoare_conj:
  "hoare P m Q R \<Longrightarrow> hoare P' m Q' R' \<Longrightarrow> hoare (\<lambda>s. P s \<and> P' s) m (\<lambda>x s. Q x s \<and> Q' x s) (\<lambda>e s. R e s \<and> R' e s)"
  unfolding hoare_def by blast

lemma act_simps:
  "areturn x s = (Inr x, s)" "araise c t s = (raise c t, s)" "afail e s = (Inl e, s)" "alift r s = (r, s)"
  "aget f s = (Inr (f s), s)" "aput g s = (Inr (), g s)" "abind m k s = sbind (m s) k"
  by (simp_all add: areturn_def araise_def afail_def alift_def aget_def aput_def abind_def)

lemma aguard_simps [simp]: "aguard True c t = areturn ()" "aguard False c t = araise c t"
  by (simp_all add: aguard_def)

end
