(* ===== verification/PA_Lifecycle.thy ===== *)
theory PA_Lifecycle
  imports PA_Extensions PA_Actions PA_Domain
begin

text \<open>
  \<open>core/extensions/lifecycle.py\<close>: the coordinator that stages, previews, confirms and installs an
  artifact, and the manager that enables, disables, upgrades, rolls back, uninstalls and purges an
  extension.

  The ports of the two classes (stager, installer, verifier, worker supervisor, data store, version
  operator, and the writes of the lifecycle store) are an \<open>ext_env\<close>: what a call answers may depend
  on every call before it, so the environment can fail or change its mind at any point. The calls are
  kept in a log. A write of the store that raises changes nothing. \<open>shield_cleanup\<close> runs its argument
  to the end, which is what a call here does.
\<close>

section \<open>Data\<close>

record staged_artifact =
  sa_source :: string
  sa_root :: string
  sa_artifact_hash :: string

record installed_artifact =
  ia_install_path :: string
  ia_runtime_key :: string
  ia_runtime_root :: "string option"

record installation_preview =
  ip_plan_id :: string
  ip_confirmation_nonce :: string
  ip_expires_at :: time
  ip_source :: string
  ip_artifact_hash :: string
  ip_extension_id :: string
  ip_extension_name :: string
  ip_extension_version :: string
  ip_entrypoint :: string
  ip_slots :: "(string \<times> string list) list"
  ip_tool_risks :: "(string \<times> string) list"
  ip_required_capabilities :: "string list"
  ip_optional_capabilities :: "string list"
  ip_warning :: string
  ip_preview_hash :: string
  ip_mode :: string
  ip_replaces_version :: "string option"

record installation_confirmation =
  ic_plan_id :: string
  ic_confirmation_nonce :: string
  ic_preview_hash :: string
  ic_actor :: string
  ic_confirmed_at :: time
  ic_accepted_warning :: bool

record purge_preview =
  pp_extension_id :: string
  pp_confirmation_nonce :: string
  pp_preview_hash :: string
  pp_data_namespaces :: "string list"
  pp_warning :: string

record purge_confirmation =
  pc_extension_id :: string
  pc_confirmation_nonce :: string
  pc_preview_hash :: string
  pc_actor :: string

record pending_install =
  pi_staged :: staged_artifact
  pi_manifest :: manifest
  pi_preview :: installation_preview
  pi_consumed :: bool

section \<open>Ports\<close>

datatype port_call =
    P_Stage string | P_Discard staged_artifact | P_Hash string | P_Parse string
  | P_Install staged_artifact manifest | P_Verify installed_artifact manifest
  | P_RemoveOrphan string string | P_RemoveVersion extension_record | P_UninstallCode extension_record | P_CleanFailed staged_artifact
  | P_Save extension_record
  | P_Start extension_record | P_Health extension_record | P_Drain extension_record time | P_Stop extension_record
  | P_Namespaces string | P_PurgeData string
  | P_Activate extension_record extension_record | P_VersionRollback extension_record
  | P_InvokeTool string string | P_Exists string | P_IsDir string

type_synonym port_log = "port_call list"

record ext_env =
  xe_unit :: "port_log \<Rightarrow> port_call \<Rightarrow> unit result"
  xe_stage :: "port_log \<Rightarrow> string \<Rightarrow> staged_artifact result"
  xe_tree :: "port_log \<Rightarrow> string \<Rightarrow> artifact_tree"
  xe_install :: "port_log \<Rightarrow> staged_artifact \<Rightarrow> manifest \<Rightarrow> installed_artifact result"
  xe_health :: "port_log \<Rightarrow> extension_record \<Rightarrow> bool result"
  xe_drain :: "port_log \<Rightarrow> extension_record \<Rightarrow> time \<Rightarrow> (string \<times> pyval) list option result"
  xe_namespaces :: "port_log \<Rightarrow> string \<Rightarrow> string list result"
  xe_rollback :: "port_log \<Rightarrow> extension_record \<Rightarrow> extension_record result"
  xe_invoke :: "port_log \<Rightarrow> string \<Rightarrow> string \<Rightarrow> pyval result"
  xe_exists :: "port_log \<Rightarrow> string \<Rightarrow> bool"
  xe_is_dir :: "port_log \<Rightarrow> string \<Rightarrow> bool"
  xe_lib :: stdlib
  xe_sha256 :: "string \<Rightarrow> string"
  xe_parser :: manifest_parser
  xe_iso :: "time \<Rightarrow> string"
  xe_ttl :: time
  xe_trust_warning :: string
  xe_purge_warning :: string

record ext_world =
  xw_store :: ext_store
  xw_registry :: ext_snapshot
  xw_pending :: "(string \<times> pending_install) list"
  xw_purges :: "(string \<times> purge_preview) list"
  xw_log :: port_log

definition ask :: "port_call \<Rightarrow> (port_log \<Rightarrow> 'b result) \<Rightarrow> ('a ext_world_scheme, 'b) act" where
  "ask c f = (\<lambda>w. (f (xw_log w), w\<lparr>xw_log := xw_log w @ [c]\<rparr>))"

definition port :: "ext_env \<Rightarrow> port_call \<Rightarrow> ('a ext_world_scheme, unit) act" where
  "port E c = ask c (\<lambda>l. xe_unit E l c)"

definition in_registry :: "(ext_snapshot \<Rightarrow> ext_snapshot result \<times> ext_snapshot) \<Rightarrow> ('a ext_world_scheme, ext_snapshot) act" where
  "in_registry f = (\<lambda>w. case f (xw_registry w) of (r, s) \<Rightarrow> (r, w\<lparr>xw_registry := s\<rparr>))"

definition lookup_record :: "string \<Rightarrow> ('a ext_world_scheme, extension_record option) act" where
  "lookup_record i = aget (\<lambda>w. dget (xw_store w) i)"

definition save_record :: "ext_env \<Rightarrow> extension_record \<Rightarrow> ('a ext_world_scheme, unit) act" where
  "save_record E r = athen (port E (P_Save r)) (aput (\<lambda>w. w\<lparr>xw_store := snd (store_save r None (xw_store w))\<rparr>))"

section \<open>Helpers\<close>

definition semver_key :: "string \<Rightarrow> int \<times> int \<times> int" where
  "semver_key version =
     (let major = takeWhile is_digit version; rest = dropWhile is_digit version in
      case expect (CHR ''.'') rest of
        None \<Rightarrow> (0, 0, 0)
      | Some s \<Rightarrow>
          (case expect (CHR ''.'') (dropWhile is_digit s) of
             None \<Rightarrow> (0, 0, 0)
           | Some t \<Rightarrow>
               let minor = takeWhile is_digit s; patch = takeWhile is_digit t in
               if major = [] \<or> minor = [] \<or> patch = [] then (0, 0, 0) else (decimal major, decimal minor, decimal patch)))"

definition semver_le :: "int \<times> int \<times> int \<Rightarrow> int \<times> int \<times> int \<Rightarrow> bool" where
  "semver_le a b = (case a of (a1, a2, a3) \<Rightarrow> case b of (b1, b2, b3) \<Rightarrow> a1 < b1 \<or> a1 = b1 \<and> (a2 < b2 \<or> a2 = b2 \<and> a3 \<le> b3))"

definition hash_payload :: "stdlib \<Rightarrow> pyval \<Rightarrow> string result" where
  "hash_payload L payload = rbind (json_dumps L True payload) (\<lambda>encoded. Inr (''sha256:'' @ sha256_hex L encoded))"

definition strs :: "string list \<Rightarrow> pyval" where
  "strs xs = VList (map VStr xs)"

definition opt_text :: "string option \<Rightarrow> pyval" where
  "opt_text x = (case x of None \<Rightarrow> VNone | Some s \<Rightarrow> VStr s)"

definition make_install_preview ::
  "ext_env \<Rightarrow> staged_artifact \<Rightarrow> manifest \<Rightarrow> time \<Rightarrow> string \<Rightarrow> string option \<Rightarrow> string \<Rightarrow> string \<Rightarrow> installation_preview result" where
  "make_install_preview E staged m expires_at mode replaces plan_token nonce =
     (let plan_id = ''install_'' @ plan_token; tool_risks = map (\<lambda>t. (mt_id t, mt_risk t)) (mf_tools m);
          body = VDict [(''plan_id'', VStr plan_id), (''nonce'', VStr nonce), (''expires_at'', VStr (xe_iso E expires_at)),
            (''source'', VStr (sa_source staged)), (''artifact_hash'', VStr (sa_artifact_hash staged)),
            (''extension_id'', VStr (mf_id m)), (''extension_name'', VStr (mf_name m)), (''extension_version'', VStr (mf_version m)),
            (''entrypoint'', VStr (mf_entrypoint m)), (''slots'', VDict (map (\<lambda>(k, v). (k, strs v)) (slots m))),
            (''tool_risks'', VDict (map (\<lambda>(k, v). (k, VStr v)) tool_risks)),
            (''required_capabilities'', strs (dc_required (mf_capabilities m))),
            (''optional_capabilities'', strs (dc_optional (mf_capabilities m))),
            (''warning'', VStr (xe_trust_warning E)), (''mode'', VStr mode), (''replaces_version'', opt_text replaces)] in
      rbind (hash_payload (xe_lib E) body) (\<lambda>h.
        Inr \<lparr>ip_plan_id = plan_id, ip_confirmation_nonce = nonce, ip_expires_at = expires_at, ip_source = sa_source staged,
             ip_artifact_hash = sa_artifact_hash staged, ip_extension_id = mf_id m, ip_extension_name = mf_name m,
             ip_extension_version = mf_version m, ip_entrypoint = mf_entrypoint m, ip_slots = slots m, ip_tool_risks = tool_risks,
             ip_required_capabilities = dc_required (mf_capabilities m), ip_optional_capabilities = dc_optional (mf_capabilities m),
             ip_warning = xe_trust_warning E, ip_preview_hash = h, ip_mode = mode, ip_replaces_version = replaces\<rparr>))"

definition require_state :: "extension_record \<Rightarrow> extension_state list \<Rightarrow> string \<Rightarrow> ('s, unit) act" where
  "require_state r allowed operation =
     aguard (er_state r \<in> set allowed) InvalidLifecycleTransition
       (''cannot '' @ operation @ '' '' @ er_id r @ '' from '' @ extension_state_value (er_state r) @ ''; expected '' @
        join '', '' (sort (map extension_state_value allowed)))"

definition installable_states :: "extension_state list" where
  "installable_states = [ES_UNINSTALLED, ES_REJECTED, ES_STAGED]"

section \<open>The install coordinator\<close>

definition discard_staged :: "ext_env \<Rightarrow> staged_artifact \<Rightarrow> ('a ext_world_scheme, unit) act" where
  "discard_staged E staged = asuppress (\<lambda>c. isa c ExtensionError \<or> isa c OSError) (port E (P_Discard staged))"

definition require_upgrade_target :: "extension_record option \<Rightarrow> manifest \<Rightarrow> string result" where
  "require_upgrade_target existing m =
     (case existing of
        None \<Rightarrow> raise ExtensionError (''no installed extension to upgrade: '' @ mf_id m)
      | Some r \<Rightarrow>
          if er_state r = ES_UNINSTALLED then raise ExtensionError (''no installed extension to upgrade: '' @ mf_id m)
          else ensure (er_state r \<in> {ES_ENABLED, ES_DISABLED, ES_INSTALLED_DISABLED, ES_QUARANTINED, ES_ROLLED_BACK}) InvalidLifecycleTransition
            (''cannot stage an upgrade from '' @ extension_state_value (er_state r))
           (ensure (\<not> semver_le (semver_key (mf_version m)) (semver_key (mf_version (er_manifest r)))) ExtensionError
              (''upgrade candidate must declare a version newer than '' @ mf_version (er_manifest r))
             (ensure (mf_state_schema_version (er_manifest r) \<le> mf_state_schema_version m) ExtensionError
                (''upgrade candidate would move the extension data schema backwards; '' @ ''use rollback for retained older versions'')
                (Inr (mf_version (er_manifest r))))))"

definition is_installable :: "extension_record option \<Rightarrow> bool" where
  "is_installable existing = (case existing of None \<Rightarrow> True | Some r \<Rightarrow> er_state r \<in> set installable_states)"

text \<open>The mode of a plan; \<open>None\<close> decides from the persisted state.\<close>

definition plan_mode :: "string option \<Rightarrow> extension_record option \<Rightarrow> manifest \<Rightarrow> (string \<times> string option) result" where
  "plan_mode mode existing m =
     (if mode = Some ''install''
      then ensure (is_installable existing) ExtensionError (''extension is already installed: '' @ mf_id m) (Inr (''install'', None))
      else if mode = Some ''upgrade''
      then rbind (require_upgrade_target existing m) (\<lambda>v. Inr (''upgrade'', Some v))
      else if is_installable existing then Inr (''install'', None)
      else rbind (require_upgrade_target existing m) (\<lambda>v. Inr (''upgrade'', Some v)))"

definition inspect_staged ::
  "ext_env \<Rightarrow> string option \<Rightarrow> string \<Rightarrow> string \<Rightarrow> time \<Rightarrow> staged_artifact \<Rightarrow> ('a ext_world_scheme, manifest \<times> installation_preview) act" where
  "inspect_staged E mode plan_token nonce now staged =
     abind (ask (P_Parse (sa_root staged)) (\<lambda>l. parse_manifest (xe_parser E) (xe_tree E l (sa_root staged)))) (\<lambda>m.
     abind (lookup_record (mf_id m)) (\<lambda>existing.
     abind (alift (plan_mode mode existing m)) (\<lambda>(md, replaces).
     abind (alift (make_install_preview E staged m (now + xe_ttl E) md replaces plan_token nonce)) (\<lambda>pv.
       areturn (m, pv)))))"

definition stale_plans :: "string \<Rightarrow> (string \<times> pending_install) list \<Rightarrow> string list" where
  "stale_plans extension_id pending = map fst (filter (\<lambda>(_, p). mf_id (pi_manifest p) = extension_id) pending)"

definition drop_plan :: "ext_env \<Rightarrow> string \<Rightarrow> ('a ext_world_scheme, unit) act" where
  "drop_plan E plan_id =
     abind (aget (\<lambda>w. dget (xw_pending w) plan_id)) (\<lambda>plan.
     athen (aput (\<lambda>w. w\<lparr>xw_pending := dpop plan_id (xw_pending w)\<rparr>))
       (case plan of
          None \<Rightarrow> areturn ()
        | Some p \<Rightarrow> if pi_consumed p then areturn () else discard_staged E (pi_staged p)))"

definition drop_pending :: "ext_env \<Rightarrow> string \<Rightarrow> ('a ext_world_scheme, unit) act" where
  "drop_pending E extension_id =
     abind (aget (\<lambda>w. stale_plans extension_id (xw_pending w))) (\<lambda>stale. athen (amap (drop_plan E) stale) (areturn ()))"

definition prepare_plan ::
  "ext_env \<Rightarrow> string option \<Rightarrow> string \<Rightarrow> string \<Rightarrow> time \<Rightarrow> string \<Rightarrow> ('a ext_world_scheme, installation_preview) act" where
  "prepare_plan E mode plan_token nonce now source =
     abind (ask (P_Stage source) (\<lambda>l. xe_stage E l source)) (\<lambda>staged.
     abind (ask (P_Hash (sa_root staged)) (\<lambda>l. compute_artifact_hash (xe_sha256 E) (xe_tree E l (sa_root staged)))) (\<lambda>computed.
     if computed \<noteq> sa_artifact_hash staged
     then athen (port E (P_Discard staged)) (araise ExtensionError ''staged artifact hash does not match its content'')
     else
       abind (acatch (inspect_staged E mode plan_token nonce now staged)
               (\<lambda>e. if is_exception (fst e) then athen (port E (P_Discard staged)) (afail e) else afail e)) (\<lambda>(m, pv).
       athen (drop_pending E (mf_id m))
      (athen (aput (\<lambda>w. w\<lparr>xw_pending := dset (ip_plan_id pv)
                \<lparr>pi_staged = staged, pi_manifest = m, pi_preview = pv, pi_consumed = False\<rparr> (xw_pending w)\<rparr>))
      (athen (if ip_mode pv = ''install'' then save_record E (new_extension_record m (sa_artifact_hash staged) ES_STAGED None) else areturn ())
       (areturn pv))))))"

definition preview_for :: "string \<Rightarrow> ('a ext_world_scheme, installation_preview) act" where
  "preview_for plan_id =
     abind (aget (\<lambda>w. dget (xw_pending w) plan_id)) (\<lambda>plan.
       case plan of
         None \<Rightarrow> araise (ExtensionOperationError ''PLAN_NOT_FOUND'') ''installation plan is missing or already consumed''
       | Some p \<Rightarrow> areturn (pi_preview p))"

definition validate_confirmation :: "installation_preview \<Rightarrow> installation_confirmation option \<Rightarrow> time \<Rightarrow> unit result" where
  "validate_confirmation pv confirmation now =
     (case confirmation of
        None \<Rightarrow> raise ConfirmationRequiredError ''explicit installation confirmation is required''
      | Some c \<Rightarrow>
          ensure (ic_accepted_warning c) ConfirmationRequiredError ''the trusted-code warning was not accepted''
         (ensure (\<not> blank (ic_actor c)) ConfirmationRequiredError ''confirmation actor is required''
         (ensure ((ic_plan_id c, ic_confirmation_nonce c, ic_preview_hash c) =
                  (ip_plan_id pv, ip_confirmation_nonce pv, ip_preview_hash pv)) ConfirmationRequiredError
            ''confirmation does not match the exact preview''
         (ensure (ic_confirmed_at c \<le> now + minutes 1) ConfirmationRequiredError ''confirmation timestamp is in the future''
         (ensure (ic_confirmed_at c \<le> ip_expires_at pv \<and> now \<le> ip_expires_at pv) ConfirmationRequiredError
            ''installation confirmation has expired'' (Inr ()))))))"

definition validate_plan :: "string \<Rightarrow> installation_confirmation option \<Rightarrow> time \<Rightarrow> ('a ext_world_scheme, unit) act" where
  "validate_plan plan_id confirmation now =
     abind (aget (\<lambda>w. dget (xw_pending w) plan_id)) (\<lambda>plan.
       case plan of
         None \<Rightarrow> araise (ExtensionOperationError ''PLAN_NOT_FOUND'') ''installation plan is missing or already consumed''
       | Some p \<Rightarrow>
           if pi_consumed p
           then araise (ExtensionOperationError ''PLAN_NOT_FOUND'') ''installation plan is missing or already consumed''
           else alift (validate_confirmation (pi_preview p) confirmation now))"

definition reject_plan :: "ext_env \<Rightarrow> string \<Rightarrow> ('a ext_world_scheme, extension_record) act" where
  "reject_plan E plan_id =
     abind (aget (\<lambda>w. dget (xw_pending w) plan_id)) (\<lambda>plan.
     athen (aput (\<lambda>w. w\<lparr>xw_pending := dpop plan_id (xw_pending w)\<rparr>))
       (case plan of
          None \<Rightarrow> araise (ExtensionOperationError ''PLAN_NOT_FOUND'') ''installation plan is missing or already consumed''
        | Some p \<Rightarrow>
            if pi_consumed p
            then araise (ExtensionOperationError ''PLAN_NOT_FOUND'') ''installation plan is missing or already consumed''
            else athen (port E (P_Discard (pi_staged p)))
              (if ip_mode (pi_preview p) = ''upgrade''
               then abind (lookup_record (mf_id (pi_manifest p))) (\<lambda>current.
                      case current of
                        None \<Rightarrow> araise ExtensionError (''extension is no longer installed: '' @ mf_id (pi_manifest p))
                      | Some r \<Rightarrow> areturn r)
               else let r = new_extension_record (pi_manifest p) (sa_artifact_hash (pi_staged p)) ES_REJECTED None in
                    athen (save_record E r) (areturn r))))"

definition installed_record :: "pending_install \<Rightarrow> installed_artifact \<Rightarrow> extension_record" where
  "installed_record p i =
     new_extension_record ((pi_manifest p)\<lparr>mf_root := (case ia_runtime_root i of None \<Rightarrow> ia_install_path i | Some d \<Rightarrow> d)\<rparr>)
       (sa_artifact_hash (pi_staged p)) ES_INSTALLED_DISABLED (Some (ia_install_path i))"

definition abort_install :: "ext_env \<Rightarrow> pending_install \<Rightarrow> installed_artifact option \<Rightarrow> bool \<Rightarrow> ('a ext_world_scheme, unit) act" where
  "abort_install E p installed persist =
     athen (case installed of
              None \<Rightarrow> areturn ()
            | Some i \<Rightarrow> asuppress is_exception (port E (P_RemoveVersion (installed_record p i))))
    (athen (asuppress is_exception (port E (P_CleanFailed (pi_staged p))))
    (athen (discard_staged E (pi_staged p))
      (if persist
       then asuppress is_exception (save_record E (new_extension_record (pi_manifest p) (sa_artifact_hash (pi_staged p)) ES_REJECTED None))
       else areturn ())))"

definition verify_staged_unchanged :: "ext_env \<Rightarrow> string \<Rightarrow> pending_install \<Rightarrow> ('a ext_world_scheme, unit) act" where
  "verify_staged_unchanged E plan_id p =
     abind (ask (P_Hash (sa_root (pi_staged p)))
       (\<lambda>l. compute_artifact_hash (xe_sha256 E) (xe_tree E l (sa_root (pi_staged p))))) (\<lambda>current.
     if current \<noteq> ip_artifact_hash (pi_preview p)
     then athen (aput (\<lambda>w. w\<lparr>xw_pending := dpop (ip_plan_id (pi_preview p)) (xw_pending w)\<rparr>))
         (athen (discard_staged E (pi_staged p))
           (araise ConfirmationRequiredError ''staged artifact changed after preview; confirm the new content explicitly''))
     else areturn ())"

definition verify_upgrade_baseline :: "pending_install \<Rightarrow> ('a ext_world_scheme, unit) act" where
  "verify_upgrade_baseline p =
     abind (lookup_record (mf_id (pi_manifest p))) (\<lambda>current.
       let changed = ExtensionOperationError ''PLAN_BASELINE_CHANGED'' in
       case current of
         None \<Rightarrow> araise changed ''the extension is no longer installed; create a new plan''
       | Some r \<Rightarrow>
           athen (aguard (er_state r \<noteq> ES_UNINSTALLED) changed ''the extension is no longer installed; create a new plan'')
          (athen (aguard (ip_replaces_version (pi_preview p) = Some (mf_version (er_manifest r))) changed
                    (''active version changed to '' @ py_repr (mf_version (er_manifest r)) @ '' after the preview''))
          (athen (aguard (\<not> semver_le (semver_key (mf_version (pi_manifest p))) (semver_key (mf_version (er_manifest r)))) changed
                    ''upgrade candidate is no longer newer than the active version'')
                 (aguard (mf_state_schema_version (er_manifest r) \<le> mf_state_schema_version (pi_manifest p)) changed
                    ''upgrade candidate would move the extension data schema backwards''))))"

definition run_install :: "ext_env \<Rightarrow> pending_install \<Rightarrow> string \<Rightarrow> bool \<Rightarrow> ('a ext_world_scheme, extension_record) act" where
  "run_install E p expected_mode persist =
     abind (acatch
              (athen (if expected_mode = ''install'' then port E (P_RemoveOrphan (mf_id (pi_manifest p)) (mf_version (pi_manifest p))) else areturn ())
                (ask (P_Install (pi_staged p) (pi_manifest p)) (\<lambda>l. xe_install E l (pi_staged p) (pi_manifest p))))
              (\<lambda>e. athen (abort_install E p None persist) (afail e))) (\<lambda>i.
       acatch
         (athen (port E (P_Verify i (pi_manifest p)))
         (athen (discard_staged E (pi_staged p))
         (athen (if persist then save_record E (installed_record p i) else areturn ())
           (areturn (installed_record p i)))))
         (\<lambda>e. athen (abort_install E p (Some i) persist) (afail e)))"

definition execute_install ::
  "ext_env \<Rightarrow> string \<Rightarrow> installation_confirmation option \<Rightarrow> string \<Rightarrow> bool \<Rightarrow> time \<Rightarrow> ('a ext_world_scheme, extension_record) act" where
  "execute_install E plan_id confirmation expected_mode persist now =
     abind (aget (\<lambda>w. dget (xw_pending w) plan_id)) (\<lambda>plan.
       case plan of
         None \<Rightarrow> araise ConfirmationRequiredError ''installation plan is missing or already consumed''
       | Some p \<Rightarrow>
           athen (aguard (\<not> pi_consumed p) ConfirmationRequiredError ''installation plan is missing or already consumed'')
          (athen (aguard (ip_mode (pi_preview p) = expected_mode) (ExtensionOperationError ''PLAN_MODE_MISMATCH'')
                    (''plan mode is '' @ py_repr (ip_mode (pi_preview p)) @ '', expected '' @ py_repr expected_mode))
          (athen (alift (validate_confirmation (pi_preview p) confirmation now))
          (athen (verify_staged_unchanged E plan_id p)
          (athen (if expected_mode = ''upgrade'' then verify_upgrade_baseline p else areturn ())
          (athen (aput (\<lambda>w. w\<lparr>xw_pending := dset plan_id (p\<lparr>pi_consumed := True\<rparr>) (xw_pending w)\<rparr>))
            (run_install E p expected_mode persist)))))))"

definition install_plan :: "ext_env \<Rightarrow> string \<Rightarrow> installation_confirmation option \<Rightarrow> time \<Rightarrow> ('a ext_world_scheme, extension_record) act" where
  "install_plan E plan_id confirmation now = execute_install E plan_id confirmation ''install'' True now"

definition install_candidate :: "ext_env \<Rightarrow> string \<Rightarrow> installation_confirmation option \<Rightarrow> time \<Rightarrow> ('a ext_world_scheme, extension_record) act" where
  "install_candidate E plan_id confirmation now = execute_install E plan_id confirmation ''upgrade'' False now"

definition discard_candidate :: "ext_env \<Rightarrow> extension_record \<Rightarrow> ('a ext_world_scheme, unit) act" where
  "discard_candidate E r = port E (P_RemoveVersion r)"

definition discard_staged_record :: "ext_env \<Rightarrow> extension_record \<Rightarrow> ('a ext_world_scheme, unit) act" where
  "discard_staged_record E r =
     (if er_install_path r \<noteq> None then areturn ()
      else abind (ask (P_Exists (mf_root (er_manifest r))) (\<lambda>l. Inr (xe_exists E l (mf_root (er_manifest r))))) (\<lambda>there.
        if \<not> there then areturn ()
        else discard_staged E \<lparr>sa_source = er_id r, sa_root = mf_root (er_manifest r), sa_artifact_hash = er_artifact_hash r\<rparr>))"

section \<open>The lifecycle manager\<close>

definition require_record :: "string \<Rightarrow> ('a ext_world_scheme, extension_record) act" where
  "require_record i =
     abind (lookup_record i) (\<lambda>r. case r of None \<Rightarrow> araise ExtensionError (''unknown extension: '' @ i) | Some r \<Rightarrow> areturn r)"

abbreviation in_state :: "extension_record \<Rightarrow> extension_state \<Rightarrow> extension_record" where
  "in_state r st \<equiv> r\<lparr>er_state := st\<rparr>"

text \<open>The \<open>except BaseException\<close> of \<open>_start_and_publish\<close>.\<close>

definition fail_start :: "ext_env \<Rightarrow> extension_record \<Rightarrow> bool \<Rightarrow> exn \<Rightarrow> ('a ext_world_scheme, 'b) act" where
  "fail_start E starting was_published e =
     athen (if was_published then athen (in_registry (registry_disable (er_id starting))) (areturn ()) else areturn ())
    (athen (port E (P_Stop starting))
    (athen (save_record E (in_state starting ES_QUARANTINED))
      (afail e)))"

definition bring_up :: "ext_env \<Rightarrow> extension_record \<Rightarrow> ('a ext_world_scheme, ext_snapshot) act" where
  "bring_up E starting =
     athen (port E (P_Start starting))
    (abind (ask (P_Health starting) (\<lambda>l. xe_health E l starting)) (\<lambda>healthy.
     athen (aguard healthy (ExtensionOperationError ''HEALTHCHECK_FAILED'') ''extension healthcheck failed'')
      (in_registry (registry_enable (in_state starting ES_ENABLED)))))"

definition start_and_publish :: "ext_env \<Rightarrow> extension_record \<Rightarrow> ('a ext_world_scheme, extension_record) act" where
  "start_and_publish E r =
     (let starting = in_state r ES_STARTING; enabled = in_state starting ES_ENABLED in
      athen (save_record E starting)
     (athen (acatch (bring_up E starting) (fail_start E starting False))
     (athen (acatch (save_record E enabled) (fail_start E starting True))
       (areturn enabled))))"

definition enable_extension :: "ext_env \<Rightarrow> string \<Rightarrow> ('a ext_world_scheme, extension_record) act" where
  "enable_extension E i =
     abind (require_record i) (\<lambda>r.
     athen (require_state r [ES_INSTALLED_DISABLED, ES_DISABLED, ES_ROLLED_BACK, ES_QUARANTINED] ''enable'')
       (start_and_publish E r))"

definition recover_extension :: "ext_env \<Rightarrow> string \<Rightarrow> ('a ext_world_scheme, extension_record) act" where
  "recover_extension E i =
     abind (require_record i) (\<lambda>r. athen (require_state r [ES_ENABLED] ''recover'') (start_and_publish E r))"

definition drain_timeout :: exn_class where
  "drain_timeout = ExtensionOperationError ''DRAIN_TIMEOUT''"

text \<open>\<open>drained is False or (isinstance(active, int) and active > 0)\<close>.\<close>

definition drain_incomplete :: "(string \<times> pyval) list \<Rightarrow> bool" where
  "drain_incomplete report \<longleftrightarrow>
     dget report ''drained'' = Some (VBool False) \<or>
     (case dget report ''active_calls'' of Some (VInt n) \<Rightarrow> 0 < n | Some (VBool b) \<Rightarrow> b | _ \<Rightarrow> False)"

definition drain_worker ::
  "ext_env \<Rightarrow> extension_record \<Rightarrow> time \<Rightarrow> ('a ext_world_scheme, (string \<times> pyval) list option \<times> exn option) act" where
  "drain_worker E draining deadline =
     abind (acatch (abind (ask (P_Drain draining deadline) (\<lambda>l. xe_drain E l draining deadline)) (\<lambda>report. areturn (report, None)))
       (\<lambda>e. if isa (fst e) RpcTimeoutError
            then areturn (None, Some (drain_timeout, ''extension did not drain before the deadline: '' @ snd e))
            else if isa (fst e) ExtensionError then areturn (None, Some e)
            else athen (port E (P_Stop draining)) (afail e))) (\<lambda>outcome.
     athen (port E (P_Stop draining)) (areturn outcome))"

definition disable_extension :: "ext_env \<Rightarrow> string \<Rightarrow> time \<Rightarrow> ('a ext_world_scheme, extension_record) act" where
  "disable_extension E i deadline =
     abind (require_record i) (\<lambda>r.
     athen (require_state r [ES_ENABLED] ''disable'')
    (athen (in_registry (registry_disable i))
    (athen (save_record E (in_state r ES_DRAINING))
    (abind (drain_worker E (in_state r ES_DRAINING) deadline) (\<lambda>(report, drain_error).
     athen (save_record E (in_state r ES_DISABLED))
       (case (if (case report of None \<Rightarrow> False | Some d \<Rightarrow> drain_incomplete d)
              then Some (drain_timeout, ''extension reported in-flight calls when the drain deadline expired'') else drain_error) of
          None \<Rightarrow> areturn (in_state r ES_DISABLED)
        | Some e \<Rightarrow> afail e))))))"

definition uninstall_extension :: "ext_env \<Rightarrow> string \<Rightarrow> time \<Rightarrow> ('a ext_world_scheme, extension_record) act" where
  "uninstall_extension E i deadline =
     abind (require_record i) (\<lambda>first.
     abind (if er_state first = ES_ENABLED then disable_extension E i deadline else areturn first) (\<lambda>r.
     athen (require_state r [ES_INSTALLED_DISABLED, ES_DISABLED, ES_QUARANTINED, ES_ROLLED_BACK] ''uninstall'')
    (athen (in_registry (registry_disable i))
     (let uninstalling = in_state r ES_UNINSTALLING;
          removed = uninstalling\<lparr>er_state := ES_UNINSTALLED, er_install_path := None, er_data_retained := True, er_tombstone := True\<rparr> in
      athen (save_record E uninstalling)
     (athen (port E (P_Stop uninstalling))
     (athen (port E (P_UninstallCode uninstalling))
     (athen (save_record E removed)
       (areturn removed))))))))"

definition prepare_purge :: "ext_env \<Rightarrow> string \<Rightarrow> string \<Rightarrow> ('a ext_world_scheme, purge_preview) act" where
  "prepare_purge E nonce i =
     abind (require_record i) (\<lambda>r.
     athen (require_state r [ES_UNINSTALLED] ''purge'')
    (abind (ask (P_Namespaces i) (\<lambda>l. xe_namespaces E l i)) (\<lambda>namespaces.
     abind (alift (hash_payload (xe_lib E) (VDict [(''extension_id'', VStr i), (''namespaces'', VTuple (map VStr namespaces)),
              (''nonce'', VStr nonce), (''warning'', VStr (xe_purge_warning E))]))) (\<lambda>h.
     let pv = \<lparr>pp_extension_id = i, pp_confirmation_nonce = nonce, pp_preview_hash = h, pp_data_namespaces = namespaces,
               pp_warning = xe_purge_warning E\<rparr> in
     athen (aput (\<lambda>w. w\<lparr>xw_purges := dset i pv (xw_purges w)\<rparr>)) (areturn pv)))))"

definition purge_extension :: "ext_env \<Rightarrow> purge_confirmation \<Rightarrow> ('a ext_world_scheme, extension_record) act" where
  "purge_extension E c =
     abind (aget (\<lambda>w. dget (xw_purges w) (pc_extension_id c))) (\<lambda>preview.
       case preview of
         None \<Rightarrow> araise ConfirmationRequiredError ''prepare a purge preview first''
       | Some pv \<Rightarrow>
           athen (aguard (pc_confirmation_nonce c = pp_confirmation_nonce pv \<and> pc_preview_hash c = pp_preview_hash pv \<and> \<not> blank (pc_actor c))
                    ConfirmationRequiredError ''purge confirmation does not match its preview'')
          (abind (require_record (pc_extension_id c)) (\<lambda>r.
           athen (require_state r [ES_UNINSTALLED] ''purge'')
          (athen (aput (\<lambda>w. w\<lparr>xw_purges := dpop (pc_extension_id c) (xw_purges w)\<rparr>))
          (athen (port E (P_PurgeData (pc_extension_id c)))
          (athen (save_record E (r\<lparr>er_data_retained := False\<rparr>))
            (areturn (r\<lparr>er_data_retained := False\<rparr>))))))))"

text \<open>Both compensations: unpublish, stop the other version, store the original again, restart it if it was serving.\<close>

definition compensate ::
  "ext_env \<Rightarrow> extension_record \<Rightarrow> extension_record \<Rightarrow> extension_state \<Rightarrow> bool \<Rightarrow> ('a ext_world_scheme, unit) act" where
  "compensate E original other st was_enabled =
     athen (asuppress is_exception (in_registry (registry_disable (er_id original))))
    (athen (asuppress is_exception (port E (P_Stop other)))
    (athen (asuppress is_exception (save_record E (in_state original st)))
      (if was_enabled then asuppress is_exception (enable_extension E (er_id original)) else areturn ())))"

definition compensate_failed_upgrade ::
  "ext_env \<Rightarrow> extension_record \<Rightarrow> extension_record \<Rightarrow> bool \<Rightarrow> ('a ext_world_scheme, unit) act" where
  "compensate_failed_upgrade E original candidate was_enabled = compensate E original candidate ES_ROLLED_BACK was_enabled"

definition compensate_failed_rollback ::
  "ext_env \<Rightarrow> extension_record \<Rightarrow> extension_record \<Rightarrow> bool \<Rightarrow> ('a ext_world_scheme, unit) act" where
  "compensate_failed_rollback E original restored was_enabled = compensate E original restored ES_DISABLED was_enabled"

definition upgrade_switch :: "ext_env \<Rightarrow> extension_record \<Rightarrow> extension_record \<Rightarrow> time \<Rightarrow> ('a ext_world_scheme, extension_record) act" where
  "upgrade_switch E original candidate deadline =
     (let was_enabled = (er_state original = ES_ENABLED); i = er_id original; activated = in_state candidate ES_DISABLED in
      abind (if was_enabled then disable_extension E i deadline else areturn original) (\<lambda>current.
      athen (save_record E (in_state current ES_UPGRADING))
     (athen (port E (P_Activate (in_state current ES_UPGRADING) candidate))
     (athen (save_record E activated)
       (if was_enabled then enable_extension E i else areturn activated)))))"

definition upgrade_extension :: "ext_env \<Rightarrow> string \<Rightarrow> extension_record \<Rightarrow> time \<Rightarrow> ('a ext_world_scheme, extension_record) act" where
  "upgrade_extension E i candidate deadline =
     abind (require_record i) (\<lambda>original.
     athen (require_state original [ES_ENABLED, ES_DISABLED, ES_INSTALLED_DISABLED, ES_QUARANTINED, ES_ROLLED_BACK] ''upgrade'')
    (athen (aguard (er_id candidate = i) ExtensionError ''upgrade candidate has a different extension id'')
    (athen (aguard (er_state candidate = ES_INSTALLED_DISABLED) ExtensionError ''upgrade candidate must be installed and contract-tested'')
     (acatch (upgrade_switch E original candidate deadline)
       (\<lambda>e. athen (compensate_failed_upgrade E original candidate (er_state original = ES_ENABLED)) (afail e))))))"

definition rollback_switch :: "ext_env \<Rightarrow> extension_record \<Rightarrow> extension_record \<Rightarrow> time \<Rightarrow> ('a ext_world_scheme, extension_record) act" where
  "rollback_switch E original restored deadline =
     (let was_enabled = (er_state original = ES_ENABLED); rolled_back = in_state restored ES_ROLLED_BACK in
      athen (if was_enabled then disable_extension E (er_id original) deadline else areturn original)
     (athen (save_record E rolled_back)
       (if was_enabled then start_and_publish E rolled_back else areturn rolled_back)))"

definition rollback_extension :: "ext_env \<Rightarrow> string \<Rightarrow> time \<Rightarrow> ('a ext_world_scheme, extension_record) act" where
  "rollback_extension E i deadline =
     abind (require_record i) (\<lambda>original.
     athen (require_state original [ES_ENABLED, ES_DISABLED, ES_QUARANTINED] ''rollback'')
    (abind (ask (P_VersionRollback original) (\<lambda>l. xe_rollback E l original)) (\<lambda>restored.
     athen (aguard (er_id restored = i) ExtensionError ''rollback restored a different extension id'')
     (acatch (rollback_switch E original restored deadline)
       (\<lambda>e. athen (compensate_failed_rollback E original restored (er_state original = ES_ENABLED)) (afail e))))))"

section \<open>The invariant\<close>

text \<open>
  The log shows that the worker of a record was started and answered its health check, and that no
  worker of the extension was stopped since.
\<close>

definition serving :: "ext_env \<Rightarrow> port_log \<Rightarrow> extension_record \<Rightarrow> bool" where
  "serving E l r \<longleftrightarrow>
     (\<exists>a b. l = a @ [P_Start (in_state r ES_STARTING), P_Health (in_state r ES_STARTING)] @ b \<and>
        xe_unit E a (P_Start (in_state r ES_STARTING)) = Inr () \<and>
        xe_health E (a @ [P_Start (in_state r ES_STARTING)]) (in_state r ES_STARTING) = Inr True \<and>
        (\<forall>q. P_Stop q \<in> set b \<longrightarrow> er_id q \<noteq> er_id r))"

definition keyed_store :: "ext_store \<Rightarrow> bool" where
  "keyed_store s \<longleftrightarrow> (\<forall>i r. dget s i = Some r \<longrightarrow> er_id r = i)"

text \<open>A plan that is not for an upgrade and may still be executed or rejected.\<close>

definition open_install :: "pending_install \<Rightarrow> bool" where
  "open_install p \<longleftrightarrow> \<not> pi_consumed p \<and> ip_mode (pi_preview p) \<noteq> ''upgrade''"

definition plans_ok :: "'a ext_world_scheme \<Rightarrow> bool" where
  "plans_ok w \<longleftrightarrow>
     (\<forall>k p. dget (xw_pending w) k = Some p \<longrightarrow> ip_plan_id (pi_preview p) = k) \<and>
     (\<forall>k p. dget (xw_pending w) k = Some p \<longrightarrow> open_install p \<longrightarrow> is_installable (dget (xw_store w) (mf_id (pi_manifest p)))) \<and>
     (\<forall>k p k' p'. dget (xw_pending w) k = Some p \<longrightarrow> dget (xw_pending w) k' = Some p' \<longrightarrow> open_install p \<longrightarrow> open_install p' \<longrightarrow>
        mf_id (pi_manifest p) = mf_id (pi_manifest p') \<longrightarrow> k = k')"

text \<open>The invariant, except for what is published under the identifiers of a set.\<close>

definition ext_inv_but :: "string set \<Rightarrow> ext_env \<Rightarrow> 'a ext_world_scheme \<Rightarrow> bool" where
  "ext_inv_but X E w \<longleftrightarrow>
     keyed_store (xw_store w) \<and> registry_ok (xw_registry w) \<and> plans_ok w \<and>
     (\<forall>i r. i \<notin> X \<longrightarrow> published (xw_registry w) i = Some r \<longrightarrow> dget (xw_store w) i = Some r \<and> serving E (xw_log w) r)"

abbreviation ext_inv :: "ext_env \<Rightarrow> 'a ext_world_scheme \<Rightarrow> bool" where
  "ext_inv \<equiv> ext_inv_but {}"

definition idle :: "string \<Rightarrow> 'a ext_world_scheme \<Rightarrow> bool" where
  "idle i w \<longleftrightarrow> published (xw_registry w) i = None"

definition no_plan :: "string \<Rightarrow> 'a ext_world_scheme \<Rightarrow> bool" where
  "no_plan i w \<longleftrightarrow> (\<forall>k p. dget (xw_pending w) k = Some p \<longrightarrow> open_install p \<longrightarrow> mf_id (pi_manifest p) \<noteq> i)"

definition owned :: "ext_env \<Rightarrow> string \<Rightarrow> 'a ext_world_scheme \<Rightarrow> bool" where
  "owned E i w \<longleftrightarrow> ext_inv E w \<and> no_plan i w"

definition held :: "ext_env \<Rightarrow> string \<Rightarrow> 'a ext_world_scheme \<Rightarrow> bool" where
  "held E i w \<longleftrightarrow> ext_inv E w \<and> no_plan i w \<and> idle i w"

definition publishing :: "ext_env \<Rightarrow> extension_record \<Rightarrow> 'a ext_world_scheme \<Rightarrow> bool" where
  "publishing E r w \<longleftrightarrow> ext_inv_but {er_id r} E w \<and> no_plan (er_id r) w \<and> published (xw_registry w) (er_id r) = Some r \<and> serving E (xw_log w) r"

named_theorems ext_rules "Hoare triples of the operations"

lemma heldD: "held E i w \<Longrightarrow> owned E i w" "held E i w \<Longrightarrow> ext_inv E w" "owned E i w \<Longrightarrow> ext_inv E w"
  by (simp_all add: held_def owned_def)

lemma serving_append: "serving E l r \<Longrightarrow> (\<And>q. c = P_Stop q \<Longrightarrow> er_id q \<noteq> er_id r) \<Longrightarrow> serving E (l @ [c]) r"
  unfolding serving_def by (elim exE conjE) (rule_tac x = a in exI, rule_tac x = "b @ [c]" in exI, auto)

subsection \<open>Primitive steps\<close>

lemma keyed_id: "ext_inv_but X E w \<Longrightarrow> i \<notin> X \<Longrightarrow> published (xw_registry w) i = Some r \<Longrightarrow> er_id r = i"
  using published_enabled unfolding ext_inv_but_def by blast

lemma log_inv:
  assumes "ext_inv_but X E w" "\<And>q. c = P_Stop q \<Longrightarrow> er_id q \<in> X \<or> idle (er_id q) w"
  shows "ext_inv_but X E (w\<lparr>xw_log := xw_log w @ [c]\<rparr>)"
proof -
  have "serving E (xw_log w @ [c]) r" if "i \<notin> X" "published (xw_registry w) i = Some r" for i r
  proof (rule serving_append)
    show "serving E (xw_log w) r" using assms(1) that unfolding ext_inv_but_def by blast
    show "er_id q \<noteq> er_id r" if "c = P_Stop q" for q
      using assms(2) [OF that] keyed_id [OF assms(1) \<open>i \<notin> X\<close> \<open>published (xw_registry w) i = Some r\<close>] \<open>i \<notin> X\<close>
        \<open>published (xw_registry w) i = Some r\<close> by (auto simp: idle_def)
  qed
  with assms(1) show ?thesis unfolding ext_inv_but_def plans_ok_def by simp
qed

lemma ask_hoare: "(\<And>w. P w \<Longrightarrow> Q (w\<lparr>xw_log := xw_log w @ [c]\<rparr>)) \<Longrightarrow> hoare P (ask c f) (\<lambda>_. Q) (\<lambda>_. Q)"
  by (auto simp: hoare_def ask_def simp del: split_paired_All)

definition not_stop :: "port_call \<Rightarrow> bool" where
  "not_stop c \<longleftrightarrow> (\<forall>q. c \<noteq> P_Stop q)"

lemma not_stop_simps [simp]:
  "not_stop (P_Stage a)" "not_stop (P_Discard b)" "not_stop (P_Hash a)" "not_stop (P_Parse a)" "not_stop (P_Install b m)"
  "not_stop (P_Verify i m)" "not_stop (P_RemoveOrphan a c)" "not_stop (P_RemoveVersion r)" "not_stop (P_UninstallCode r)"
  "not_stop (P_CleanFailed b)" "not_stop (P_Save r)" "not_stop (P_Start r)" "not_stop (P_Health r)" "not_stop (P_Drain r t)"
  "not_stop (P_Namespaces a)" "not_stop (P_PurgeData a)" "not_stop (P_Activate r q)" "not_stop (P_VersionRollback r)"
  "not_stop (P_InvokeTool a c)" "not_stop (P_Exists a)" "not_stop (P_IsDir a)"
  by (simp_all add: not_stop_def)

lemma ask_inv: "not_stop c \<Longrightarrow> keeps (ext_inv_but X E) (ask c f)"
  by (rule ask_hoare) (auto intro: log_inv simp: not_stop_def)

lemma log_simps [simp]: "idle i (w\<lparr>xw_log := l\<rparr>) = idle i w" "no_plan i (w\<lparr>xw_log := l\<rparr>) = no_plan i w"
  "idle i (w\<lparr>xw_store := s\<rparr>) = idle i w" "no_plan i (w\<lparr>xw_store := s\<rparr>) = no_plan i w" "no_plan i (w\<lparr>xw_registry := g\<rparr>) = no_plan i w"
  "idle i (w\<lparr>xw_pending := pd\<rparr>) = idle i w"
  by (simp_all add: idle_def no_plan_def)

lemma ask_owned [ext_rules]: "not_stop c \<Longrightarrow> keeps (owned E i) (ask c f)"
  by (rule ask_hoare) (auto intro: log_inv simp: not_stop_def owned_def)

lemma ask_held [ext_rules]: "not_stop c \<Longrightarrow> keeps (held E i) (ask c f)"
  by (rule ask_hoare) (auto intro: log_inv simp: not_stop_def held_def)

lemma port_held [ext_rules]: "not_stop c \<Longrightarrow> keeps (held E i) (port E c)"
  unfolding port_def by (rule ask_held)

lemma port_inv: "not_stop c \<Longrightarrow> keeps (ext_inv_but X E) (port E c)"
  unfolding port_def by (rule ask_inv)

lemma stop_held [ext_rules]: "er_id r = i \<Longrightarrow> keeps (held E i) (port E (P_Stop r))"
  unfolding port_def by (rule ask_hoare) (auto intro: log_inv simp: held_def)

lemma store_saved: "snd (store_save r None s) = dset (er_id r) r s"
  by (simp add: store_save_def)

lemma keyed_store_dset: "keyed_store s \<Longrightarrow> keyed_store (dset (er_id r) r s)"
  by (auto simp: keyed_store_def)

lemma store_inv:
  assumes "ext_inv_but X E w" "er_id r \<in> X \<or> idle (er_id r) w" "er_state r \<in> set installable_states \<or> no_plan (er_id r) w"
  shows "ext_inv_but X E (w\<lparr>xw_store := dset (er_id r) r (xw_store w)\<rparr>)"
proof -
  from assms(1) have k: "keyed_store (xw_store w)" "plans_ok w" unfolding ext_inv_but_def by blast+
  have "plans_ok (w\<lparr>xw_store := dset (er_id r) r (xw_store w)\<rparr>)"
    using k(2) assms(3) unfolding plans_ok_def no_plan_def by (auto simp: is_installable_def)
  with k keyed_store_dset [of "xw_store w" r] assms(1,2) show ?thesis
    unfolding ext_inv_but_def idle_def by auto
qed

lemma save_hoare:
  assumes "\<And>w. P w \<Longrightarrow> Q (w\<lparr>xw_log := xw_log w @ [P_Save r], xw_store := dset (er_id r) r (xw_store w)\<rparr>)"
    and "\<And>w. P w \<Longrightarrow> R (w\<lparr>xw_log := xw_log w @ [P_Save r]\<rparr>)"
  shows "hoare P (save_record E r) (\<lambda>_. Q) (\<lambda>_. R)"
  using assms
  by (auto simp: hoare_def save_record_def port_def ask_def abind_def sbind_def aput_def store_saved split: sum.splits simp del: split_paired_All)

lemma save_held [ext_rules]:
  assumes "er_id r = i"
  shows "keeps (held E i) (save_record E r)"
proof (rule save_hoare)
  fix w :: "'a ext_world_scheme" assume w: "held E i w"
  then have "ext_inv E (w\<lparr>xw_log := xw_log w @ [P_Save r]\<rparr>)" by (auto simp: held_def intro: log_inv)
  with w assms show "held E i (w\<lparr>xw_log := xw_log w @ [P_Save r]\<rparr>)" by (simp add: held_def)
  from store_inv [OF \<open>ext_inv E (w\<lparr>xw_log := xw_log w @ [P_Save r]\<rparr>)\<close>, of r] w assms
  show "held E i (w\<lparr>xw_log := xw_log w @ [P_Save r], xw_store := dset (er_id r) r (xw_store w)\<rparr>)" by (simp add: held_def)
qed

lemma save_installable [ext_rules]:
  assumes "er_state r \<in> set installable_states"
  shows "hoare (\<lambda>w. ext_inv E w \<and> idle (er_id r) w) (save_record E r) (\<lambda>_. ext_inv E) (\<lambda>_. ext_inv E)"
proof (rule save_hoare)
  fix w :: "'a ext_world_scheme" assume w: "ext_inv E w \<and> idle (er_id r) w"
  then have l: "ext_inv E (w\<lparr>xw_log := xw_log w @ [P_Save r]\<rparr>)" by (auto intro: log_inv)
  then show "ext_inv E (w\<lparr>xw_log := xw_log w @ [P_Save r]\<rparr>)" .
  from store_inv [OF l, of r] w assms
  show "ext_inv E (w\<lparr>xw_log := xw_log w @ [P_Save r], xw_store := dset (er_id r) r (xw_store w)\<rparr>)" by simp
qed

lemma disable_registry:
  assumes "ext_inv_but {i} E w" "no_plan i w"
  obtains s where "in_registry (registry_disable i) w = (Inr s, w\<lparr>xw_registry := s\<rparr>)" "held E i (w\<lparr>xw_registry := s\<rparr>)"
proof -
  from assms have "registry_ok (xw_registry w)" unfolding ext_inv_but_def by blast
  then obtain s where s: "registry_disable i (xw_registry w) = (Inr s, s)" "registry_ok s"
    "\<And>j. published s j = (if j = i then None else published (xw_registry w) j)" by (rule registry_disable_ok [of _ i]) blast
  have "ext_inv E (w\<lparr>xw_registry := s\<rparr>)"
    using assms(1) s(2,3) unfolding ext_inv_but_def plans_ok_def by auto
  with assms(2) s show ?thesis by (intro that [of s]) (simp_all add: in_registry_def held_def idle_def)
qed

lemma ext_inv_weaken: "ext_inv E w \<Longrightarrow> ext_inv_but X E w"
  unfolding ext_inv_but_def by blast

lemma disable_owned [ext_rules]: "hoare (owned E i) (in_registry (registry_disable i)) (\<lambda>_. held E i) (\<lambda>_ _. False)"
proof (rule hoareI)
  fix w :: "'a ext_world_scheme" and x w' assume "owned E i w" "in_registry (registry_disable i) w = (Inr x, w')"
  then show "held E i w'" by (auto simp: owned_def elim: disable_registry [OF ext_inv_weaken])
next
  fix w :: "'a ext_world_scheme" and e w' assume "owned E i w" "in_registry (registry_disable i) w = (Inl e, w')"
  then show False by (auto simp: owned_def elim: disable_registry [OF ext_inv_weaken])
qed

subsection \<open>Operations of the manager\<close>

lemma start_step:
  "hoare (held E i) (port E (P_Start s))
     (\<lambda>_ w. held E i w \<and> (\<exists>a. xw_log w = a @ [P_Start s] \<and> xe_unit E a (P_Start s) = Inr ())) (\<lambda>_. held E i)"
  by (auto simp: hoare_def port_def ask_def held_def intro: log_inv simp del: split_paired_All)

lemma health_step:
  "hoare (\<lambda>w. held E i w \<and> (\<exists>a. xw_log w = a @ [P_Start s] \<and> xe_unit E a (P_Start s) = Inr ())) (ask (P_Health s) (\<lambda>l. xe_health E l s))
     (\<lambda>ok w. held E i w \<and> (\<exists>a. xw_log w = a @ [P_Start s, P_Health s] \<and> xe_unit E a (P_Start s) = Inr () \<and>
        xe_health E (a @ [P_Start s]) s = Inr ok)) (\<lambda>_. held E i)"
  by (auto simp: hoare_def ask_def held_def intro: log_inv simp del: split_paired_All)

lemma publish_step:
  assumes "er_id r = i" "er_state r = ES_ENABLED"
  shows "hoare (\<lambda>w. held E i w \<and> serving E (xw_log w) r) (in_registry (registry_enable r)) (\<lambda>_. publishing E r) (\<lambda>_. held E i)"
proof -
  have "(case in_registry (registry_enable r) w of (Inr x, w') \<Rightarrow> publishing E r w' | (Inl e, w') \<Rightarrow> held E i w')"
    if w: "held E i w" "serving E (xw_log w) r" for w :: "'a ext_world_scheme"
  proof -
    from w(1) have "registry_ok (xw_registry w)" unfolding held_def ext_inv_but_def by blast
    then show ?thesis
    proof (rule registry_enable_cases [of _ r])
      fix s' assume s': "registry_enable r (xw_registry w) = (Inr s', s')" "registry_ok s'"
        "\<And>j. published s' j = (if j = er_id r then Some r else published (xw_registry w) j)"
      have "ext_inv_but {i} E (w\<lparr>xw_registry := s'\<rparr>)"
        using w(1) s'(2,3) assms(1) unfolding held_def ext_inv_but_def plans_ok_def by auto
      with w s' assms(1) show ?thesis by (simp add: in_registry_def publishing_def held_def)
    qed (use w in \<open>simp add: in_registry_def\<close>)
  qed
  then show ?thesis by (intro hoareI) force+
qed

lemma bring_up_hoare:
  assumes "er_state s = ES_STARTING" "er_id s = i"
  shows "hoare (held E i) (bring_up E s) (\<lambda>_. publishing E (in_state s ES_ENABLED)) (\<lambda>_. held E i)"
proof -
  have "in_state (in_state s ES_ENABLED) ES_STARTING = s" using assms(1) by simp
  then have serving: "serving E (a @ [P_Start s, P_Health s]) (in_state s ES_ENABLED)"
    if "xe_unit E a (P_Start s) = Inr ()" "xe_health E (a @ [P_Start s]) s = Inr True" for a
    using that unfolding serving_def by (intro exI [of _ a] exI [of _ "[]"]) simp
  show ?thesis
    unfolding bring_up_def
  proof (rule hoare_bind [OF start_step], rule hoare_bind [OF health_step],
      rule hoare_bind [where M = "\<lambda>_ w. held E i w \<and> serving E (xw_log w) (in_state s ES_ENABLED)", OF hoare_guard])
    show "hoare (\<lambda>w. held E i w \<and> serving E (xw_log w) (in_state s ES_ENABLED)) (in_registry (registry_enable (in_state s ES_ENABLED)))
      (\<lambda>_. publishing E (in_state s ES_ENABLED)) (\<lambda>_. held E i)" by (rule publish_step) (simp_all add: assms)
  qed (use serving in auto)
qed

lemma finish_publish:
  "hoare (publishing E r) (save_record E r) (\<lambda>_. owned E (er_id r)) (\<lambda>_. publishing E r)"
proof (rule save_hoare)
  fix w :: "'a ext_world_scheme" assume w: "publishing E r w"
  then have l: "ext_inv_but {er_id r} E (w\<lparr>xw_log := xw_log w @ [P_Save r]\<rparr>)" by (auto simp: publishing_def intro: log_inv)
  have sv: "serving E (xw_log w @ [P_Save r]) r" using w by (auto simp: publishing_def intro: serving_append)
  with l w show "publishing E r (w\<lparr>xw_log := xw_log w @ [P_Save r]\<rparr>)" by (simp add: publishing_def)
  from store_inv [OF l, of r] w have "ext_inv_but {er_id r} E (w\<lparr>xw_log := xw_log w @ [P_Save r], xw_store := dset (er_id r) r (xw_store w)\<rparr>)"
    by (simp add: publishing_def)
  with w sv show "owned E (er_id r) (w\<lparr>xw_log := xw_log w @ [P_Save r], xw_store := dset (er_id r) r (xw_store w)\<rparr>)"
    unfolding owned_def publishing_def ext_inv_but_def by auto
qed

lemma unpublish: "hoare (publishing E r) (in_registry (registry_disable (er_id r))) (\<lambda>_. held E (er_id r)) (\<lambda>_ _. False)"
proof (rule hoareI)
  fix w :: "'a ext_world_scheme" and x w' assume "publishing E r w" "in_registry (registry_disable (er_id r)) w = (Inr x, w')"
  then show "held E (er_id r) w'" by (auto simp: publishing_def elim: disable_registry)
next
  fix w :: "'a ext_world_scheme" and e w' assume "publishing E r w" "in_registry (registry_disable (er_id r)) w = (Inl e, w')"
  then show False by (auto simp: publishing_def elim: disable_registry)
qed

lemma fail_start_False: "er_id s = i \<Longrightarrow> hoare (held E i) (fail_start E s False e) (\<lambda>_ _. False) (\<lambda>_. held E i)"
  unfolding fail_start_def by (auto intro!: keeps_rules ext_rules)

lemma fail_start_True:
  assumes "er_id s = i" "er_id r = i"
  shows "hoare (publishing E r) (fail_start E s True e) (\<lambda>_ _. False) (\<lambda>_. held E i)"
proof -
  have *: "hoare (publishing E r) (in_registry (registry_disable i)) (\<lambda>_. held E i) (\<lambda>_. held E i)"
    by (rule hoare_weaken [OF unpublish [of E r, unfolded assms(2)]]) simp_all
  show ?thesis unfolding fail_start_def assms(1) if_True
    by (rule hoare_bind [where M = "\<lambda>_. held E i", OF hoare_bind [OF * hoare_return]])
       (auto intro!: keeps_rules ext_rules simp: assms)
qed

lemma start_and_publish_held [ext_rules]:
  assumes "er_id r = i"
  shows "hoare (held E i) (start_and_publish E r) (\<lambda>_. owned E i) (\<lambda>_. held E i)"
proof -
  have 1: "hoare (held E i) (acatch (bring_up E (in_state r ES_STARTING)) (fail_start E (in_state r ES_STARTING) False))
      (\<lambda>_. publishing E (in_state r ES_ENABLED)) (\<lambda>_. held E i)"
  proof (rule hoare_catch)
    show "hoare (held E i) (bring_up E (in_state r ES_STARTING)) (\<lambda>_. publishing E (in_state r ES_ENABLED)) (\<lambda>_. held E i)"
      using bring_up_hoare [of "in_state r ES_STARTING" i E] assms by simp
    show "hoare (held E i) (fail_start E (in_state r ES_STARTING) False e) (\<lambda>_. publishing E (in_state r ES_ENABLED)) (\<lambda>_. held E i)" for e
      by (rule hoare_weaken [OF fail_start_False]) (simp_all add: assms)
  qed
  have 2: "hoare (publishing E (in_state r ES_ENABLED)) (acatch (save_record E (in_state r ES_ENABLED)) (fail_start E (in_state r ES_STARTING) True))
      (\<lambda>_. owned E i) (\<lambda>_. held E i)"
  proof (rule hoare_catch)
    show "hoare (publishing E (in_state r ES_ENABLED)) (save_record E (in_state r ES_ENABLED)) (\<lambda>_. owned E i) (\<lambda>_. publishing E (in_state r ES_ENABLED))"
      using finish_publish [of E "in_state r ES_ENABLED"] assms by simp
    show "hoare (publishing E (in_state r ES_ENABLED)) (fail_start E (in_state r ES_STARTING) True e) (\<lambda>_. owned E i) (\<lambda>_. held E i)" for e
      by (rule hoare_weaken [OF fail_start_True [of _ i]]) (simp_all add: assms)
  qed
  show ?thesis
    unfolding start_and_publish_def Let_def
    by (rule hoare_bind [OF save_held], simp add: assms, rule hoare_bind [OF 1])
       (use 2 in \<open>auto intro!: hoare_bind hoare_return\<close>)
qed

text \<open>What the stored state of an extension says about the registry and the plans.\<close>

lemma stored_owned:
  assumes "ext_inv E w" "dget (xw_store w) i = Some r" "er_state r \<notin> set installable_states"
  shows "owned E i w \<and> er_id r = i"
proof -
  from assms have "plans_ok w" "keyed_store (xw_store w)" unfolding ext_inv_but_def by blast+
  then have "er_id r = i" using assms(2) unfolding keyed_store_def by blast
  moreover have "no_plan i w" unfolding no_plan_def
  proof (intro allI impI notI)
    fix k p assume "dget (xw_pending w) k = Some p" "open_install p" "mf_id (pi_manifest p) = i"
    with \<open>plans_ok w\<close> have "is_installable (dget (xw_store w) i)" unfolding plans_ok_def by blast
    with assms(2,3) show False by (simp add: is_installable_def)
  qed
  ultimately show ?thesis using assms(1) by (simp add: owned_def)
qed

lemma stored_idle:
  assumes "ext_inv E w" "\<And>r. dget (xw_store w) i = Some r \<Longrightarrow> er_state r \<noteq> ES_ENABLED"
  shows "idle i w"
proof (rule ccontr)
  assume "\<not> idle i w"
  then obtain q where q: "published (xw_registry w) i = Some q" by (auto simp: idle_def)
  with assms(1) have "dget (xw_store w) i = Some q" "registry_ok (xw_registry w)" unfolding ext_inv_but_def by blast+
  with assms(2) published_enabled [OF _ q] show False by simp
qed

lemma stored_held:
  assumes "ext_inv E w" "dget (xw_store w) i = Some r" "er_state r \<notin> set installable_states" "er_state r \<noteq> ES_ENABLED"
  shows "held E i w \<and> er_id r = i"
  using stored_owned [OF assms(1-3)] stored_idle [OF assms(1), of i] assms(2,4) by (simp add: held_def owned_def)

lemma require_record_hoare:
  assumes "\<And>r. hoare (\<lambda>w. P w \<and> dget (xw_store w) i = Some r) (f r) Q R" "\<And>w e. P w \<Longrightarrow> R e w"
  shows "hoare P (abind (require_record i) f) Q R"
proof (rule hoare_bind [where M = "\<lambda>r w. P w \<and> dget (xw_store w) i = Some r"])
  show "hoare P (require_record i) (\<lambda>r w. P w \<and> dget (xw_store w) i = Some r) R"
    using assms(2) by (auto simp: hoare_def require_record_def lookup_record_def abind_def sbind_def aget_def areturn_def araise_def raise_def
        split: option.splits simp del: split_paired_All)
qed (rule assms(1))

lemma require_state_hoare:
  assumes "er_state r \<in> set allowed \<Longrightarrow> hoare P m Q R" "\<And>w e. P w \<Longrightarrow> R e w"
  shows "hoare P (athen (require_state r allowed t) m) Q R"
proof (cases "er_state r \<in> set allowed")
  case True
  with assms(1) show ?thesis by (auto simp: require_state_def abind_def areturn_def hoare_def simp del: split_paired_All)
next
  case False
  with assms(2) show ?thesis by (auto simp: require_state_def abind_def araise_def raise_def hoare_def simp del: split_paired_All)
qed

text \<open>A stored record carries its own identifier.\<close>

lemma stored_id: "ext_inv E w \<Longrightarrow> dget (xw_store w) i = Some r \<Longrightarrow> er_id r = i"
  unfolding ext_inv_but_def keyed_store_def by blast

lemma require_stored:
  assumes "\<And>w. P w \<Longrightarrow> ext_inv E w" "\<And>w e. P w \<Longrightarrow> R e w"
    and "\<And>r. er_id r = i \<Longrightarrow> hoare (\<lambda>w. P w \<and> dget (xw_store w) i = Some r) (f r) Q R"
  shows "hoare P (abind (require_record i) f) Q R"
proof (rule require_record_hoare)
  show "hoare (\<lambda>w. P w \<and> dget (xw_store w) i = Some r) (f r) Q R" for r
  proof (rule hoare_fact [where c = "er_id r = i"])
    show "er_id r = i" if "P w \<and> dget (xw_store w) i = Some r" for w using assms(1) [of w] stored_id [of E w] that by blast
  qed (rule assms(3))
qed (rule assms(2))

lemma require_stored_state:
  assumes "\<And>w. P w \<Longrightarrow> ext_inv E w" "\<And>w e. P w \<Longrightarrow> R e w"
    and "\<And>r. er_id r = i \<Longrightarrow> er_state r \<in> set allowed \<Longrightarrow> hoare (\<lambda>w. P w \<and> dget (xw_store w) i = Some r) (f r) Q R"
  shows "hoare P (abind (require_record i) (\<lambda>r. athen (require_state r allowed t) (f r))) Q R"
  by (rule require_stored [OF assms(1,2)], assumption, assumption, rule require_state_hoare) (use assms(2,3) in auto)

lemma enable_keeps:
  assumes "\<And>w. P w \<Longrightarrow> ext_inv E w" "\<And>w. owned E i w \<Longrightarrow> P w"
  shows "keeps P (enable_extension E i)"
  unfolding enable_extension_def
proof (rule require_stored_state [where E = E])
  fix r :: extension_record assume st: "er_id r = i" "er_state r \<in> set [ES_INSTALLED_DISABLED, ES_DISABLED, ES_ROLLED_BACK, ES_QUARANTINED]"
  show "hoare (\<lambda>w. P w \<and> dget (xw_store w) i = Some r) (start_and_publish E r) (\<lambda>_. P) (\<lambda>_. P)"
  proof (rule hoare_weaken [OF start_and_publish_held [OF st(1)]])
    show "held E i w" if "P w \<and> dget (xw_store w) i = Some r" for w
      using stored_held [of E w i r] assms(1) [of w] that st(2) by (auto simp: installable_states_def)
  qed (simp_all add: assms(2) heldD)
qed (simp_all add: assms(1))

lemma enable_inv [ext_rules]: "keeps (ext_inv E) (enable_extension E i)"
  by (rule enable_keeps) (simp_all add: owned_def)

lemma enable_owned [ext_rules]: "keeps (owned E i) (enable_extension E i)"
  by (rule enable_keeps) (simp_all add: owned_def)

lemma drain_held [ext_rules]: "er_id r = i \<Longrightarrow> keeps (held E i) (drain_worker E r deadline)"
  unfolding drain_worker_def by (auto intro!: keeps_rules ext_rules)

lemma disable_owned_held:
  "hoare (owned E i) (disable_extension E i deadline) (\<lambda>x w. held E i w \<and> er_id x = i) (\<lambda>_. owned E i)"
  unfolding disable_extension_def
proof (rule require_stored_state [where E = E])
  fix r :: extension_record assume i: "er_id r = i"
  let ?rest = "athen (save_record E (in_state r ES_DRAINING)) (abind (drain_worker E (in_state r ES_DRAINING) deadline) (\<lambda>(report, drain_error).
     athen (save_record E (in_state r ES_DISABLED))
       (case (if (case report of None \<Rightarrow> False | Some d \<Rightarrow> drain_incomplete d)
              then Some (drain_timeout, ''extension reported in-flight calls when the drain deadline expired'') else drain_error) of
          None \<Rightarrow> areturn (in_state r ES_DISABLED)
        | Some e \<Rightarrow> afail e)))"
  have "hoare (held E i) ?rest (\<lambda>x w. held E i w \<and> er_id x = i) (\<lambda>_. held E i)" using i by (auto intro!: keeps_rules ext_rules)
  then have rest: "hoare (held E i) ?rest (\<lambda>x w. held E i w \<and> er_id x = i) (\<lambda>_. owned E i)" by (rule hoare_weaken) (simp_all add: heldD)
  have "hoare (owned E i) (in_registry (registry_disable i)) (\<lambda>_. held E i) (\<lambda>_. owned E i)"
    by (rule hoare_weaken [OF disable_owned]) simp_all
  from hoare_bind [OF this rest]
  show "hoare (\<lambda>w. owned E i w \<and> dget (xw_store w) i = Some r) (athen (in_registry (registry_disable i)) ?rest) (\<lambda>x w. held E i w \<and> er_id x = i) (\<lambda>_. owned E i)"
    by (rule hoare_pre) simp
qed (simp_all add: heldD)

lemma to_inv: "hoare (held E i) m (\<lambda>_. held E i) (\<lambda>_. held E i) \<Longrightarrow> hoare (held E i) m (\<lambda>_. ext_inv E) (\<lambda>_. ext_inv E)"
  by (erule hoare_weaken) (simp_all add: held_def)

lemma held_post:
  assumes "hoare P m Q R" "\<And>x w. Q x w \<Longrightarrow> held E i w" "\<And>e w. R e w \<Longrightarrow> held E i w"
  shows "hoare P m (\<lambda>_. owned E i) (\<lambda>_. owned E i)"
  by (rule hoare_weaken [OF assms(1)]) (use assms(2,3) in \<open>auto intro: heldD\<close>)

lemma compensate_owned:
  assumes "er_id original = i" "er_id other = i"
  shows "keeps (owned E i) (compensate E original other st was_enabled)"
proof -
  have 1: "hoare (owned E i) (asuppress is_exception (in_registry (registry_disable i))) (\<lambda>_. held E i) (\<lambda>_. owned E i)"
    by (rule hoare_suppress [OF disable_owned]) simp_all
  have 2: "keeps (held E i) (asuppress is_exception (port E (P_Stop other)))" "keeps (held E i) (asuppress is_exception (save_record E (in_state original st)))"
    using assms by (auto intro!: keeps_rules ext_rules)
  have 3: "hoare (held E i) (if was_enabled then asuppress is_exception (enable_extension E i) else areturn ()) (\<lambda>_. owned E i) (\<lambda>_. owned E i)"
    by (auto intro!: keeps_rules hoare_pre [OF keeps_suppress [OF enable_owned]] intro: heldD)
  have 4: "hoare (held E i) (asuppress is_exception (port E (P_Stop other))) (\<lambda>_. held E i) (\<lambda>_. owned E i)"
    "hoare (held E i) (asuppress is_exception (save_record E (in_state original st))) (\<lambda>_. held E i) (\<lambda>_. owned E i)"
    by (rule hoare_weaken [OF 2(1)], simp_all add: heldD) (rule hoare_weaken [OF 2(2)], simp_all add: heldD)
  show ?thesis unfolding compensate_def assms(1)
    by (rule hoare_bind [OF 1 hoare_bind [OF 4(1) hoare_bind [OF 4(2) 3]]])
qed

text \<open>The first step of a switch: the extension is unpublished, disabled if it was serving.\<close>

lemma step_down:
  assumes "er_id r = i" "er_state r \<notin> set installable_states"
  shows "hoare (\<lambda>w. ext_inv E w \<and> dget (xw_store w) i = Some r)
    (if er_state r = ES_ENABLED then disable_extension E i deadline else areturn r) (\<lambda>x w. held E i w \<and> er_id x = i) (\<lambda>_. owned E i)"
proof (cases "er_state r = ES_ENABLED")
  case True
  have "hoare (\<lambda>w. ext_inv E w \<and> dget (xw_store w) i = Some r) (disable_extension E i deadline) (\<lambda>x w. held E i w \<and> er_id x = i) (\<lambda>_. owned E i)"
    by (rule hoare_pre [OF disable_owned_held]) (use stored_owned assms(2) in blast)
  with True show ?thesis by simp
next
  case False
  have "hoare (\<lambda>w. ext_inv E w \<and> dget (xw_store w) i = Some r) (areturn r) (\<lambda>x w. held E i w \<and> er_id x = i) (\<lambda>_. owned E i)"
    by (rule hoare_return) (use stored_held assms False in blast)
  with False show ?thesis by simp
qed

lemma held_then_owned: "keeps (held E i) m \<Longrightarrow> hoare (held E i) m (\<lambda>_. held E i) (\<lambda>_. owned E i)"
  by (erule hoare_weaken) (simp_all add: heldD)

lemma upgrade_switch_owned:
  assumes "er_id r = i" "er_state r \<notin> set installable_states" "er_id candidate = i"
  shows "hoare (\<lambda>w. ext_inv E w \<and> dget (xw_store w) i = Some r) (upgrade_switch E r candidate deadline) (\<lambda>_. owned E i) (\<lambda>_. owned E i)"
  unfolding upgrade_switch_def Let_def assms(1)
proof (rule hoare_bind [OF step_down [OF assms(1,2)]])
  fix current
  show "hoare (\<lambda>w. held E i w \<and> er_id current = i)
    (athen (save_record E (in_state current ES_UPGRADING)) (athen (port E (P_Activate (in_state current ES_UPGRADING) candidate))
      (athen (save_record E (in_state candidate ES_DISABLED)) (if er_state r = ES_ENABLED then enable_extension E i else areturn (in_state candidate ES_DISABLED)))))
    (\<lambda>_. owned E i) (\<lambda>_. owned E i)"
  proof (rule hoare_fact [where c = "er_id current = i"])
    assume "er_id current = i"
    then have 1: "hoare (held E i) (save_record E (in_state current ES_UPGRADING)) (\<lambda>_. held E i) (\<lambda>_. owned E i)"
      "hoare (held E i) (port E (P_Activate (in_state current ES_UPGRADING) candidate)) (\<lambda>_. held E i) (\<lambda>_. owned E i)"
      "hoare (held E i) (save_record E (in_state candidate ES_DISABLED)) (\<lambda>_. held E i) (\<lambda>_. owned E i)"
      using assms(3) by (auto intro!: held_then_owned ext_rules)
    have "hoare (held E i) (if er_state r = ES_ENABLED then enable_extension E i else areturn (in_state candidate ES_DISABLED)) (\<lambda>_. owned E i) (\<lambda>_. owned E i)"
      by (auto intro!: hoare_return hoare_pre [OF enable_owned] intro: heldD)
    from hoare_bind [OF 1(1) hoare_bind [OF 1(2) hoare_bind [OF 1(3) this]]] show ?thesis by (rule hoare_pre) simp
  qed simp
qed

lemma rollback_switch_owned:
  assumes "er_id r = i" "er_state r \<notin> set installable_states" "er_id restored = i"
  shows "hoare (\<lambda>w. ext_inv E w \<and> dget (xw_store w) i = Some r) (rollback_switch E r restored deadline) (\<lambda>_. owned E i) (\<lambda>_. owned E i)"
  unfolding rollback_switch_def Let_def assms(1)
proof (rule hoare_bind [OF step_down [OF assms(1,2)]])
  have 1: "hoare (held E i) (save_record E (in_state restored ES_ROLLED_BACK)) (\<lambda>_. held E i) (\<lambda>_. owned E i)"
    using assms(3) by (auto intro!: held_then_owned ext_rules)
  have "hoare (held E i) (start_and_publish E (in_state restored ES_ROLLED_BACK)) (\<lambda>_. owned E i) (\<lambda>_. owned E i)"
    by (rule hoare_weaken [OF start_and_publish_held [of _ i]]) (simp_all add: assms(3) heldD)
  then have 2: "hoare (held E i) (if er_state r = ES_ENABLED then start_and_publish E (in_state restored ES_ROLLED_BACK)
      else areturn (in_state restored ES_ROLLED_BACK)) (\<lambda>_. owned E i) (\<lambda>_. owned E i)" by (auto intro!: hoare_return intro: heldD)
  show "hoare (\<lambda>w. held E i w \<and> er_id x = i) (athen (save_record E (in_state restored ES_ROLLED_BACK))
      (if er_state r = ES_ENABLED then start_and_publish E (in_state restored ES_ROLLED_BACK) else areturn (in_state restored ES_ROLLED_BACK)))
    (\<lambda>_. owned E i) (\<lambda>_. owned E i)" for x
    by (rule hoare_pre [OF hoare_bind [OF 1 2]]) simp
qed

text \<open>A switch with its compensation.\<close>

lemma switch_inv:
  assumes "hoare P m (\<lambda>_. owned E i) (\<lambda>_. owned E i)" "\<And>e. keeps (owned E i) (h e)"
  shows "hoare P (acatch m (\<lambda>e. athen (h e) (afail e))) (\<lambda>_. ext_inv E) (\<lambda>_. ext_inv E)"
proof (rule hoare_weaken)
  show "hoare P (acatch m (\<lambda>e. athen (h e) (afail e))) (\<lambda>_. owned E i) (\<lambda>_. owned E i)"
    by (rule hoare_catch [OF assms(1)]) (auto intro!: hoare_bind [OF assms(2)] hoare_fail)
qed (simp_all add: owned_def)

lemma upgrade_inv [ext_rules]: "keeps (ext_inv E) (upgrade_extension E i candidate deadline)"
  unfolding upgrade_extension_def compensate_failed_upgrade_def
proof (rule require_stored_state [where E = E])
  fix r :: extension_record
  assume r: "er_id r = i" "er_state r \<in> set [ES_ENABLED, ES_DISABLED, ES_INSTALLED_DISABLED, ES_QUARANTINED, ES_ROLLED_BACK]"
  then have st: "er_state r \<notin> set installable_states" by (auto simp: installable_states_def)
  show "hoare (\<lambda>w. ext_inv E w \<and> dget (xw_store w) i = Some r)
    (athen (aguard (er_id candidate = i) ExtensionError ''upgrade candidate has a different extension id'')
    (athen (aguard (er_state candidate = ES_INSTALLED_DISABLED) ExtensionError ''upgrade candidate must be installed and contract-tested'')
     (acatch (upgrade_switch E r candidate deadline) (\<lambda>e. athen (compensate E r candidate ES_ROLLED_BACK (er_state r = ES_ENABLED)) (afail e)))))
    (\<lambda>_. ext_inv E) (\<lambda>_. ext_inv E)"
    by (intro hoare_guard_then switch_inv [OF upgrade_switch_owned compensate_owned]) (use r(1) st in auto)
qed simp_all

lemma ask_stored: "not_stop c \<Longrightarrow> hoare (\<lambda>w. ext_inv E w \<and> dget (xw_store w) i = Some r) (ask c f)
    (\<lambda>_ w. ext_inv E w \<and> dget (xw_store w) i = Some r) (\<lambda>_. ext_inv E)"
  by (auto simp: hoare_def ask_def not_stop_def intro: log_inv simp del: split_paired_All)

lemma rollback_inv [ext_rules]: "keeps (ext_inv E) (rollback_extension E i deadline)"
  unfolding rollback_extension_def compensate_failed_rollback_def
proof (rule require_stored_state [where E = E], simp, simp, rule hoare_bind [OF ask_stored], simp)
  fix r restored assume r: "er_id r = i" "er_state r \<in> set [ES_ENABLED, ES_DISABLED, ES_QUARANTINED]"
  then have st: "er_state r \<notin> set installable_states" by (auto simp: installable_states_def)
  show "hoare (\<lambda>w. ext_inv E w \<and> dget (xw_store w) i = Some r)
    (athen (aguard (er_id restored = i) ExtensionError ''rollback restored a different extension id'')
     (acatch (rollback_switch E r restored deadline) (\<lambda>e. athen (compensate E r restored ES_DISABLED (er_state r = ES_ENABLED)) (afail e))))
    (\<lambda>_. ext_inv E) (\<lambda>_. ext_inv E)"
    by (intro hoare_guard_then switch_inv [OF rollback_switch_owned compensate_owned]) (use r(1) st in auto)
qed

lemma uninstall_inv [ext_rules]: "keeps (ext_inv E) (uninstall_extension E i deadline)"
  unfolding uninstall_extension_def
proof (rule require_stored [where E = E])
  fix first :: extension_record assume i: "er_id first = i"
  let ?allowed = "[ES_INSTALLED_DISABLED, ES_DISABLED, ES_QUARANTINED, ES_ROLLED_BACK]"
  have rest: "hoare (held E i) (athen (in_registry (registry_disable i))
      (let uninstalling = in_state r ES_UNINSTALLING;
           removed = uninstalling\<lparr>er_state := ES_UNINSTALLED, er_install_path := None, er_data_retained := True, er_tombstone := True\<rparr> in
       athen (save_record E uninstalling) (athen (port E (P_Stop uninstalling)) (athen (port E (P_UninstallCode uninstalling))
         (athen (save_record E removed) (areturn removed)))))) (\<lambda>_. held E i) (\<lambda>_. held E i)" if r: "er_id r = i" for r
  proof -
    have "hoare (held E i) (in_registry (registry_disable i)) (\<lambda>_. held E i) (\<lambda>_. held E i)"
      by (rule hoare_weaken [OF disable_owned]) (auto intro: heldD)
    with r show ?thesis unfolding Let_def by (auto intro!: keeps_rules ext_rules)
  qed
  show "hoare (\<lambda>w. ext_inv E w \<and> dget (xw_store w) i = Some first)
    (abind (if er_state first = ES_ENABLED then disable_extension E i deadline else areturn first) (\<lambda>r.
     athen (require_state r ?allowed ''uninstall'') (athen (in_registry (registry_disable i))
      (let uninstalling = in_state r ES_UNINSTALLING;
           removed = uninstalling\<lparr>er_state := ES_UNINSTALLED, er_install_path := None, er_data_retained := True, er_tombstone := True\<rparr> in
       athen (save_record E uninstalling) (athen (port E (P_Stop uninstalling)) (athen (port E (P_UninstallCode uninstalling))
         (athen (save_record E removed) (areturn removed))))))))
    (\<lambda>_. ext_inv E) (\<lambda>_. ext_inv E)"
  proof (cases "er_state first \<in> set installable_states \<or> er_state first \<notin> set (ES_ENABLED # ?allowed)")
    case True
    then have "er_state first \<noteq> ES_ENABLED" "er_state first \<notin> set ?allowed" by (auto simp: installable_states_def)
    then show ?thesis by (auto simp: require_state_def hoare_def abind_def areturn_def araise_def raise_def simp del: split_paired_All)
  next
    case False
    then have "er_state first \<notin> set installable_states" by simp
    then have 1: "hoare (\<lambda>w. ext_inv E w \<and> dget (xw_store w) i = Some first)
        (if er_state first = ES_ENABLED then disable_extension E i deadline else areturn first) (\<lambda>x w. held E i w \<and> er_id x = i) (\<lambda>_. ext_inv E)"
      by (intro hoare_weaken [OF step_down [OF i]]) (simp_all add: owned_def)
    show ?thesis
    proof (rule hoare_bind [OF 1], rule require_state_hoare, rule hoare_fact [where c = "er_id r = i" for r], blast)
      fix r :: extension_record assume "er_id r = i"
      from to_inv [OF rest [OF this]] show "hoare (\<lambda>w. held E i w \<and> er_id r = i) (athen (in_registry (registry_disable i))
      (let uninstalling = in_state r ES_UNINSTALLING;
           removed = uninstalling\<lparr>er_state := ES_UNINSTALLED, er_install_path := None, er_data_retained := True, er_tombstone := True\<rparr> in
       athen (save_record E uninstalling) (athen (port E (P_Stop uninstalling)) (athen (port E (P_UninstallCode uninstalling))
         (athen (save_record E removed) (areturn removed)))))) (\<lambda>_. ext_inv E) (\<lambda>_. ext_inv E)" by (rule hoare_pre) simp
    qed (simp add: held_def)
  qed
qed simp_all

lemma installable_idle: "ext_inv E w \<Longrightarrow> is_installable (dget (xw_store w) i) \<Longrightarrow> idle i w"
  by (rule stored_idle) (auto simp: is_installable_def installable_states_def)

text \<open>An update of the confirmations of a purge concerns nobody else.\<close>

lemma purges_inv [simp]: "ext_inv_but X E (w\<lparr>xw_purges := p\<rparr>) = ext_inv_but X E w"
  by (simp add: ext_inv_but_def plans_ok_def)

lemma purges_idle [simp]: "idle i (w\<lparr>xw_purges := p\<rparr>) = idle i w"
  by (simp add: idle_def)

lemma prepare_purge_inv [ext_rules]: "keeps (ext_inv E) (prepare_purge E nonce i)"
  unfolding prepare_purge_def Let_def
proof (rule require_stored_state [where E = E])
  fix r :: extension_record
  show "hoare (\<lambda>w. ext_inv E w \<and> dget (xw_store w) i = Some r)
     (abind (ask (P_Namespaces i) (\<lambda>l. xe_namespaces E l i)) (\<lambda>namespaces.
      abind (alift (hash_payload (xe_lib E) (VDict [(''extension_id'', VStr i), (''namespaces'', VTuple (map VStr namespaces)),
              (''nonce'', VStr nonce), (''warning'', VStr (xe_purge_warning E))]))) (\<lambda>h.
      athen (aput (\<lambda>w. w\<lparr>xw_purges := dset i \<lparr>pp_extension_id = i, pp_confirmation_nonce = nonce, pp_preview_hash = h, pp_data_namespaces = namespaces,
               pp_warning = xe_purge_warning E\<rparr> (xw_purges w)\<rparr>))
        (areturn \<lparr>pp_extension_id = i, pp_confirmation_nonce = nonce, pp_preview_hash = h, pp_data_namespaces = namespaces,
               pp_warning = xe_purge_warning E\<rparr>)))) (\<lambda>_. ext_inv E) (\<lambda>_. ext_inv E)"
    by (rule hoare_pre [where P = "ext_inv E"]) (auto intro!: keeps_rules ask_inv hoare_put)
qed simp_all

lemma purge_inv [ext_rules]: "keeps (ext_inv E) (purge_extension E c)"
  unfolding purge_extension_def
proof (rule keeps_bind, rule hoare_get, assumption, rule hoare_option, rule hoare_raise, assumption, rule hoare_guard_then)
  fix pv :: purge_preview
  show "keeps (ext_inv E) (abind (require_record (pc_extension_id c)) (\<lambda>r.
      athen (require_state r [ES_UNINSTALLED] ''purge'') (athen (aput (\<lambda>w. w\<lparr>xw_purges := dpop (pc_extension_id c) (xw_purges w)\<rparr>))
       (athen (port E (P_PurgeData (pc_extension_id c))) (athen (save_record E (r\<lparr>er_data_retained := False\<rparr>))
         (areturn (r\<lparr>er_data_retained := False\<rparr>)))))))"
  proof (rule require_stored_state [where E = E])
    fix r :: extension_record assume r: "er_id r = pc_extension_id c" "er_state r \<in> set [ES_UNINSTALLED]"
    let ?P = "\<lambda>w. ext_inv E w \<and> idle (er_id r) w"
    have 1: "keeps ?P (port E (P_PurgeData (pc_extension_id c)))"
      unfolding port_def by (rule ask_hoare) (auto intro: log_inv)
    have 2: "hoare ?P (save_record E (r\<lparr>er_data_retained := False\<rparr>)) (\<lambda>_. ext_inv E) (\<lambda>_. ext_inv E)"
      using save_installable [of "r\<lparr>er_data_retained := False\<rparr>" E] r(2) by (simp add: installable_states_def)
    show "hoare (\<lambda>w. ext_inv E w \<and> dget (xw_store w) (pc_extension_id c) = Some r)
      (athen (aput (\<lambda>w. w\<lparr>xw_purges := dpop (pc_extension_id c) (xw_purges w)\<rparr>)) (athen (port E (P_PurgeData (pc_extension_id c)))
        (athen (save_record E (r\<lparr>er_data_retained := False\<rparr>)) (areturn (r\<lparr>er_data_retained := False\<rparr>))))) (\<lambda>_. ext_inv E) (\<lambda>_. ext_inv E)"
    proof (rule hoare_put_then [where P' = ?P])
      show "hoare ?P (athen (port E (P_PurgeData (pc_extension_id c))) (athen (save_record E (r\<lparr>er_data_retained := False\<rparr>))
         (areturn (r\<lparr>er_data_retained := False\<rparr>)))) (\<lambda>_. ext_inv E) (\<lambda>_. ext_inv E)"
        by (rule hoare_bind [OF hoare_weaken [OF 1] hoare_bind [OF 2 hoare_return]]) auto
    qed (use r in \<open>auto intro: stored_idle\<close>)
  qed simp_all
qed simp_all

text \<open>
  Restarting an enabled extension assumes that it is not published, which is so after a restart of
  the host: otherwise a failing worker would be stopped while its capabilities stay published.
\<close>

lemma recover_extension_inv:
  "hoare (\<lambda>w. ext_inv E w \<and> idle i w) (recover_extension E i) (\<lambda>_. ext_inv E) (\<lambda>_. ext_inv E)"
  unfolding recover_extension_def
proof (rule require_stored_state [where E = E])
  fix r :: extension_record assume r: "er_id r = i" "er_state r \<in> set [ES_ENABLED]"
  show "hoare (\<lambda>w. (ext_inv E w \<and> idle i w) \<and> dget (xw_store w) i = Some r) (start_and_publish E r) (\<lambda>_. ext_inv E) (\<lambda>_. ext_inv E)"
  proof (rule hoare_weaken [OF start_and_publish_held [OF r(1)]])
    show "held E i w" if "(ext_inv E w \<and> idle i w) \<and> dget (xw_store w) i = Some r" for w
      using stored_owned [of E w i r] that r(2) by (auto simp: installable_states_def held_def owned_def)
  qed (simp_all add: owned_def held_def)
qed simp_all

subsection \<open>Operations of the coordinator\<close>

lemma discard_staged_keeps:
  assumes "keeps P (port E (P_Discard st))"
  shows "keeps P (discard_staged E st)"
  unfolding discard_staged_def using assms by (rule keeps_suppress)

lemma plan_mode_install: "plan_mode mode existing m = Inr (md, rep) \<Longrightarrow> md \<noteq> ''upgrade'' \<Longrightarrow> is_installable existing"
  by (auto simp: plan_mode_def rbind_eq_Inr split: if_splits)

lemma make_install_preview_Inr:
  "make_install_preview E staged m t md rep tok nonce = Inr pv \<Longrightarrow> ip_mode pv = md \<and> ip_plan_id pv = ''install_'' @ tok \<and>
     ip_artifact_hash pv = sa_artifact_hash staged \<and> ip_extension_id pv = mf_id m \<and> ip_expires_at pv = t \<and> ip_confirmation_nonce pv = nonce"
  by (auto simp: make_install_preview_def Let_def rbind_eq_Inr)

lemma lookup_then: "(\<And>x. hoare (\<lambda>w. P w \<and> dget (xw_store w) i = x) (f x) Q R) \<Longrightarrow> hoare P (abind (lookup_record i) f) Q R"
  unfolding lookup_record_def by (rule hoare_get_then) blast

definition installable_plan :: "ext_env \<Rightarrow> manifest \<Rightarrow> installation_preview \<Rightarrow> 'a ext_world_scheme \<Rightarrow> bool" where
  "installable_plan E m pv w \<longleftrightarrow> ext_inv E w \<and> (ip_mode pv \<noteq> ''upgrade'' \<longrightarrow> is_installable (dget (xw_store w) (mf_id m)))"

lemma inspect_staged_hoare:
  "hoare (ext_inv E) (inspect_staged E mode tok nonce now staged) (\<lambda>(m, pv). installable_plan E m pv) (\<lambda>_. ext_inv E)"
  unfolding inspect_staged_def
proof (rule keeps_bind [OF ask_inv lookup_then], simp, rule hoare_lift_then, rule hoare_prod, rule hoare_lift_then, rule hoare_return)
  fix m x y md rep pv w
  assume "plan_mode mode x m = Inr y" "y = (md, rep)" "make_install_preview E staged m (now + xe_ttl E) md rep tok nonce = Inr pv"
    "ext_inv E w \<and> dget (xw_store w) (mf_id m) = x"
  with plan_mode_install [of mode x m md rep] make_install_preview_Inr [of E staged m "now + xe_ttl E" md rep tok nonce pv]
  show "(case (m, pv) of (m, pv) \<Rightarrow> installable_plan E m pv) w" by (auto simp: installable_plan_def)
qed auto

definition stale_in :: "ext_env \<Rightarrow> manifest \<Rightarrow> installation_preview \<Rightarrow> string set \<Rightarrow> 'a ext_world_scheme \<Rightarrow> bool" where
  "stale_in E m pv S w \<longleftrightarrow> installable_plan E m pv w \<and>
     (\<forall>k p. dget (xw_pending w) k = Some p \<longrightarrow> mf_id (pi_manifest p) = mf_id m \<longrightarrow> k \<in> S)"

lemma dget_dpop: "dget (dpop k d) j = (if j = k then None else dget d j)"
  by (simp add: delete_conv')

lemma pop_plan_inv: "ext_inv_but X E w \<Longrightarrow> ext_inv_but X E (w\<lparr>xw_pending := dpop k (xw_pending w)\<rparr>)"
  unfolding ext_inv_but_def plans_ok_def by (auto simp: dget_dpop split: if_splits)

lemma drop_plan_step:
  "hoare (stale_in E m pv S) (drop_plan E k) (\<lambda>_. stale_in E m pv (S - {k})) (\<lambda>_. ext_inv E)"
  unfolding drop_plan_def
proof (rule hoare_get_then, rule hoare_put_then)
  fix plan :: "pending_install option"
  have 1: "keeps (stale_in E m pv T) (port E c)" if "not_stop c" for T c
    unfolding port_def
  proof (rule ask_hoare)
    fix w assume "stale_in E m pv T w"
    then show "stale_in E m pv T (w\<lparr>xw_log := xw_log w @ [c]\<rparr>)"
      using that log_inv [of "{}" E w c] by (auto simp: stale_in_def installable_plan_def not_stop_def)
  qed
  have "keeps (stale_in E m pv (S - {k})) (case plan of None \<Rightarrow> areturn () | Some p \<Rightarrow> if pi_consumed p then areturn () else discard_staged E (pi_staged p))"
    by (auto intro!: keeps_rules discard_staged_keeps 1)
  then show "hoare (stale_in E m pv (S - {k})) (case plan of None \<Rightarrow> areturn () | Some p \<Rightarrow> if pi_consumed p then areturn () else discard_staged E (pi_staged p))
    (\<lambda>_. stale_in E m pv (S - {k})) (\<lambda>_. ext_inv E)" by (rule hoare_weaken) (auto simp: stale_in_def installable_plan_def)
  fix w assume "stale_in E m pv S w \<and> dget (xw_pending w) k = plan"
  then show "stale_in E m pv (S - {k}) (w\<lparr>xw_pending := dpop k (xw_pending w)\<rparr>)"
    using pop_plan_inv [of "{}" E w k] by (auto simp: stale_in_def installable_plan_def dget_dpop split: if_splits)
qed

lemma drop_plans: "hoare (stale_in E m pv (set ks)) (amap (drop_plan E) ks) (\<lambda>_. stale_in E m pv {}) (\<lambda>_. ext_inv E)"
proof (induction ks)
  case (Cons k ks)
  have "hoare (stale_in E m pv (set (k # ks))) (drop_plan E k) (\<lambda>_. stale_in E m pv (set ks)) (\<lambda>_. ext_inv E)"
    by (rule hoare_weaken [OF drop_plan_step [where S = "set (k # ks)"]]) (auto simp: stale_in_def)
  from hoare_bind [OF this hoare_bind [OF Cons.IH hoare_return]] show ?case by simp
qed (simp add: hoare_return)

lemma drop_pending_hoare: "hoare (installable_plan E m pv) (drop_pending E (mf_id m)) (\<lambda>_. stale_in E m pv {}) (\<lambda>_. ext_inv E)"
  unfolding drop_pending_def
proof (rule hoare_get_then)
  fix stale
  have "hoare (\<lambda>w. installable_plan E m pv w \<and> stale_plans (mf_id m) (xw_pending w) = stale) (amap (drop_plan E) stale)
      (\<lambda>_. stale_in E m pv {}) (\<lambda>_. ext_inv E)"
  proof (rule hoare_pre [OF drop_plans])
    fix w assume w: "installable_plan E m pv w \<and> stale_plans (mf_id m) (xw_pending w) = stale"
    have "k \<in> set stale" if "dget (xw_pending w) k = Some p" "mf_id (pi_manifest p) = mf_id m" for k p
      using w map_of_SomeD [OF that(1)] that(2) by (force simp: stale_plans_def)
    with w show "stale_in E m pv (set stale) w" by (auto simp: stale_in_def)
  qed
  then show "hoare (\<lambda>w. installable_plan E m pv w \<and> stale_plans (mf_id m) (xw_pending w) = stale)
    (athen (amap (drop_plan E) stale) (areturn ())) (\<lambda>_. stale_in E m pv {}) (\<lambda>_. ext_inv E)" by (rule hoare_bind) (simp add: hoare_return)
qed

lemma add_plan:
  assumes "stale_in E m pv {} w"
  shows "installable_plan E m pv (w\<lparr>xw_pending := dset (ip_plan_id pv) \<lparr>pi_staged = st, pi_manifest = m, pi_preview = pv, pi_consumed = c\<rparr> (xw_pending w)\<rparr>)"
proof -
  let ?p = "\<lparr>pi_staged = st, pi_manifest = m, pi_preview = pv, pi_consumed = c\<rparr>"
  let ?w = "w\<lparr>xw_pending := dset (ip_plan_id pv) ?p (xw_pending w)\<rparr>"
  have none: "mf_id (pi_manifest p) \<noteq> mf_id m" if "dget (xw_pending w) k = Some p" for k p using assms that by (auto simp: stale_in_def)
  have inst: "ext_inv E w" "ip_mode pv \<noteq> ''upgrade'' \<Longrightarrow> is_installable (dget (xw_store w) (mf_id m))"
    using assms by (auto simp: stale_in_def installable_plan_def)
  then have pl: "plans_ok w" unfolding ext_inv_but_def by blast
  have "plans_ok ?w"
    unfolding plans_ok_def
  proof (intro conjI allI impI)
    fix k p assume "dget (xw_pending ?w) k = Some p"
    then show "ip_plan_id (pi_preview p) = k" using pl unfolding plans_ok_def by (auto split: if_splits)
  next
    fix k p assume "dget (xw_pending ?w) k = Some p" "open_install p"
    then show "is_installable (dget (xw_store ?w) (mf_id (pi_manifest p)))"
      using pl inst(2) unfolding plans_ok_def by (auto simp: open_install_def split: if_splits)
  next
    fix k p k' p' assume "dget (xw_pending ?w) k = Some p" "dget (xw_pending ?w) k' = Some p'" "open_install p" "open_install p'"
      "mf_id (pi_manifest p) = mf_id (pi_manifest p')"
    moreover have "dget (xw_pending w) k = Some p \<Longrightarrow> dget (xw_pending w) k' = Some p' \<Longrightarrow> open_install p \<Longrightarrow> open_install p' \<Longrightarrow>
      mf_id (pi_manifest p) = mf_id (pi_manifest p') \<Longrightarrow> k = k'" using pl unfolding plans_ok_def by blast
    ultimately show "k = k'" using none [of k p] none [of k' p'] by (auto split: if_splits)
  qed
  with inst show ?thesis unfolding installable_plan_def ext_inv_but_def by simp
qed

lemma prepare_plan_inv [ext_rules]: "keeps (ext_inv E) (prepare_plan E mode tok nonce now source)"
  unfolding prepare_plan_def
proof (rule keeps_bind [OF ask_inv keeps_bind [OF ask_inv hoare_if]])
  fix staged :: staged_artifact
  show "keeps (ext_inv E) (athen (port E (P_Discard staged)) (araise ExtensionError ''staged artifact hash does not match its content''))"
    by (auto intro!: keeps_rules port_inv)
  have 1: "hoare (ext_inv E) (acatch (inspect_staged E mode tok nonce now staged)
      (\<lambda>e. if is_exception (fst e) then athen (port E (P_Discard staged)) (afail e) else afail e)) (\<lambda>(m, pv). installable_plan E m pv) (\<lambda>_. ext_inv E)"
    by (rule hoare_catch [OF inspect_staged_hoare])
       (auto intro!: hoare_if hoare_fail hoare_bind [OF port_inv [where X = "{}" and E = E]])
  show "keeps (ext_inv E) (abind (acatch (inspect_staged E mode tok nonce now staged)
      (\<lambda>e. if is_exception (fst e) then athen (port E (P_Discard staged)) (afail e) else afail e)) (\<lambda>(m, pv).
       athen (drop_pending E (mf_id m))
      (athen (aput (\<lambda>w. w\<lparr>xw_pending := dset (ip_plan_id pv)
                \<lparr>pi_staged = staged, pi_manifest = m, pi_preview = pv, pi_consumed = False\<rparr> (xw_pending w)\<rparr>))
      (athen (if ip_mode pv = ''install'' then save_record E (new_extension_record m (sa_artifact_hash staged) ES_STAGED None) else areturn ())
       (areturn pv)))))"
  proof (rule hoare_bind [OF 1], rule hoare_prod)
    fix x :: "manifest \<times> installation_preview" and m pv assume x: "x = (m, pv)"
    have "hoare (installable_plan E m pv) (if ip_mode pv = ''install'' then save_record E (new_extension_record m (sa_artifact_hash staged) ES_STAGED None) else areturn ())
      (\<lambda>_. ext_inv E) (\<lambda>_. ext_inv E)"
    proof (rule hoare_if)
      assume md: "ip_mode pv = ''install''"
      let ?r = "new_extension_record m (sa_artifact_hash staged) ES_STAGED None"
      have "hoare (\<lambda>w. ext_inv E w \<and> idle (er_id ?r) w) (save_record E ?r) (\<lambda>_. ext_inv E) (\<lambda>_. ext_inv E)"
        by (rule save_installable) (simp add: new_extension_record_def installable_states_def)
      then show "hoare (installable_plan E m pv) (save_record E ?r) (\<lambda>_. ext_inv E) (\<lambda>_. ext_inv E)"
        by (rule hoare_pre) (use md installable_idle in \<open>auto simp: installable_plan_def new_extension_record_def\<close>)
    qed (auto intro!: hoare_return simp: installable_plan_def)
    from hoare_bind [OF this hoare_return]
    show "hoare ((case x of (m, pv) \<Rightarrow> installable_plan E m pv)) (athen (drop_pending E (mf_id m))
      (athen (aput (\<lambda>w. w\<lparr>xw_pending := dset (ip_plan_id pv)
                \<lparr>pi_staged = staged, pi_manifest = m, pi_preview = pv, pi_consumed = False\<rparr> (xw_pending w)\<rparr>))
      (athen (if ip_mode pv = ''install'' then save_record E (new_extension_record m (sa_artifact_hash staged) ES_STAGED None) else areturn ())
       (areturn pv)))) (\<lambda>_. ext_inv E) (\<lambda>_. ext_inv E)"
      unfolding x prod.case by (intro hoare_bind [OF drop_pending_hoare] hoare_put_then [where P' = "installable_plan E m pv"]) (auto intro: add_plan)
  qed
qed simp_all

lemma plan_installable:
  "ext_inv E w \<Longrightarrow> dget (xw_pending w) k = Some p \<Longrightarrow> open_install p \<Longrightarrow> is_installable (dget (xw_store w) (mf_id (pi_manifest p)))"
  unfolding ext_inv_but_def plans_ok_def by blast

lemma port_inv_idle: "not_stop c \<Longrightarrow> keeps (\<lambda>w. ext_inv E w \<and> idle i w) (port E c)"
  unfolding port_def by (rule ask_hoare) (auto intro: log_inv simp: not_stop_def)

lemma reject_save:
  "hoare (\<lambda>w. ext_inv E w \<and> idle (mf_id (pi_manifest p)) w)
     (let r = new_extension_record (pi_manifest p) (sa_artifact_hash (pi_staged p)) ES_REJECTED None in athen (save_record E r) (areturn r))
     (\<lambda>_. ext_inv E) (\<lambda>_. ext_inv E)"
proof -
  let ?r = "new_extension_record (pi_manifest p) (sa_artifact_hash (pi_staged p)) ES_REJECTED None"
  have "hoare (\<lambda>w. ext_inv E w \<and> idle (er_id ?r) w) (save_record E ?r) (\<lambda>_. ext_inv E) (\<lambda>_. ext_inv E)"
    by (rule save_installable) (simp add: new_extension_record_def installable_states_def)
  then show ?thesis unfolding Let_def by (intro hoare_bind hoare_return) (simp_all add: new_extension_record_def)
qed

lemma reject_plan_inv [ext_rules]:
  "keeps (ext_inv E) (reject_plan E k)"
  unfolding reject_plan_def
proof (rule hoare_get_then, rule hoare_put_then)
  fix plan :: "pending_install option"
  let ?idle = "\<lambda>w. case plan of Some p \<Rightarrow> \<not> pi_consumed p \<longrightarrow> ip_mode (pi_preview p) \<noteq> ''upgrade'' \<longrightarrow> idle (mf_id (pi_manifest p)) w | None \<Rightarrow> True"
  show "hoare (\<lambda>w. ext_inv E w \<and> ?idle w)
     (case plan of
          None \<Rightarrow> araise (ExtensionOperationError ''PLAN_NOT_FOUND'') ''installation plan is missing or already consumed''
        | Some p \<Rightarrow>
            if pi_consumed p
            then araise (ExtensionOperationError ''PLAN_NOT_FOUND'') ''installation plan is missing or already consumed''
            else athen (port E (P_Discard (pi_staged p)))
              (if ip_mode (pi_preview p) = ''upgrade''
               then abind (lookup_record (mf_id (pi_manifest p))) (\<lambda>current.
                      case current of
                        None \<Rightarrow> araise ExtensionError (''extension is no longer installed: '' @ mf_id (pi_manifest p))
                      | Some r \<Rightarrow> areturn r)
               else let r = new_extension_record (pi_manifest p) (sa_artifact_hash (pi_staged p)) ES_REJECTED None in
                    athen (save_record E r) (areturn r))) (\<lambda>_. ext_inv E) (\<lambda>_. ext_inv E)"
  proof (rule hoare_option)
    fix p assume plan: "plan = Some p"
    have up: "keeps (ext_inv E) (abind (lookup_record (mf_id (pi_manifest p))) (\<lambda>current. case current of
        None \<Rightarrow> araise ExtensionError (''extension is no longer installed: '' @ mf_id (pi_manifest p)) | Some r \<Rightarrow> areturn r))"
      unfolding lookup_record_def by (auto intro!: keeps_rules)
    have 1: "hoare (ext_inv E) (port E (P_Discard (pi_staged p))) (\<lambda>_. ext_inv E) (\<lambda>_. ext_inv E)" by (rule port_inv) simp
    have 2: "hoare (\<lambda>w. ext_inv E w \<and> idle (mf_id (pi_manifest p)) w) (port E (P_Discard (pi_staged p)))
      (\<lambda>_ w. ext_inv E w \<and> idle (mf_id (pi_manifest p)) w) (\<lambda>_. ext_inv E)" by (rule hoare_weaken [OF port_inv_idle [where E = E and i = "mf_id (pi_manifest p)"]]) simp_all
    show "hoare (\<lambda>w. ext_inv E w \<and> ?idle w)
            (if pi_consumed p
            then araise (ExtensionOperationError ''PLAN_NOT_FOUND'') ''installation plan is missing or already consumed''
            else athen (port E (P_Discard (pi_staged p)))
              (if ip_mode (pi_preview p) = ''upgrade''
               then abind (lookup_record (mf_id (pi_manifest p))) (\<lambda>current.
                      case current of
                        None \<Rightarrow> araise ExtensionError (''extension is no longer installed: '' @ mf_id (pi_manifest p))
                      | Some r \<Rightarrow> areturn r)
               else let r = new_extension_record (pi_manifest p) (sa_artifact_hash (pi_staged p)) ES_REJECTED None in
                    athen (save_record E r) (areturn r))) (\<lambda>_. ext_inv E) (\<lambda>_. ext_inv E)"
    proof (rule hoare_if)
      assume c: "\<not> pi_consumed p"
      show "hoare (\<lambda>w. ext_inv E w \<and> ?idle w) (athen (port E (P_Discard (pi_staged p)))
              (if ip_mode (pi_preview p) = ''upgrade''
               then abind (lookup_record (mf_id (pi_manifest p))) (\<lambda>current.
                      case current of
                        None \<Rightarrow> araise ExtensionError (''extension is no longer installed: '' @ mf_id (pi_manifest p))
                      | Some r \<Rightarrow> areturn r)
               else let r = new_extension_record (pi_manifest p) (sa_artifact_hash (pi_staged p)) ES_REJECTED None in
                    athen (save_record E r) (areturn r))) (\<lambda>_. ext_inv E) (\<lambda>_. ext_inv E)"
      proof (cases "ip_mode (pi_preview p) = ''upgrade''")
        case True
        show ?thesis unfolding if_P [OF True] by (rule hoare_pre [OF hoare_bind [OF 1 up]]) simp
      next
        case False
        show ?thesis unfolding if_not_P [OF False] by (rule hoare_pre [OF hoare_bind [OF 2 reject_save]]) (use plan c False in auto)
      qed
    qed (auto intro!: hoare_raise)
  qed (auto intro!: hoare_raise)
  fix w assume w: "ext_inv E w \<and> dget (xw_pending w) k = plan"
  have "idle (mf_id (pi_manifest p)) w" if "plan = Some p" "\<not> pi_consumed p" "ip_mode (pi_preview p) \<noteq> ''upgrade''" for p
    using w that plan_installable [of E w k p] installable_idle by (auto simp: open_install_def)
  with w pop_plan_inv [of "{}" E w k] show "ext_inv E (w\<lparr>xw_pending := dpop k (xw_pending w)\<rparr>) \<and> ?idle (w\<lparr>xw_pending := dpop k (xw_pending w)\<rparr>)"
    by (auto split: option.splits)
qed

lemma run_install_keeps:
  assumes ports: "\<And>c. not_stop c \<Longrightarrow> keeps P (port E c)"
    and asks: "\<And>c (f :: port_log \<Rightarrow> installed_artifact result). not_stop c \<Longrightarrow> keeps P (ask c f)"
    and saves: "\<And>r. persist \<Longrightarrow> er_id r = mf_id (pi_manifest p) \<Longrightarrow> er_state r \<in> {ES_REJECTED, ES_INSTALLED_DISABLED} \<Longrightarrow> keeps P (save_record E r)"
  shows "keeps P (run_install E p md persist)"
proof -
  have discard: "keeps P (discard_staged E st)" for st by (rule discard_staged_keeps [OF ports]) simp
  have abort: "keeps P (abort_install E p i persist)" for i
    unfolding abort_install_def
    by (auto intro!: keeps_rules ports discard saves simp: new_extension_record_def split: option.splits)
  show ?thesis unfolding run_install_def
    by (auto intro!: keeps_rules ports asks abort discard saves simp: installed_record_def new_extension_record_def)
qed

text \<open>The plan an execution works on is pending in every state until it is consumed.\<close>

definition pending_plan :: "ext_env \<Rightarrow> string \<Rightarrow> pending_install \<Rightarrow> 'a ext_world_scheme \<Rightarrow> bool" where
  "pending_plan E k p w \<longleftrightarrow> ext_inv E w \<and> dget (xw_pending w) k = Some p"

lemma ask_pending: "not_stop c \<Longrightarrow> keeps (pending_plan E k p) (ask c f)"
  by (rule ask_hoare) (auto intro: log_inv simp: not_stop_def pending_plan_def)

lemma discard_then_raise: "hoare (ext_inv E) (athen (discard_staged E st) (araise c t)) Q (\<lambda>_. ext_inv E)"
  by (rule hoare_bind [OF discard_staged_keeps [OF port_inv] hoare_raise]) simp_all

lemma verify_staged_hoare:
  "hoare (pending_plan E k p) (verify_staged_unchanged E k p) (\<lambda>_. pending_plan E k p) (\<lambda>_. ext_inv E)"
  unfolding verify_staged_unchanged_def
proof (rule hoare_bind [where M = "\<lambda>_. pending_plan E k p"])
  show "hoare (pending_plan E k p) (ask (P_Hash (sa_root (pi_staged p)))
       (\<lambda>l. compute_artifact_hash (xe_sha256 E) (xe_tree E l (sa_root (pi_staged p))))) (\<lambda>_. pending_plan E k p) (\<lambda>_. ext_inv E)"
    by (rule hoare_weaken [OF ask_pending [where E = E and k = k and p = p]]) (simp_all add: pending_plan_def)
  fix current
  show "hoare (pending_plan E k p)
    (if current \<noteq> ip_artifact_hash (pi_preview p)
     then athen (aput (\<lambda>w. w\<lparr>xw_pending := dpop (ip_plan_id (pi_preview p)) (xw_pending w)\<rparr>))
         (athen (discard_staged E (pi_staged p))
           (araise ConfirmationRequiredError ''staged artifact changed after preview; confirm the new content explicitly''))
     else areturn ()) (\<lambda>_. pending_plan E k p) (\<lambda>_. ext_inv E)"
    by (auto intro!: hoare_if hoare_return hoare_put_then [OF discard_then_raise] pop_plan_inv simp: pending_plan_def)
qed

lemma verify_baseline_keeps: "keeps P (verify_upgrade_baseline p)"
  unfolding verify_upgrade_baseline_def lookup_record_def Let_def by (auto intro!: keeps_rules)

lemma baseline_hoare:
  "hoare (pending_plan E k p) (if md = ''upgrade'' then verify_upgrade_baseline p else areturn ())
    (\<lambda>_. pending_plan E k p) (\<lambda>_. ext_inv E)"
    by (rule hoare_weaken [where P = "pending_plan E k p" and Q = "\<lambda>_. pending_plan E k p" and R = "\<lambda>_. pending_plan E k p"])
      (auto intro!: hoare_if hoare_return verify_baseline_keeps simp: pending_plan_def)

lemma consume_inv:
  assumes "pending_plan E k p w"
  shows "ext_inv E (w\<lparr>xw_pending := dset k (p\<lparr>pi_consumed := True\<rparr>) (xw_pending w)\<rparr>)"
proof -
  let ?w = "w\<lparr>xw_pending := dset k (p\<lparr>pi_consumed := True\<rparr>) (xw_pending w)\<rparr>"
  from assms have inv: "ext_inv E w" and k: "dget (xw_pending w) k = Some p" by (auto simp: pending_plan_def)
  from inv have pl: "plans_ok w" unfolding ext_inv_but_def by blast
  have "plans_ok ?w"
    unfolding plans_ok_def
  proof (intro conjI allI impI)
    fix j q assume "dget (xw_pending ?w) j = Some q"
    then show "ip_plan_id (pi_preview q) = j" using pl k unfolding plans_ok_def by (auto split: if_splits)
  next
    fix j q assume "dget (xw_pending ?w) j = Some q" "open_install q"
    then show "is_installable (dget (xw_store ?w) (mf_id (pi_manifest q)))"
      using pl unfolding plans_ok_def by (auto simp: open_install_def split: if_splits)
  next
    fix j q j' q' assume q: "dget (xw_pending ?w) j = Some q" "dget (xw_pending ?w) j' = Some q'" "open_install q" "open_install q'"
      "mf_id (pi_manifest q) = mf_id (pi_manifest q')"
    then have "dget (xw_pending w) j = Some q" "dget (xw_pending w) j' = Some q'" by (auto simp: open_install_def split: if_splits)
    then show "j = j'" using pl q unfolding plans_ok_def by blast
  qed
  with inv show ?thesis unfolding ext_inv_but_def by simp
qed

lemma consume_held:
  assumes "pending_plan E k p w" "open_install p"
  shows "held E (mf_id (pi_manifest p)) (w\<lparr>xw_pending := dset k (p\<lparr>pi_consumed := True\<rparr>) (xw_pending w)\<rparr>)"
proof -
  from assms have inv: "ext_inv E w" and k: "dget (xw_pending w) k = Some p" by (auto simp: pending_plan_def)
  then have "idle (mf_id (pi_manifest p)) w" using plan_installable installable_idle assms(2) by blast
  moreover from inv have "plans_ok w" unfolding ext_inv_but_def by blast
  then have "j = k" if "dget (xw_pending w) j = Some q" "open_install q" "mf_id (pi_manifest q) = mf_id (pi_manifest p)" for j q
    using that k assms(2) unfolding plans_ok_def by blast
  ultimately show ?thesis using consume_inv [OF assms(1)]
    by (auto simp: held_def no_plan_def idle_def open_install_def split: if_splits)
qed

lemma execute_install_hoare:
  assumes run: "\<And>p. ip_mode (pi_preview p) = md \<Longrightarrow> \<not> pi_consumed p \<Longrightarrow>
      hoare (\<lambda>w. \<exists>v. pending_plan E k p v \<and> w = v\<lparr>xw_pending := dset k (p\<lparr>pi_consumed := True\<rparr>) (xw_pending v)\<rparr>)
        (run_install E p md persist :: ('a ext_world_scheme, extension_record) act) (\<lambda>_. ext_inv E) (\<lambda>_. ext_inv E)"
  shows "keeps (ext_inv E) (execute_install E k c md persist now :: ('a ext_world_scheme, extension_record) act)"
  unfolding execute_install_def
proof (rule hoare_get_then, rule hoare_option)
  fix plan and p :: pending_install assume plan: "plan = Some p"
  show "hoare (\<lambda>w. ext_inv E w \<and> dget (xw_pending w) k = plan)
      (athen (aguard (\<not> pi_consumed p) ConfirmationRequiredError ''installation plan is missing or already consumed'')
          (athen (aguard (ip_mode (pi_preview p) = md) (ExtensionOperationError ''PLAN_MODE_MISMATCH'')
                    (''plan mode is '' @ py_repr (ip_mode (pi_preview p)) @ '', expected '' @ py_repr md))
          (athen (alift (validate_confirmation (pi_preview p) c now))
          (athen (verify_staged_unchanged E k p)
          (athen (if md = ''upgrade'' then verify_upgrade_baseline p else areturn ())
          (athen (aput (\<lambda>w. w\<lparr>xw_pending := dset k (p\<lparr>pi_consumed := True\<rparr>) (xw_pending w)\<rparr>))
            (run_install E p md persist))))))) (\<lambda>_ w :: 'a ext_world_scheme. ext_inv E w) (\<lambda>_. ext_inv E)"
  proof (intro hoare_guard_then hoare_lift_then)
    assume "\<not> pi_consumed p" "ip_mode (pi_preview p) = md"
    note r = run [OF this(2, 1)]
    show "hoare (\<lambda>w. ext_inv E w \<and> dget (xw_pending w) k = plan) (athen (verify_staged_unchanged E k p)
          (athen (if md = ''upgrade'' then verify_upgrade_baseline p else areturn ())
          (athen (aput (\<lambda>w. w\<lparr>xw_pending := dset k (p\<lparr>pi_consumed := True\<rparr>) (xw_pending w)\<rparr>))
            (run_install E p md persist)))) (\<lambda>_ w :: 'a ext_world_scheme. ext_inv E w) (\<lambda>_. ext_inv E)"
      by (rule hoare_pre [OF hoare_bind [OF verify_staged_hoare hoare_bind [OF baseline_hoare hoare_put_then [OF r]]]]) (auto simp: plan pending_plan_def)
  qed simp_all
qed (auto intro!: hoare_raise)

lemma install_plan_inv [ext_rules]: "keeps (ext_inv E) (install_plan E k c now)"
  unfolding install_plan_def
proof (rule execute_install_hoare)
  fix p :: pending_install assume p: "ip_mode (pi_preview p) = ''install''" "\<not> pi_consumed p"
  have "keeps (held E (mf_id (pi_manifest p))) (run_install E p ''install'' True)"
    by (rule run_install_keeps) (auto intro: port_held ask_held save_held)
  then show "hoare (\<lambda>w. \<exists>v. pending_plan E k p v \<and> w = v\<lparr>xw_pending := dset k (p\<lparr>pi_consumed := True\<rparr>) (xw_pending v)\<rparr>)
        (run_install E p ''install'' True) (\<lambda>_. ext_inv E) (\<lambda>_. ext_inv E)"
    by (rule hoare_weaken) (use p in \<open>auto intro: consume_held heldD(2) simp: open_install_def\<close>)
qed

lemma install_candidate_inv [ext_rules]: "keeps (ext_inv E) (install_candidate E k c now)"
  unfolding install_candidate_def
proof (rule execute_install_hoare)
  fix p :: pending_install
  have "keeps (ext_inv E) (run_install E p ''upgrade'' False)"
    by (rule run_install_keeps) (auto intro: port_inv ask_inv)
  then show "hoare (\<lambda>w. \<exists>v. pending_plan E k p v \<and> w = v\<lparr>xw_pending := dset k (p\<lparr>pi_consumed := True\<rparr>) (xw_pending v)\<rparr>)
        (run_install E p ''upgrade'' False) (\<lambda>_. ext_inv E) (\<lambda>_. ext_inv E)"
    by (rule hoare_weaken) (auto intro: consume_inv)
qed

end
