(* ===== verification/PA_Lifecycle_Runs.thy ===== *)
theory PA_Lifecycle_Runs
  imports PA_Lifecycle PA_Canonical "HOL-Library.Multiset"
begin

text \<open>
  Sequences of operations of the extension host: every operation of the install coordinator and of
  the lifecycle manager as a value of \<open>ext_op\<close>, applied by \<open>ext_step\<close> to the state of the host, and
  what holds after any sequence of them, whatever the ports answered and whichever of them failed.
\<close>

datatype ext_op =
    XPrepare "string option" string string time string
  | XReject string
  | XInstall string "installation_confirmation option" time
  | XInstallCandidate string "installation_confirmation option" time
  | XDiscardCandidate extension_record
  | XDiscardStaged extension_record
  | XEnable string
  | XDisable string time
  | XUninstall string time
  | XPreparePurge string string
  | XPurge purge_confirmation
  | XUpgrade string extension_record time
  | XRollback string time

fun ext_step :: "ext_env \<Rightarrow> ext_op \<Rightarrow> ('a ext_world_scheme, unit) act" where
  "ext_step E (XPrepare mode tok nonce now source) = athen (prepare_plan E mode tok nonce now source) (areturn ())"
| "ext_step E (XReject k) = athen (reject_plan E k) (areturn ())"
| "ext_step E (XInstall k c now) = athen (install_plan E k c now) (areturn ())"
| "ext_step E (XInstallCandidate k c now) = athen (install_candidate E k c now) (areturn ())"
| "ext_step E (XDiscardCandidate r) = discard_candidate E r"
| "ext_step E (XDiscardStaged r) = discard_staged_record E r"
| "ext_step E (XEnable i) = athen (enable_extension E i) (areturn ())"
| "ext_step E (XDisable i t) = athen (disable_extension E i t) (areturn ())"
| "ext_step E (XUninstall i t) = athen (uninstall_extension E i t) (areturn ())"
| "ext_step E (XPreparePurge nonce i) = athen (prepare_purge E nonce i) (areturn ())"
| "ext_step E (XPurge c) = athen (purge_extension E c) (areturn ())"
| "ext_step E (XUpgrade i r t) = athen (upgrade_extension E i r t) (areturn ())"
| "ext_step E (XRollback i t) = athen (rollback_extension E i t) (areturn ())"

definition ext_run :: "ext_env \<Rightarrow> ext_op list \<Rightarrow> 'a ext_world_scheme \<Rightarrow> 'a ext_world_scheme" where
  "ext_run E ops w = fold (\<lambda>x v. snd (ext_step E x v)) ops w"

text \<open>A host that has just started: its records are stored, nothing is published, no plan is pending.\<close>

definition booted :: "ext_store \<Rightarrow> ext_world" where
  "booted s = \<lparr>xw_store = s, xw_registry = empty_registry, xw_pending = [], xw_purges = [], xw_log = []\<rparr>"

lemma booted_inv: "keyed_store s \<Longrightarrow> ext_inv E (booted s)"
  by (simp add: booted_def ext_inv_but_def plans_ok_def)

lemma disable_inv [ext_rules]: "keeps (ext_inv E) (disable_extension E i deadline)"
proof (rule hoareI)
  have owned: "owned E i w" if "ext_inv E w" "dget (xw_store w) i = Some r" "er_state r = ES_ENABLED" for w r
    using that stored_owned [of E w i r] by (simp add: installable_states_def)
  have other: "\<exists>e. disable_extension E i deadline w = (Inl e, w)" if "\<nexists>r. dget (xw_store w) i = Some r \<and> er_state r = ES_ENABLED" for w
    using that by (auto simp: disable_extension_def require_record_def lookup_record_def require_state_def act_simps raise_def split: option.splits)
  fix w assume w: "ext_inv E w"
  show "ext_inv E w'" if d: "disable_extension E i deadline w = (Inr x, w')" for x w'
    using hoareD [OF disable_owned_held _ d] owned [OF w] other [of w] d by (auto dest: heldD(2))
  show "ext_inv E w'" if d: "disable_extension E i deadline w = (Inl e, w')" for e w'
    using hoareD_Inl [OF disable_owned_held _ d] owned [OF w] other [of w] d w by (auto simp: owned_def)
qed

lemma discard_record_inv [ext_rules]: "keeps (ext_inv E) (discard_staged_record E r)"
  unfolding discard_staged_record_def by (auto intro!: keeps_rules ask_inv discard_staged_keeps port_inv)

lemma discard_candidate_inv [ext_rules]: "keeps (ext_inv E) (discard_candidate E r)"
  unfolding discard_candidate_def by (rule port_inv) simp

lemma step_inv: "keeps (ext_inv E) (ext_step E x)"
  by (cases x) (auto intro!: keeps_rules ext_rules)

lemma run_inv: "ext_inv E w \<Longrightarrow> ext_inv E (ext_run E ops w)"
  unfolding ext_run_def by (induction ops arbitrary: w) (auto intro: hoare_snd [OF step_inv])

section \<open>What runs the code of an artifact\<close>

text \<open>Installing an artifact and testing its contract run code of the artifact.\<close>

fun runs_artifact :: "port_call \<Rightarrow> bool" where
  "runs_artifact (P_Install _ _) = True"
| "runs_artifact (P_Verify _ _) = True"
| "runs_artifact _ = False"

text \<open>The calls made since the log had a given length.\<close>

definition new_calls :: "nat \<Rightarrow> 'a ext_world_scheme \<Rightarrow> port_call set" where
  "new_calls n w = set (drop n (xw_log w))"

definition quiet :: "nat \<Rightarrow> 'a ext_world_scheme \<Rightarrow> bool" where
  "quiet n w \<longleftrightarrow> (\<forall>c \<in> new_calls n w. \<not> runs_artifact c)"

lemma quiet_update [simp]: "quiet n (w\<lparr>xw_store := s\<rparr>) = quiet n w" "quiet n (w\<lparr>xw_registry := g\<rparr>) = quiet n w"
  "quiet n (w\<lparr>xw_pending := p\<rparr>) = quiet n w" "quiet n (w\<lparr>xw_purges := q\<rparr>) = quiet n w"
  by (simp_all add: quiet_def new_calls_def)

lemma quiet_log: "quiet n w \<Longrightarrow> \<not> runs_artifact c \<Longrightarrow> quiet n (w\<lparr>xw_log := xw_log w @ [c]\<rparr>)"
  by (auto simp: quiet_def new_calls_def drop_append split: if_splits) (metis Un_iff empty_iff list.set(1) set_ConsD set_append set_drop_subset subsetD)

named_theorems quiet_rules "operations that do not run the code of an artifact"

lemma ask_quiet [quiet_rules]: "\<not> runs_artifact c \<Longrightarrow> keeps (quiet n) (ask c f)"
  by (rule ask_hoare) (rule quiet_log)

lemma port_quiet [quiet_rules]: "\<not> runs_artifact c \<Longrightarrow> keeps (quiet n) (port E c)"
  unfolding port_def by (rule ask_quiet)

lemma save_quiet [quiet_rules]: "keeps (quiet n) (save_record E r)"
  by (rule save_hoare) (use quiet_log [of n _ "P_Save r"] in auto)

lemma registry_quiet [quiet_rules]: "keeps (quiet n) (in_registry f)"
  by (auto simp: hoare_def in_registry_def split: prod.splits simp del: split_paired_All)

lemma put_quiet [quiet_rules]: "(\<And>w. quiet n w \<Longrightarrow> quiet n (g w)) \<Longrightarrow> keeps (quiet n) (aput g)"
  by (simp add: hoare_def aput_def)

lemma discard_quiet [quiet_rules]: "keeps (quiet n) (discard_staged E st)"
  by (rule discard_staged_keeps) (auto intro: quiet_rules)

lemma amap_quiet [quiet_rules]: "(\<And>x. keeps (quiet n) (f x)) \<Longrightarrow> keeps (quiet n) (amap f xs)"
  by (induction xs) (auto intro!: keeps_rules)

lemma require_quiet [quiet_rules]: "keeps (quiet n) (lookup_record i)" "keeps (quiet n) (require_record i)" "keeps (quiet n) (require_state r sts t)"
  unfolding require_record_def lookup_record_def require_state_def by (auto intro!: keeps_rules)

lemma prepare_quiet [quiet_rules]: "keeps (quiet n) (prepare_plan E mode tok nonce now source)"
  unfolding prepare_plan_def inspect_staged_def drop_pending_def drop_plan_def by (auto intro!: keeps_rules quiet_rules)

lemma reject_quiet [quiet_rules]: "keeps (quiet n) (reject_plan E k)"
  unfolding reject_plan_def by (auto intro!: keeps_rules quiet_rules)

lemma start_quiet [quiet_rules]: "keeps (quiet n) (start_and_publish E r)"
  unfolding start_and_publish_def bring_up_def fail_start_def by (auto intro!: keeps_rules quiet_rules)

lemma enable_quiet [quiet_rules]: "keeps (quiet n) (enable_extension E i)"
  unfolding enable_extension_def by (auto intro!: keeps_rules quiet_rules)

lemma disable_quiet [quiet_rules]: "keeps (quiet n) (disable_extension E i t)"
  unfolding disable_extension_def drain_worker_def by (auto intro!: keeps_rules quiet_rules)

lemma uninstall_quiet [quiet_rules]: "keeps (quiet n) (uninstall_extension E i t)"
  unfolding uninstall_extension_def by (auto intro!: keeps_rules quiet_rules)

lemma purge_quiet [quiet_rules]: "keeps (quiet n) (prepare_purge E nonce i)" "keeps (quiet n) (purge_extension E c)"
  unfolding prepare_purge_def purge_extension_def by (auto intro!: keeps_rules quiet_rules)

lemma compensate_quiet [quiet_rules]: "keeps (quiet n) (compensate E r q st b)"
  unfolding compensate_def by (auto intro!: keeps_rules quiet_rules)

lemma upgrade_quiet [quiet_rules]: "keeps (quiet n) (upgrade_extension E i r t)"
  unfolding upgrade_extension_def upgrade_switch_def compensate_failed_upgrade_def by (auto intro!: keeps_rules quiet_rules)

lemma rollback_quiet [quiet_rules]: "keeps (quiet n) (rollback_extension E i t)"
  unfolding rollback_extension_def rollback_switch_def compensate_failed_rollback_def by (auto intro!: keeps_rules quiet_rules)

lemma discard_record_quiet [quiet_rules]: "keeps (quiet n) (discard_staged_record E r)" "keeps (quiet n) (discard_candidate E r)"
  unfolding discard_staged_record_def discard_candidate_def by (auto intro!: keeps_rules quiet_rules)

text \<open>The confirmation names the plan's exact preview, by an actor who accepted the warning, in time.\<close>

definition exactly_confirmed :: "installation_preview \<Rightarrow> installation_confirmation \<Rightarrow> time \<Rightarrow> bool" where
  "exactly_confirmed pv c now \<longleftrightarrow>
     ic_accepted_warning c \<and> \<not> blank (ic_actor c) \<and> ic_plan_id c = ip_plan_id pv \<and> ic_confirmation_nonce c = ip_confirmation_nonce pv \<and>
     ic_preview_hash c = ip_preview_hash pv \<and> ic_confirmed_at c \<le> now + minutes 1 \<and> ic_confirmed_at c \<le> ip_expires_at pv \<and> now \<le> ip_expires_at pv"

lemma validate_confirmation_Inr: "validate_confirmation pv c now = Inr () \<longleftrightarrow> (\<exists>conf. c = Some conf \<and> exactly_confirmed pv conf now)"
  by (auto simp: validate_confirmation_def exactly_confirmed_def raise_def split: option.splits)

text \<open>The plan an execution consumed, and the calls that ran code of an artifact: only of this plan's.\<close>

definition of_plan :: "pending_install \<Rightarrow> port_call \<Rightarrow> bool" where
  "of_plan p c \<longleftrightarrow> runs_artifact c \<longrightarrow> c = P_Install (pi_staged p) (pi_manifest p) \<or> (\<exists>i. c = P_Verify i (pi_manifest p))"

definition executing :: "nat \<Rightarrow> pending_install \<Rightarrow> (string \<times> pending_install) list \<Rightarrow> 'a ext_world_scheme \<Rightarrow> bool" where
  "executing n p d w \<longleftrightarrow> xw_pending w = d \<and> (\<forall>c \<in> new_calls n w. of_plan p c)"

lemma executing_log: "executing n p d w \<Longrightarrow> of_plan p c \<Longrightarrow> executing n p d (w\<lparr>xw_log := xw_log w @ [c]\<rparr>)"
  by (auto simp: executing_def new_calls_def drop_append split: if_splits) (metis Un_iff empty_iff list.set(1) set_ConsD set_append set_drop_subset subsetD)

lemma ask_executing: "of_plan p c \<Longrightarrow> keeps (executing n p d) (ask c f)"
  by (rule ask_hoare) (rule executing_log)

lemma port_executing: "of_plan p c \<Longrightarrow> keeps (executing n p d) (port E c)"
  unfolding port_def by (rule ask_executing)

lemma save_executing: "keeps (executing n p d) (save_record E r)"
proof (rule save_hoare)
  fix w :: "'a ext_world_scheme" assume "executing n p d w"
  then show l: "executing n p d (w\<lparr>xw_log := xw_log w @ [P_Save r]\<rparr>)" by (rule executing_log) (simp add: of_plan_def)
  then show "executing n p d (w\<lparr>xw_log := xw_log w @ [P_Save r], xw_store := dset (er_id r) r (xw_store w)\<rparr>)"
    by (simp add: executing_def new_calls_def)
qed

lemma run_executing: "keeps (executing n p d) (run_install E p md persist)"
  unfolding run_install_def abort_install_def
  by (auto intro!: keeps_rules port_executing ask_executing save_executing discard_staged_keeps simp: of_plan_def)

lemma verify_quiet: "keeps (quiet n) (verify_staged_unchanged E k p)" "keeps (quiet n) (verify_upgrade_baseline p)"
  unfolding verify_staged_unchanged_def by (auto intro!: keeps_rules quiet_rules verify_baseline_keeps)

text \<open>What an execution has checked when it calls the installer.\<close>

definition cleared :: "ext_env \<Rightarrow> string \<Rightarrow> installation_confirmation option \<Rightarrow> string \<Rightarrow> time \<Rightarrow> 'a ext_world_scheme \<Rightarrow> pending_install \<Rightarrow> bool" where
  "cleared E k c md now w p \<longleftrightarrow>
     dget (xw_pending w) k = Some p \<and> \<not> pi_consumed p \<and> ip_mode (pi_preview p) = md \<and> (\<exists>conf. c = Some conf \<and> exactly_confirmed (pi_preview p) conf now) \<and>
     compute_artifact_hash (xe_sha256 E) (xe_tree E (xw_log w) (sa_root (pi_staged p))) = Inr (ip_artifact_hash (pi_preview p))"

lemma verify_staged_Inr:
  "verify_staged_unchanged E k p w = (Inr u, w') \<Longrightarrow>
     compute_artifact_hash (xe_sha256 E) (xe_tree E (xw_log w) (sa_root (pi_staged p))) = Inr (ip_artifact_hash (pi_preview p)) \<and>
     w' = w\<lparr>xw_log := xw_log w @ [P_Hash (sa_root (pi_staged p))]\<rparr>"
  by (auto simp: verify_staged_unchanged_def ask_def act_simps sbind_def asuppress_def discard_staged_def raise_def acatch_def split: sum.splits if_splits prod.splits)

lemma baseline_same: "snd (verify_upgrade_baseline p w) = w"
  using hoare_snd [OF verify_baseline_keeps [of "\<lambda>v. v = w" p], of w] by simp

definition barrier ::
  "ext_env \<Rightarrow> string \<Rightarrow> installation_confirmation option \<Rightarrow> string \<Rightarrow> time \<Rightarrow> 'a ext_world_scheme \<Rightarrow> 'a ext_world_scheme \<Rightarrow> bool" where
  "barrier E k c md now w w' \<longleftrightarrow> quiet (length (xw_log w)) w' \<or>
     (\<exists>p. cleared E k c md now w p \<and> executing (length (xw_log w)) p (dset k (p\<lparr>pi_consumed := True\<rparr>) (xw_pending w)) w')"

lemma execute_install_barrier:
  fixes w :: "'a ext_world_scheme"
  shows "hoare (\<lambda>v. v = w) (execute_install E k c md persist now) (\<lambda>_. barrier E k c md now w) (\<lambda>_. barrier E k c md now w)"
  unfolding execute_install_def
proof (rule hoare_get_then, rule hoare_option)
  let ?n = "length (xw_log w)" and ?G = "barrier E k c md now w"
  have start: "quiet ?n w" by (simp add: quiet_def new_calls_def)
  then have G: "?G w" unfolding barrier_def by blast
  show "hoare (\<lambda>v. v = w \<and> dget (xw_pending v) k = plan) (araise ConfirmationRequiredError ''installation plan is missing or already consumed'')
      (\<lambda>_. ?G) (\<lambda>_. ?G)" for plan by (rule hoare_raise) (use G in blast)
  fix plan and p :: pending_install assume plan: "plan = Some p"
  let ?v = "w\<lparr>xw_log := xw_log w @ [P_Hash (sa_root (pi_staged p))]\<rparr>"
  let ?hash = "compute_artifact_hash (xe_sha256 E) (xe_tree E (xw_log w) (sa_root (pi_staged p))) = Inr (ip_artifact_hash (pi_preview p))"
  have 1: "hoare (\<lambda>v. v = w \<and> dget (xw_pending v) k = plan) (verify_staged_unchanged E k p) (\<lambda>_ v. v = ?v \<and> ?hash) (\<lambda>_. ?G)"
  proof (rule hoareI)
    show "v' = ?v \<and> ?hash" if "v = w \<and> dget (xw_pending v) k = plan" "verify_staged_unchanged E k p v = (Inr u, v')" for v v' u
      using verify_staged_Inr that by blast
    show "?G v'" if "v = w \<and> dget (xw_pending v) k = plan" "verify_staged_unchanged E k p v = (Inl e, v')" for v v' e
      using hoareD_Inl [OF verify_quiet(1), of ?n w E k p e v'] that start unfolding barrier_def by blast
  qed
  have "quiet ?n ?v" by (rule quiet_log [OF start]) simp
  then have "?G ?v" unfolding barrier_def by blast
  then have 2: "hoare (\<lambda>v. v = ?v \<and> ?hash) (if md = ''upgrade'' then verify_upgrade_baseline p else areturn ()) (\<lambda>_ v. v = ?v \<and> ?hash) (\<lambda>_. ?G)"
    by (auto intro!: hoare_if hoare_return hoare_weaken [OF verify_baseline_keeps [of "\<lambda>v. v = ?v \<and> ?hash"]])
  have 3: "hoare (\<lambda>v. v = ?v \<and> ?hash) (athen (aput (\<lambda>w. w\<lparr>xw_pending := dset k (p\<lparr>pi_consumed := True\<rparr>) (xw_pending w)\<rparr>)) (run_install E p md persist))
      (\<lambda>_. ?G) (\<lambda>_. ?G)" if c: "dget (xw_pending w) k = Some p" "\<not> pi_consumed p" "ip_mode (pi_preview p) = md" "validate_confirmation (pi_preview p) c now = Inr u" for u
  proof (rule hoare_fact [where c = ?hash], blast)
    assume ?hash
    with c have cl: "cleared E k c md now w p" by (simp add: cleared_def validate_confirmation_Inr)
    show ?thesis
    proof (rule hoare_put_then)
      show "hoare (executing ?n p (dset k (p\<lparr>pi_consumed := True\<rparr>) (xw_pending w))) (run_install E p md persist) (\<lambda>_. ?G) (\<lambda>_. ?G)"
        by (rule hoare_weaken [OF run_executing]) (use cl in \<open>auto simp: barrier_def\<close>)
    qed (auto simp: executing_def new_calls_def of_plan_def)
  qed
  show "hoare (\<lambda>v. v = w \<and> dget (xw_pending v) k = plan)
     (athen (aguard (\<not> pi_consumed p) ConfirmationRequiredError ''installation plan is missing or already consumed'')
          (athen (aguard (ip_mode (pi_preview p) = md) (ExtensionOperationError ''PLAN_MODE_MISMATCH'')
                    (''plan mode is '' @ py_repr (ip_mode (pi_preview p)) @ '', expected '' @ py_repr md))
          (athen (alift (validate_confirmation (pi_preview p) c now))
          (athen (verify_staged_unchanged E k p)
          (athen (if md = ''upgrade'' then verify_upgrade_baseline p else areturn ())
          (athen (aput (\<lambda>w. w\<lparr>xw_pending := dset k (p\<lparr>pi_consumed := True\<rparr>) (xw_pending w)\<rparr>))
            (run_install E p md persist))))))) (\<lambda>_. ?G) (\<lambda>_. ?G)"
  proof (rule hoare_fact [where c = "dget (xw_pending w) k = Some p"])
    assume "dget (xw_pending w) k = Some p"
    from 3 [OF this] G show ?thesis
      by (intro hoare_guard_then hoare_lift_then hoare_bind [OF 1 hoare_bind [OF 2]]) auto
  qed (use plan in auto)
qed

lemma step_quiet:
  "(\<And>k c now. x \<noteq> XInstall k c now \<and> x \<noteq> XInstallCandidate k c now) \<Longrightarrow> keeps (quiet n) (ext_step E x)"
  by (cases x) (auto intro!: keeps_rules quiet_rules)

lemma snd_athen_return: "snd (athen m (areturn ()) w) = snd (m w)"
  by (cases "m w" rule: act_cases) (simp_all add: act_simps sbind_def)

lemma step_barrier:
  assumes "\<not> quiet (length (xw_log w)) (snd (ext_step E x w))"
  shows "\<exists>k c now p. (x = XInstall k c now \<and> cleared E k c ''install'' now w p \<or> x = XInstallCandidate k c now \<and> cleared E k c ''upgrade'' now w p) \<and>
    executing (length (xw_log w)) p (dset k (p\<lparr>pi_consumed := True\<rparr>) (xw_pending w)) (snd (ext_step E x w))"
proof -
  have "quiet (length (xw_log w)) w" by (simp add: quiet_def new_calls_def)
  then obtain k c now where "x = XInstall k c now \<or> x = XInstallCandidate k c now"
    using hoare_snd [OF step_quiet, of x] assms by blast
  then show ?thesis
  proof
    assume x: "x = XInstall k c now"
    have "barrier E k c ''install'' now w (snd (ext_step E x w))"
      using hoare_snd [OF execute_install_barrier [of w E k c "''install''" True now]] by (simp add: x snd_athen_return install_plan_def)
    with assms x show ?thesis unfolding barrier_def by blast
  next
    assume x: "x = XInstallCandidate k c now"
    have "barrier E k c ''upgrade'' now w (snd (ext_step E x w))"
      using hoare_snd [OF execute_install_barrier [of w E k c "''upgrade''" False now]] by (simp add: x snd_athen_return install_candidate_def)
    with assms x show ?thesis unfolding barrier_def by blast
  qed
qed

section \<open>A switch of versions and the other extensions\<close>

text \<open>The registry holds what a given snapshot holds for every extension but one.\<close>

definition apart :: "ext_snapshot \<Rightarrow> string \<Rightarrow> 'a ext_world_scheme \<Rightarrow> bool" where
  "apart s i w \<longleftrightarrow> keyed_store (xw_store w) \<and> registry_ok (xw_registry w) \<and> (\<forall>j. j \<noteq> i \<longrightarrow> published (xw_registry w) j = published s j)"

named_theorems apart_rules "operations on one extension leave the others published as they were"

lemma ask_apart [apart_rules]: "keeps (apart s i) (ask c f)"
  by (rule ask_hoare) (simp add: apart_def)

lemma port_apart [apart_rules]: "keeps (apart s i) (port E c)"
  unfolding port_def by (rule ask_apart)

lemma save_apart [apart_rules]: "keeps (apart s i) (save_record E r)"
  by (rule save_hoare) (simp_all add: apart_def keyed_store_dset)

lemma registry_keeps:
  assumes "\<And>w. P w \<Longrightarrow> P (w\<lparr>xw_registry := snd (f (xw_registry w))\<rparr>)"
  shows "keeps P (in_registry f)"
  using assms by (auto simp: hoare_def in_registry_def split: prod.splits simp del: split_paired_All) (metis snd_conv)+

lemma disable_apart [apart_rules]: "keeps (apart s i) (in_registry (registry_disable i))"
proof (rule registry_keeps)
  fix w :: "'a ext_world_scheme" assume w: "apart s i w"
  then obtain s' where "registry_disable i (xw_registry w) = (Inr s', s')" "registry_ok s'"
    "\<And>j. published s' j = (if j = i then None else published (xw_registry w) j)"
    using registry_disable_ok [of "xw_registry w" i] unfolding apart_def by metis
  with w show "apart s i (w\<lparr>xw_registry := snd (registry_disable i (xw_registry w))\<rparr>)" by (simp add: apart_def)
qed

lemma enable_apart [apart_rules]:
  assumes "er_id r = i"
  shows "keeps (apart s i) (in_registry (registry_enable r))"
proof (rule registry_keeps)
  fix w :: "'a ext_world_scheme" assume w: "apart s i w"
  then have "registry_ok (xw_registry w)" by (simp add: apart_def)
  then show "apart s i (w\<lparr>xw_registry := snd (registry_enable r (xw_registry w))\<rparr>)"
    by (rule registry_enable_cases [of _ r]) (use w assms in \<open>auto simp: apart_def\<close>)
qed

lemma start_apart [apart_rules]: "er_id r = i \<Longrightarrow> keeps (apart s i) (start_and_publish E r)"
  unfolding start_and_publish_def bring_up_def fail_start_def by (auto intro!: keeps_rules apart_rules)

lemma require_apart:
  assumes "\<And>r. er_id r = i \<Longrightarrow> hoare (apart s i) (f r) Q (\<lambda>_. apart s i)"
  shows "hoare (apart s i) (abind (require_record i) f) Q (\<lambda>_. apart s i)"
proof (rule require_record_hoare)
  show "hoare (\<lambda>w. apart s i w \<and> dget (xw_store w) i = Some r) (f r) Q (\<lambda>_. apart s i)" for r
  proof (rule hoare_fact [where c = "er_id r = i"])
    show "er_id r = i" if "apart s i w \<and> dget (xw_store w) i = Some r" for w :: "'a ext_world_scheme"
      using that by (simp add: apart_def keyed_store_def)
  qed (rule hoare_pre [OF assms], simp_all)
qed

lemma require_state_apart [apart_rules]: "keeps (apart s i) (require_state r sts t)"
  unfolding require_state_def by (rule hoare_guard) auto

lemma enable_extension_apart [apart_rules]: "keeps (apart s i) (enable_extension E i)"
  unfolding enable_extension_def by (rule require_apart) (auto intro!: keeps_rules apart_rules)

lemma disable_extension_apart: "hoare (apart s i) (disable_extension E i t) (\<lambda>x w. apart s i w \<and> er_id x = i) (\<lambda>_. apart s i)"
  unfolding disable_extension_def drain_worker_def by (rule require_apart) (auto intro!: keeps_rules apart_rules)

lemma upgrade_switch_apart:
  assumes "er_id r = i" "er_id candidate = i"
  shows "keeps (apart s i) (upgrade_switch E r candidate t)"
proof -
  have 1: "hoare (apart s i) (if er_state r = ES_ENABLED then disable_extension E i t else areturn r) (\<lambda>x. apart s i) (\<lambda>_. apart s i)"
    by (auto intro!: hoare_return hoare_weaken [OF disable_extension_apart])
  show ?thesis unfolding upgrade_switch_def Let_def assms(1)
    by (rule hoare_bind [OF 1]) (use assms(2) in \<open>auto intro!: keeps_rules apart_rules\<close>)
qed

text \<open>A record that was published can be published again beside the others.\<close>

lemma mset_concat_map: "mset (concat (map f xs)) = sum_mset (image_mset (\<lambda>x. mset (f x)) (mset xs))"
  by (induction xs) simp_all

lemma compatible_mset: "mset rs = mset rs' \<Longrightarrow> compatible rs = compatible rs'"
  unfolding compatible_def by (metis mset_concat_map mset_eq_imp_distinct_iff mset_map)

lemma publish_again:
  assumes "registry_ok s" "published s i = Some r" "registry_ok s'" "\<And>j. published s' j = (if j = i then None else published s j)"
  obtains s'' where "registry_enable r s' = (Inr s'', s'')" "\<And>j. published s'' j = published s j"
proof -
  from assms(1) obtain rs where rs: "compatible rs" "s = snapshot_of (xs_generation s) rs" unfolding registry_ok_def by blast
  from assms(3) obtain rs' where rs': "compatible rs'" "s' = snapshot_of (xs_generation s') rs'" unfolding registry_ok_def by blast
  have r: "er_state r = ES_ENABLED" "er_id r = i" using published_enabled [OF assms(1,2)] by auto
  have pub: "published s j = Some q \<longleftrightarrow> q \<in> set rs \<and> er_id q = j" "published s' j = Some q \<longleftrightarrow> q \<in> set rs' \<and> er_id q = j" for j q
    using published_snapshot [OF rs(1), of "xs_generation s" j q] published_snapshot [OF rs'(1), of "xs_generation s'" j q] rs(2) rs'(2) by simp_all
  have "q \<in> set (rs' @ [r]) \<longleftrightarrow> q \<in> set rs" for q
    using pub(1) [of "er_id q" q] pub(2) [of "er_id q" q] pub(1) [of i q] pub(2) [of i q] assms(2) assms(4) [of "er_id q"] r(2) by auto
  moreover have "r \<notin> set rs'" using pub(2) [of i r] assms(4) [of i] r(2) by auto
  moreover have "distinct rs" "distinct rs'" using rs(1) rs'(1) by (auto simp: compatible_def distinct_map)
  ultimately have "mset (rs' @ [r]) = mset rs" by (intro set_eq_iff_mset_eq_distinct [THEN iffD1]) (auto simp: set_eq_iff)
  with rs(1) have "compatible (rs' @ [r])" using compatible_mset by blast
  moreover have "xs_extensions s' = map (\<lambda>r. (er_id r, r)) rs'" by (subst rs'(2)) (simp add: snapshot_of_def)
  moreover have "dget (xs_extensions s') i = None" using assms(4) [of i] by (simp add: published_def)
  ultimately have "map snd (dset (er_id r) r (xs_extensions s')) = rs' @ [r]" by (simp add: dset_fresh r(2) comp_def)
  with \<open>compatible (rs' @ [r])\<close> obtain s'' where "registry_enable r s' = (Inr s'', s'')"
    by (cases rule: publish_records_cases [of "rs' @ [r]" s']) (auto simp: registry_enable_def r(1))
  moreover from assms(3) have "published s'' j = published s j" for j
    by (cases rule: registry_enable_cases [of s' r]) (use calculation assms(2,4) r(2) in auto)
  ultimately show ?thesis using that by blast
qed

lemma rollback_switch_apart:
  assumes "er_id r = i" "er_id restored = i"
  shows "keeps (apart s i) (rollback_switch E r restored t)"
proof -
  have 1: "hoare (apart s i) (if er_state r = ES_ENABLED then disable_extension E i t else areturn r) (\<lambda>x. apart s i) (\<lambda>_. apart s i)"
    by (auto intro!: hoare_return hoare_weaken [OF disable_extension_apart])
  show ?thesis unfolding rollback_switch_def Let_def assms(1)
    by (rule hoare_bind [OF 1]) (use assms(2) in \<open>auto intro!: keeps_rules apart_rules\<close>)
qed

text \<open>
  What the compensation of a failed switch needs: records can be saved, stopping a worker fails only
  with an \<open>Exception\<close>, and the worker of the original version can be started again.
\<close>

definition restartable :: "ext_env \<Rightarrow> extension_record \<Rightarrow> bool" where
  "restartable E r \<longleftrightarrow>
     (\<forall>l q. xe_unit E l (P_Save q) = Inr ()) \<and> (\<forall>l q e. xe_unit E l (P_Stop q) = Inl e \<longrightarrow> is_exception (fst e)) \<and>
     (\<forall>l. xe_unit E l (P_Start (in_state r ES_STARTING)) = Inr () \<and> xe_health E l (in_state r ES_STARTING) = Inr True)"

lemma save_ok: "restartable E r \<Longrightarrow> save_record E q w = (Inr (), w\<lparr>xw_log := xw_log w @ [P_Save q], xw_store := dset (er_id q) q (xw_store w)\<rparr>)"
  by (simp add: restartable_def save_record_def port_def ask_def act_simps sbind_def store_saved)

lemma suppress_ok: "m w = (Inr x, v) \<Longrightarrow> asuppress C m w = (Inr (), v)"
  by (simp add: asuppress_def acatch_def act_simps sbind_def)

lemma stop_suppressed: "restartable E r \<Longrightarrow> asuppress is_exception (port E (P_Stop q)) w = (Inr (), w\<lparr>xw_log := xw_log w @ [P_Stop q]\<rparr>)"
proof (cases "xe_unit E (xw_log w) (P_Stop q)")
  case (Inl e)
  assume "restartable E r"
  with Inl have "is_exception (fst e)" unfolding restartable_def by blast
  with Inl show ?thesis by (simp add: asuppress_def acatch_def port_def ask_def act_simps)
qed (rule suppress_ok, simp add: port_def ask_def)

lemma start_ok: "restartable E r \<Longrightarrow> port E (P_Start (in_state r ES_STARTING)) w = (Inr (), w\<lparr>xw_log := xw_log w @ [P_Start (in_state r ES_STARTING)]\<rparr>)"
  by (simp add: restartable_def port_def ask_def)

lemma health_ok: "restartable E r \<Longrightarrow> ask (P_Health (in_state r ES_STARTING)) (\<lambda>l. xe_health E l (in_state r ES_STARTING)) w =
    (Inr True, w\<lparr>xw_log := xw_log w @ [P_Health (in_state r ES_STARTING)]\<rparr>)"
  by (simp add: restartable_def ask_def)

lemma restart:
  assumes ok: "restartable E r" and r: "er_state r = ES_ENABLED" "er_id r = i"
    and st: "st \<in> {ES_DISABLED, ES_ROLLED_BACK}" "dget (xw_store w) i = Some (in_state r st)"
    and pub: "registry_enable r (xw_registry w) = (Inr s', s')"
  shows "\<exists>w'. enable_extension E i w = (Inr r, w') \<and> xw_registry w' = s' \<and> dget (xw_store w') i = Some r"
proof -
  have s: "in_state r ES_ENABLED = r" using r(1) by (cases r) simp
  from st show ?thesis
    by (auto simp: enable_extension_def require_record_def lookup_record_def require_state_def start_and_publish_def Let_def s save_ok [OF ok]
        bring_up_def start_ok [OF ok] health_ok [OF ok] in_registry_def pub r(2) act_simps sbind_def acatch_def split: prod.splits)
qed

lemma compensate_restores:
  assumes ok: "restartable E r" and s: "registry_ok s" "published s i = Some r" and w: "apart s i w" and st: "st \<in> {ES_DISABLED, ES_ROLLED_BACK}"
  shows "\<exists>w'. compensate E r q st True w = (Inr (), w') \<and> (\<forall>j. published (xw_registry w') j = published s j) \<and> dget (xw_store w') i = Some r"
proof -
  from published_enabled [OF s] have r: "er_state r = ES_ENABLED" "er_id r = i" by auto
  from w obtain s1 where s1: "registry_disable i (xw_registry w) = (Inr s1, s1)" "registry_ok s1"
    "\<And>j. published s1 j = (if j = i then None else published (xw_registry w) j)"
    using registry_disable_ok [of "xw_registry w" i] unfolding apart_def by metis
  with w have p1: "\<And>j. published s1 j = (if j = i then None else published s j)" by (simp add: apart_def)
  obtain s2 where s2: "registry_enable r s1 = (Inr s2, s2)" "\<And>j. published s2 j = published s j"
    using publish_again [OF s s1(2) p1] by blast
  let ?v = "w\<lparr>xw_registry := s1, xw_log := xw_log w @ [P_Stop q, P_Save (in_state r st)], xw_store := dset i (in_state r st) (xw_store w)\<rparr>"
  obtain w' where w': "enable_extension E i ?v = (Inr r, w')" "xw_registry w' = s2" "dget (xw_store w') i = Some r"
    using restart [OF ok r st, of ?v s2] s2(1) by auto
  have 1: "asuppress is_exception (in_registry (registry_disable i)) w = (Inr (), w\<lparr>xw_registry := s1\<rparr>)"
    by (rule suppress_ok) (simp add: in_registry_def s1(1))
  have 3: "asuppress is_exception (save_record E p) v = (Inr (), v\<lparr>xw_log := xw_log v @ [P_Save p], xw_store := dset (er_id p) p (xw_store v)\<rparr>)"
    for p and v :: "'a ext_world_scheme" by (rule suppress_ok [OF save_ok [OF ok]])
  have 4: "asuppress is_exception (enable_extension E i) ?v = (Inr (), w')" by (rule suppress_ok) (rule w'(1))
  have "compensate E r q st True w = (Inr (), w')"
    using 4 by (simp add: compensate_def r(2) act_simps sbind_def 1 stop_suppressed [OF ok] 3)
  with w' s2(2) show ?thesis by blast
qed

lemma failed_switch:
  assumes "acatch m (\<lambda>e. athen (h e) (afail e)) w = (Inl e, w')"
  obtains e' v where "m w = (Inl e', v)" "snd (h e' v) = w'"
  using assms by (cases "m w" rule: act_cases) (auto simp: acatch_def act_simps sbind_def split: prod.splits sum.splits intro: that)

lemma switch_restores:
  assumes ok: "restartable E r" and w: "apart (xw_registry w) i w" "published (xw_registry w) i = Some r"
    and m: "keeps (apart (xw_registry w) i) m" and st: "st \<in> {ES_DISABLED, ES_ROLLED_BACK}"
    and f: "acatch m (\<lambda>e. athen (compensate E r q st True) (afail e)) w = (Inl e, w')"
  shows "(\<forall>j. published (xw_registry w') j = published (xw_registry w) j) \<and> dget (xw_store w') i = Some r"
proof -
  from failed_switch [OF f] obtain e' v where v: "m w = (Inl e', v)" "snd (compensate E r q st True v) = w'" by blast
  from hoareD_Inl [OF m w(1) v(1)] have "apart (xw_registry w) i v" .
  moreover have "registry_ok (xw_registry w)" using w(1) by (simp add: apart_def)
  ultimately obtain v' where v': "compensate E r q st True v = (Inr (), v')" "\<forall>j. published (xw_registry v') j = published (xw_registry w) j"
    "dget (xw_store v') i = Some r" using compensate_restores [OF ok _ w(2) _ st] by blast
  then have "v' = w'" using v(2) by simp
  with v' show ?thesis by simp
qed

lemma upgrade_restores:
  assumes ok: "restartable E r" and w: "ext_inv E w" "published (xw_registry w) i = Some r"
    and f: "upgrade_extension E i candidate t w = (Inl e, w')"
  shows "(\<forall>j. published (xw_registry w') j = published (xw_registry w) j) \<and> dget (xw_store w') i = Some r"
proof -
  from w have st: "dget (xw_store w) i = Some r" "registry_ok (xw_registry w)" and a: "apart (xw_registry w) i w"
    unfolding ext_inv_but_def apart_def by blast+
  from published_enabled [OF st(2) w(2)] have r: "er_state r = ES_ENABLED" "er_id r = i" by auto
  show ?thesis
  proof (cases "er_id candidate = i \<and> er_state candidate = ES_INSTALLED_DISABLED")
    case True
    then have "acatch (upgrade_switch E r candidate t) (\<lambda>e. athen (compensate E r candidate ES_ROLLED_BACK True) (afail e)) w = (Inl e, w')"
      using f by (simp add: upgrade_extension_def require_record_def lookup_record_def require_state_def act_simps sbind_def st(1) r compensate_failed_upgrade_def)
    from switch_restores [OF ok a w(2) upgrade_switch_apart _ this] r True show ?thesis by simp
  next
    case False
    then have "w' = w" using f
      by (auto simp: upgrade_extension_def require_record_def lookup_record_def require_state_def aguard_def act_simps sbind_def st(1) r raise_def split: if_splits)
    with st show ?thesis by simp
  qed
qed

lemma rollback_restores:
  assumes ok: "restartable E r" and w: "ext_inv E w" "published (xw_registry w) i = Some r"
    and f: "rollback_extension E i t w = (Inl e, w')"
  shows "(\<forall>j. published (xw_registry w') j = published (xw_registry w) j) \<and> dget (xw_store w') i = Some r"
proof -
  from w have st: "dget (xw_store w) i = Some r" "registry_ok (xw_registry w)" and a: "apart (xw_registry w) i w"
    unfolding ext_inv_but_def apart_def by blast+
  from published_enabled [OF st(2) w(2)] have r: "er_state r = ES_ENABLED" "er_id r = i" by auto
  let ?v = "w\<lparr>xw_log := xw_log w @ [P_VersionRollback r]\<rparr>"
  have av: "apart (xw_registry ?v) i ?v" "published (xw_registry ?v) i = Some r" using a w(2) by (simp_all add: apart_def)
  show ?thesis
  proof (cases "\<exists>restored. xe_rollback E (xw_log w) r = Inr restored \<and> er_id restored = i")
    case True
    then obtain restored where re: "xe_rollback E (xw_log w) r = Inr restored" "er_id restored = i" by blast
    then have "acatch (rollback_switch E r restored t) (\<lambda>e. athen (compensate E r restored ES_DISABLED True) (afail e)) ?v = (Inl e, w')"
      using f by (simp add: rollback_extension_def require_record_def lookup_record_def require_state_def act_simps sbind_def ask_def st(1) r compensate_failed_rollback_def)
    from switch_restores [OF ok av rollback_switch_apart _ this] r re(2) show ?thesis by simp
  next
    case False
    then have "w' = ?v" using f
      by (auto simp: rollback_extension_def require_record_def lookup_record_def require_state_def aguard_def act_simps sbind_def ask_def st(1) r raise_def split: sum.splits if_splits)
    with st show ?thesis by simp
  qed
qed

text \<open>What a start and an upgrade that return have published.\<close>

definition live :: "extension_record \<Rightarrow> 'a ext_world_scheme \<Rightarrow> bool" where
  "live r w \<longleftrightarrow> published (xw_registry w) (er_id r) = Some r \<and> dget (xw_store w) (er_id r) = Some r"

lemma start_and_publish_live:
  "hoare (\<lambda>w. registry_ok (xw_registry w)) (start_and_publish E r) (\<lambda>x w. x = in_state r ES_ENABLED \<and> live x w) (\<lambda>_ _. True)"
proof -
  let ?ok = "\<lambda>w :: 'a ext_world_scheme. registry_ok (xw_registry w)"
  let ?pub = "\<lambda>w :: 'a ext_world_scheme. published (xw_registry w) (er_id r) = Some (in_state r ES_ENABLED)"
  have save: "hoare ?ok (save_record E q) (\<lambda>_. ?ok) (\<lambda>_ _. True)" for q by (rule save_hoare) simp_all
  have unit: "hoare ?ok (port E c) (\<lambda>_. ?ok) (\<lambda>_ _. True)" for c unfolding port_def by (auto simp: hoare_def ask_def)
  have health: "hoare ?ok (ask c f) (\<lambda>_. ?ok) (\<lambda>_ _. True)" for c and f :: "port_log \<Rightarrow> bool result" by (auto simp: hoare_def ask_def)
  have reg: "hoare ?ok (in_registry (registry_enable (in_state r ES_ENABLED))) (\<lambda>_. ?pub) (\<lambda>_ _. True)"
  proof (rule hoareI)
    fix w x w' assume "?ok w" and e: "in_registry (registry_enable (in_state r ES_ENABLED)) w = (Inr x, w')"
    from this(1) show "?pub w'" by (rule registry_enable_cases [of _ "in_state r ES_ENABLED"]) (use e in \<open>auto simp: in_registry_def\<close>)
  qed simp
  have up: "hoare ?ok (bring_up E (in_state r ES_STARTING)) (\<lambda>_. ?pub) (\<lambda>_ _. True)"
    unfolding bring_up_def by (rule hoare_bind [OF unit hoare_bind [OF health hoare_guard_then]]) (use reg in auto)
  have up': "hoare ?ok (acatch (bring_up E (in_state r ES_STARTING)) (fail_start E (in_state r ES_STARTING) False)) (\<lambda>_. ?pub) (\<lambda>_ _. True)"
    by (rule hoare_catch [OF up]) (auto simp: fail_start_def hoare_def act_simps sbind_def split: prod.splits sum.splits if_splits)
  have saved: "hoare ?pub (save_record E (in_state r ES_ENABLED)) (\<lambda>_. live (in_state r ES_ENABLED)) (\<lambda>_ _. True)"
    by (rule save_hoare) (simp_all add: live_def)
  have saved': "hoare ?pub (acatch (save_record E (in_state r ES_ENABLED)) (fail_start E (in_state r ES_STARTING) True)) (\<lambda>_. live (in_state r ES_ENABLED)) (\<lambda>_ _. True)"
    by (rule hoare_catch [OF saved]) (auto simp: fail_start_def hoare_def act_simps sbind_def split: prod.splits sum.splits if_splits)
  have e: "in_state (in_state r ES_STARTING) ES_ENABLED = in_state r ES_ENABLED" by simp
  show ?thesis unfolding start_and_publish_def Let_def e
    by (rule hoare_bind [OF save hoare_bind [OF up' hoare_bind [OF saved' hoare_return]]]) simp
qed

lemma start_stored_live:
  assumes "registry_ok (xw_registry w)" "dget (xw_store w) i = Some r" "enable_extension E i w = (Inr x, w')"
  shows "x = in_state r ES_ENABLED \<and> live x w'"
proof -
  have "start_and_publish E r w = (Inr x, w')"
    using assms(2,3) by (auto simp: enable_extension_def require_record_def lookup_record_def require_state_def aguard_def act_simps sbind_def raise_def split: if_splits)
  from hoareD [OF start_and_publish_live assms(1) this] show ?thesis .
qed

lemma upgrade_publishes:
  assumes w: "ext_inv E w" "published (xw_registry w) i = Some r" and f: "upgrade_extension E i candidate t w = (Inr x, w')"
  shows "x = in_state candidate ES_ENABLED \<and> er_id candidate = i \<and> live x w'"
proof -
  from w have st: "dget (xw_store w) i = Some r" "registry_ok (xw_registry w)" and a: "apart (xw_registry w) i w"
    unfolding ext_inv_but_def apart_def by blast+
  from published_enabled [OF st(2) w(2)] have r: "er_state r = ES_ENABLED" "er_id r = i" by auto
  from f have c: "er_id candidate = i"
    and "acatch (upgrade_switch E r candidate t) (\<lambda>e. athen (compensate E r candidate ES_ROLLED_BACK True) (afail e)) w = (Inr x, w')"
    by (auto simp: upgrade_extension_def require_record_def lookup_record_def require_state_def aguard_def act_simps sbind_def raise_def st(1) r
        compensate_failed_upgrade_def split: if_splits)
  then have s: "upgrade_switch E r candidate t w = (Inr x, w')"
    by (auto simp: acatch_def act_simps sbind_def split: prod.splits sum.splits)
  have 1: "hoare (apart (xw_registry w) i) (disable_extension E i t) (\<lambda>_. apart (xw_registry w) i) (\<lambda>_ _. True)"
    by (rule hoare_weaken [OF disable_extension_apart [where s = "xw_registry w"]]) simp_all
  have 2: "hoare (apart (xw_registry w) i) (save_record E q) (\<lambda>_. apart (xw_registry w) i) (\<lambda>_ _. True)"
    "hoare (apart (xw_registry w) i) (port E d) (\<lambda>_. apart (xw_registry w) i) (\<lambda>_ _. True)" for q d
    by (rule hoare_weaken [OF save_apart], simp_all) (rule hoare_weaken [OF port_apart], simp_all)
  have 3: "hoare (apart (xw_registry w) i) (save_record E (in_state candidate ES_DISABLED))
     (\<lambda>_ v. registry_ok (xw_registry v) \<and> dget (xw_store v) i = Some (in_state candidate ES_DISABLED)) (\<lambda>_ _. True)"
    by (rule save_hoare) (simp_all add: apart_def c)
  have 4: "hoare (\<lambda>v. registry_ok (xw_registry v) \<and> dget (xw_store v) i = Some (in_state candidate ES_DISABLED)) (enable_extension E i)
     (\<lambda>x v. x = in_state candidate ES_ENABLED \<and> live x v) (\<lambda>_ _. True)"
    by (rule hoareI) (use start_stored_live in fastforce, simp)
  have "hoare (apart (xw_registry w) i) (upgrade_switch E r candidate t) (\<lambda>x v. x = in_state candidate ES_ENABLED \<and> live x v) (\<lambda>_ _. True)"
    unfolding upgrade_switch_def Let_def r if_P [OF refl] by (rule hoare_bind [OF 1 hoare_bind [OF 2(1) hoare_bind [OF 2(2) hoare_bind [OF 3 4]]]])
  from hoareD [OF this a s] c show ?thesis by blast
qed

section \<open>Properties\<close>

definition small_tree :: artifact_tree where
  "small_tree = demo_tree\<lparr>at_entries := [\<lparr>te_parts = [''a''], te_symlink = False, te_content = Some ''b''\<rparr>]\<rparr>"

definition demo_staged :: staged_artifact where
  "demo_staged = \<lparr>sa_source = ''src'', sa_root = ''/ext'', sa_artifact_hash = (case compute_artifact_hash id small_tree of Inr h \<Rightarrow> h | Inl _ \<Rightarrow> [])\<rparr>"

definition host_env :: ext_env where
  "host_env = \<lparr>xe_unit = (\<lambda>_ _. Inr ()), xe_stage = (\<lambda>_ _. Inr demo_staged),
     xe_tree = (\<lambda>_ _. small_tree), xe_install = (\<lambda>_ _ _. Inr \<lparr>ia_install_path = ''/x'', ia_runtime_key = ''k'', ia_runtime_root = None\<rparr>),
     xe_health = (\<lambda>_ _. Inr True), xe_drain = (\<lambda>_ _ _. Inr None), xe_namespaces = (\<lambda>_ _. Inr []), xe_rollback = (\<lambda>_ r. Inr r),
     xe_invoke = (\<lambda>_ _ _. Inr VNone), xe_exists = (\<lambda>_ _. True), xe_is_dir = (\<lambda>_ _. True), xe_lib = sample_lib, xe_sha256 = id,
     xe_parser = mk_parser (3, 12), xe_iso = (\<lambda>_. ''t''), xe_ttl = minutes 15, xe_trust_warning = ''trusted'', xe_purge_warning = ''purge''\<rparr>"

text \<open>
  C8. A host that starts with any store of records and then performs any sequence of operations,
  whichever of them succeed or fail, only ever routes calls to extensions that serve: a published
  record is ENABLED, is exactly the record stored under its identifier, and its worker was started,
  answered its health check and was not stopped since.
\<close>

theorem published_extension_serves:
  assumes "keyed_store s" "w = ext_run E ops (booted s)" "published (xw_registry w) i = Some r"
  shows "er_id r = i \<and> er_state r = ES_ENABLED \<and> dget (xw_store w) i = Some r \<and> serving E (xw_log w) r"
proof -
  have "ext_inv E w" unfolding assms(2) by (rule run_inv [OF booted_inv [OF assms(1)]])
  then have "registry_ok (xw_registry w)" "dget (xw_store w) i = Some r \<and> serving E (xw_log w) r"
    using assms(3) unfolding ext_inv_but_def by blast+
  with published_enabled [OF _ assms(3)] show ?thesis by blast
qed

theorem published_extension_serves_witness:
  "serving host_env (xw_log (ext_run host_env [XEnable ''a.x''] (booted [(''a.x'', demo_ext ''a.x'' ES_DISABLED)]))) (demo_ext ''a.x'' ES_ENABLED)"
proof -
  have "published (xw_registry (ext_run host_env [XEnable ''a.x''] (booted [(''a.x'', demo_ext ''a.x'' ES_DISABLED)]))) ''a.x'' = Some (demo_ext ''a.x'' ES_ENABLED)"
    by code_simp
  moreover have "keyed_store [(''a.x'', demo_ext ''a.x'' ES_DISABLED)]"
    by (simp add: keyed_store_def demo_ext_def new_extension_record_def demo_manifest_def)
  ultimately show ?thesis using published_extension_serves [OF _ refl] by blast
qed

text \<open>
  C7. Code of an artifact runs only behind the exact confirmation of its preview: if an operation
  installs an artifact or tests its contract, then it is the execution of a pending plan that nobody
  executed before, in the plan's mode, with an unexpired confirmation that names the plan, the nonce
  and the hash of the preview; the staged tree still has the hash the preview showed, only the plan's
  artifact is installed, and the plan is consumed, so no execution can use it again.
\<close>

theorem install_needs_confirmation:
  assumes "c \<in> new_calls (length (xw_log w)) (snd (ext_step E x w))" "runs_artifact c" "w' = snd (ext_step E x w)"
  shows "\<exists>k conf now p. (x = XInstall k (Some conf) now \<and> ip_mode (pi_preview p) = ''install'' \<or>
            x = XInstallCandidate k (Some conf) now \<and> ip_mode (pi_preview p) = ''upgrade'') \<and>
     dget (xw_pending w) k = Some p \<and> \<not> pi_consumed p \<and> exactly_confirmed (pi_preview p) conf now \<and>
     compute_artifact_hash (xe_sha256 E) (xe_tree E (xw_log w) (sa_root (pi_staged p))) = Inr (ip_artifact_hash (pi_preview p)) \<and>
     (c = P_Install (pi_staged p) (pi_manifest p) \<or> (\<exists>i. c = P_Verify i (pi_manifest p))) \<and>
     xw_pending w' = dset k (p\<lparr>pi_consumed := True\<rparr>) (xw_pending w) \<and>
     (\<forall>md persist c' now'. execute_install E k c' md persist now' w' =
        (raise ConfirmationRequiredError ''installation plan is missing or already consumed'', w'))"
proof -
  from assms(1,2) have "\<not> quiet (length (xw_log w)) (snd (ext_step E x w))" unfolding quiet_def by blast
  then obtain k cf now p where
    x: "x = XInstall k cf now \<and> cleared E k cf ''install'' now w p \<or> x = XInstallCandidate k cf now \<and> cleared E k cf ''upgrade'' now w p" and
    ex: "executing (length (xw_log w)) p (dset k (p\<lparr>pi_consumed := True\<rparr>) (xw_pending w)) w'"
    using step_barrier assms(3) by blast
  from ex assms have c: "c = P_Install (pi_staged p) (pi_manifest p) \<or> (\<exists>i. c = P_Verify i (pi_manifest p))"
    unfolding executing_def of_plan_def by blast
  from ex have pend: "xw_pending w' = dset k (p\<lparr>pi_consumed := True\<rparr>) (xw_pending w)" by (simp add: executing_def)
  have "execute_install E k c' md persist now' w' = (raise ConfirmationRequiredError ''installation plan is missing or already consumed'', w')"
    for md persist c' now' by (simp add: execute_install_def act_simps sbind_def pend raise_def)
  with x c pend show ?thesis unfolding cleared_def by blast
qed

definition demo_plan :: pending_install where
  "demo_plan = \<lparr>pi_staged = demo_staged, pi_manifest = demo_manifest ''a.x'' ''1.0.0'' [],
     pi_preview = \<lparr>ip_plan_id = ''install_t'', ip_confirmation_nonce = ''n'', ip_expires_at = 9, ip_source = ''src'',
       ip_artifact_hash = sa_artifact_hash demo_staged, ip_extension_id = ''a.x'', ip_extension_name = ''X'', ip_extension_version = ''1.0.0'',
       ip_entrypoint = ''m:f'', ip_slots = [], ip_tool_risks = [], ip_required_capabilities = [], ip_optional_capabilities = [],
       ip_warning = ''trusted'', ip_preview_hash = ''h'', ip_mode = ''install'', ip_replaces_version = None\<rparr>, pi_consumed = False\<rparr>"

definition demo_prepared :: ext_world where
  "demo_prepared = (booted [])\<lparr>xw_pending := [(''install_t'', demo_plan)]\<rparr>"

definition demo_install :: ext_op where
  "demo_install = XInstall ''install_t'' (Some \<lparr>ic_plan_id = ''install_t'', ic_confirmation_nonce = ''n'', ic_preview_hash = ''h'',
     ic_actor = ''user'', ic_confirmed_at = 0, ic_accepted_warning = True\<rparr>) 0"

lemma demo_installs: "\<exists>c \<in> new_calls (length (xw_log demo_prepared)) (snd (ext_step host_env demo_install demo_prepared)). runs_artifact c"
  by code_simp

theorem install_needs_confirmation_witness:
  "\<exists>k conf now p. demo_install = XInstall k (Some conf) now \<and> dget (xw_pending demo_prepared) k = Some p \<and> exactly_confirmed (pi_preview p) conf now"
proof -
  from demo_installs obtain c where "c \<in> new_calls (length (xw_log demo_prepared)) (snd (ext_step host_env demo_install demo_prepared))" "runs_artifact c" by blast
  from install_needs_confirmation [OF this refl] show ?thesis unfolding demo_install_def by blast
qed


text \<open>A version operator that refuses the candidate.\<close>

definition refusing_env :: ext_env where
  "refusing_env = host_env\<lparr>xe_unit := (\<lambda>_ c. case c of P_Activate _ _ \<Rightarrow> raise ExtensionError ''refused'' | _ \<Rightarrow> Inr ())\<rparr>"


end
