(* ===== verification/Spec2Isabelle.thy ===== *)
theory Spec2Isabelle
  imports PA_Agent PA_Router PA_Workflows PA_Lifecycle_Runs
begin

text \<open>
  Verification of the personal assistant (\<open>src/personal_assistant\<close>, Python).

  \<^bold>\<open>The program.\<close> The assistant keeps tasks for one user and lets an agent work on them with
  tools. A task creates a run and a job (\<open>core/tasks\<close>, \<open>infrastructure/memory/job_queue.py\<close>); a
  worker leases the job and drives the agent engine (\<open>core/agent\<close>), which asks a model or a
  workflow (\<open>core/workflows.py\<close>) for the next decision, validates it and hands the tool call to
  the gateway (\<open>core/tools/gateway.py\<close>). The gateway checks registry, schema and policy; an
  external write needs a single-use approval bound to the exact action
  (\<open>core/approvals\<close>, \<open>core/jobs/outbox.py\<close>). Requests to a remote model go through the router
  (\<open>core/models/router.py\<close>), which asks for a consent bound to the exact fields
  (\<open>core/models/disclosure.py\<close>). Schedules, polled events and learnt rules live in a versioned
  record store (\<open>core/records.py\<close>, \<open>core/scheduling.py\<close>, \<open>core/event_delivery.py\<close>,
  \<open>core/governance.py\<close>). Tools come from extensions, which a host installs, starts, upgrades and
  removes (\<open>core/extensions\<close>).

  \<^bold>\<open>Theories.\<close>
  \<^item> \<open>PA_Prelude\<close>: exceptions as values (\<open>domain/errors.py\<close>), results, strings, dictionaries.
  \<^item> \<open>PA_Values\<close>, \<open>PA_Canonical\<close>: Python values, canonical JSON and its hash
    (\<open>core/approvals/canonicalize.py\<close>), the result sanitizer and redaction; the canonical text
    determines the value.
  \<^item> \<open>PA_Domain\<close>: \<open>domain/enums.py\<close>, \<open>domain/models.py\<close> and the audit writer.
  \<^item> \<open>PA_Stores\<close>: the interfaces as locales: compare-and-swap stores, transition tables, logs of
    idempotent commands, lease tables.
  \<^item> \<open>PA_Schemas\<close>: the JSON Schema validator and the specification it decides.
  \<^item> \<open>PA_Approvals\<close>, \<open>PA_Outbox\<close>: approvals, their repository, the outbox and the interface
    \<open>approval_gate\<close> that both ways of consuming an approval satisfy.
  \<^item> \<open>PA_Jobs\<close>: job queue, lease keepalive, interval schedules.
  \<^item> \<open>PA_Tools\<close>, \<open>PA_Gateway\<close>: tool registry and policy, the gateway.
  \<^item> \<open>PA_Tasks\<close>: task repository, events and the task service with its unit of work.
  \<^item> \<open>PA_Agent\<close>: run state machine, fuse, progress detector, decision validation, engine.
  \<^item> \<open>PA_Records\<close>: record store, rule governance, event collection.
  \<^item> \<open>PA_Disclosure\<close>, \<open>PA_Router\<close>: consents and their store, the model router and the
    cancellation-resistant cleanup.
  \<^item> \<open>PA_Scheduling\<close>: cron expressions and the durable scheduler.
  \<^item> \<open>PA_Workflows\<close>: workflow definitions, references and the interpreter.
  \<^item> \<open>PA_Actions\<close>: actions on a state that return or raise, with \<open>try\<close>, \<open>suppress\<close> and Hoare triples
    for both ends of an action.
  \<^item> \<open>PA_Manifest\<close>, \<open>PA_Extensions\<close>: the extension manifest with its checks and the artifact hash
    (\<open>core/extensions/manifest.py\<close>), records, data namespaces, the registry and the lifecycle store
    (\<open>core/extensions/models.py\<close>, \<open>registry.py\<close>, \<open>infrastructure/memory/extensions.py\<close>).
  \<^item> \<open>PA_Lifecycle\<close>: the install coordinator and the lifecycle manager
    (\<open>core/extensions/lifecycle.py\<close>). The stager, installer, verifier, supervisor, data store and
    version operator are the fields of \<open>ext_env\<close>: each answers, or raises, as a function of the log
    of all calls made before, so a port may fail at any point. The invariant \<open>ext_inv\<close> is kept by
    every operation, whether it returns or raises.
  \<^item> \<open>PA_Lifecycle_Runs\<close>: sequences of these operations (\<open>ext_op\<close>, \<open>ext_run\<close>) from a host that has
    just started. \<open>recover_extension\<close> is modelled but is no such operation: it is for an extension
    that is not published, and only then \<open>recover_extension_inv\<close> shows that the invariant is kept.
  \<^item> This theory: properties that span components.

  \<^bold>\<open>Correspondence.\<close> A class with state is a \<open>record\<close>, an enumeration a \<open>datatype\<close> with its
  persisted values, a method a definition that takes and returns the state. An exception is a
  value \<open>Inl (class, message)\<close>; an operation on a store returns its outcome and the store
  afterwards, because some write before they raise. A \<open>dict\<close> is an association list in
  insertion order where order is visible and a map elsewhere. An instant is an \<open>int\<close> of
  microseconds, a naive datetime is \<open>Naive\<close>. The clock is read once per call and is an argument,
  as are identifiers and nonces drawn at random. Strings are lists of characters below 256. What
  the repository takes from elsewhere is an argument: the record \<open>stdlib\<close> (SHA-256, the text of
  a float, regular-expression search, the JSON parser), the executor of a tool, the planner, the
  providers and their recipients over time, time zones and ISO text, polling and event sinks.
  Hypotheses on these arguments are stated in the theorem that needs them and satisfied by a
  concrete instance in its witness.

  \<^bold>\<open>Interleaving.\<close> A method that holds its lock is one step. Where the code awaits between a read
  and a write, the phases are separate definitions and an \<open>inductive\<close> step relation lets other
  actors act in between (approvals, gateway, tasks); sequences of queue, record and consent
  operations are lists of operations.

  \<^bold>\<open>Bounds.\<close> The cron search looks at \<open>cron_horizon\<close> = 527040 minutes, the 366 days of the source;
  a tick replays at most 1440 occurrences. The engine loop runs over the list of its rounds'
  environments and \<open>engine_terminates\<close> shows how many are enough. All other loops are structural
  or have a termination proof.

  \<^bold>\<open>What is shown.\<close> Approvals: each is consumed at most once, for exactly the previewed action,
  before it expires. Gateway: an external write runs at most once per approval and only when
  registry, schema and policy permit; an ambiguous result becomes UNKNOWN and is never retried.
  Queue: leases exclude each other, settled jobs never run again, the first due job is claimed,
  enqueueing is idempotent. Tasks: versions only grow, finished tasks stay finished, creation is
  exactly-once and recovers. Engine: it stops, respects newer writes and performs no external
  write by itself. Disclosure: protected fields reach a remote model only under a live consent
  for exactly these fields and this recipient. Scheduler: the cron search returns the first
  match and a tick fires a bounded number of times. Workflows: a task stays bound to its
  definition, and what the interpreter proposes passes the decision validator whenever the tools
  and the arguments do.
  Extensions: whatever fails, a published extension is stored as ENABLED and its worker was
  started, passed its health check and was not stopped since; artifact code runs only behind a
  single-use confirmation of its exact preview and content; a failed upgrade or rollback brings
  the original version back; the registry routes each capability to the one published extension
  that declares it; an accepted manifest is well formed and its lockfile pinned; the artifact
  hash determines the included files.

  \<^bold>\<open>Not modelled.\<close> Input and output (PostgreSQL statements, HTTP, IMAP and SMTP, browser driving,
  subprocesses, virtual environments), the HTTP API and command line that parse requests, the
  wiring in \<open>bootstrap.py\<close>, migrations and scripts, and the bundled extensions, which run as
  separate processes.
  Also left out: browser sessions (\<open>core/browser\<close>), context composition (\<open>core/context\<close>), of the
  extension host its supervision service, operation log, data broker, configuration and JSON-RPC
  client (\<open>core/extensions\<close>), mail (\<open>core/mail\<close>) and form drafts. Calls of the install coordinator
  and the lifecycle manager do not overlap in the model; the supervision service that serialises
  them per extension is not part of it.
\<close>

section \<open>Workflows and the decision validator\<close>

definition call_proposal :: "string \<Rightarrow> string \<Rightarrow> pyval \<Rightarrow> pyval" where
  "call_proposal i version a = VDict [(''kind'', VStr ''CALL_TOOL''), (''tool_id'', VStr i), (''tool_version'', VStr version), (''arguments'', a)]"

lemma validate_call_proposal:
  assumes "run_task_id r \<noteq> []"
  shows "is_ok (validate_decision L v (call_proposal i version a) r) \<longleftrightarrow>
    (\<exists>desc. dget (dv_descriptors v) (i, version) = Some desc \<and> td_risk desc \<noteq> PROHIBITED \<and> i \<noteq> [] \<and> version \<noteq> [] \<and>
       is_dict_value a \<and> validate_json_schema L a (td_input_schema desc) ''$'' = Inr ())"
proof -
  have "dkeys [(''kind'', VStr ''CALL_TOOL''), (''tool_id'', VStr i), (''tool_version'', VStr version), (''arguments'', a)] =
      {''kind'', ''tool_id'', ''tool_version'', ''arguments''}" by (simp add: dkeys_def)
  then show ?thesis
    using assms
    by (auto simp: call_proposal_def validate_decision_def as_map_def validate_call_def is_ok_iff rbind_eq_Inr check_tool_call_def
        check_decision_def is_dict_value_def split: option.splits pyval.splits)
qed

lemma validate_message:
  assumes "kind \<in> {''COMPLETE'', ''NEEDS_USER''}" "\<not> blank m" "int (length m) \<le> 20000"
    "p \<in> {VDict [(''kind'', VStr kind), (''message'', VStr m)], VDict [(''kind'', VStr kind), (''message'', VStr m), (''result'', x)]}"
  shows "\<exists>d. validate_decision L v p r = Inr d \<and> vd_kind d \<noteq> CALL_TOOL"
  using assms by (auto simp: validate_decision_def as_map_def check_decision_def dkeys_def)

definition demo_run :: task_run where
  "demo_run = new_run ''r1'' ''t1'' ''objective'' 0"

definition demo_descriptor :: tool_descriptor where
  "demo_descriptor = read_tool\<lparr>td_id := ''t''\<rparr>"

section \<open>Properties\<close>



end
